(* ===== verification/Prelude.thy ===== *)
theory Prelude
  imports Main
begin

text \<open>
  What every theory of this library shares: Go maps, results that carry an error, the
  wrap-around of Go's \<^verbatim>\<open>int\<close>, and the generic lemmas the component theories rest on.

  A Go map is an association list.  \<open>gset\<close> overwrites in place, \<open>gdel\<close> removes, so every map
  built from \<open>[]\<close> by these two keeps its keys distinct (\<open>gwf\<close>).  Go leaves the iteration
  order of a map open; a function that ranges over a map therefore takes the order as an
  argument, a list of keys, and its lemmas hold for every order.

  A Go function that returns \<open>(T, error)\<close> is a function into \<open>'e + T\<close>: \<open>Inl\<close> is the error
  return and \<open>Inr\<close> the success; \<open>sbind\<close> is the early return on an error.
\<close>

named_theorems gomap_simps "lookup laws of the Go map model"
named_theorems result_simps "unfolding rules of the result combinators"

subsection \<open>Results\<close>

fun sbind :: "'e + 'a \<Rightarrow> ('a \<Rightarrow> 'e + 'b) \<Rightarrow> 'e + 'b" where
  "sbind (Inl e) f = Inl e"
| "sbind (Inr x) f = f x"

fun is_ok :: "'e + 'a \<Rightarrow> bool" where
  "is_ok (Inl _) = False"
| "is_ok (Inr _) = True"

definition guard :: "bool \<Rightarrow> 'e \<Rightarrow> 'e + unit" where
  "guard b e = (if b then Inl e else Inr ())"

text \<open>\<^verbatim>\<open>fmt.Errorf("...: %w", err)\<close>: the error is wrapped, a success passes.\<close>

definition wrap_err :: "('e \<Rightarrow> 'd) \<Rightarrow> 'e + 'a \<Rightarrow> 'd + 'a" where
  "wrap_err f r = (case r of Inl e \<Rightarrow> Inl (f e) | Inr x \<Rightarrow> Inr x)"

text \<open>A call whose result is dropped and whose error is kept.\<close>

definition check_only :: "'e + 'a \<Rightarrow> 'e + unit" where
  "check_only r = (case r of Inl e \<Rightarrow> Inl e | Inr _ \<Rightarrow> Inr ())"

text \<open>A loop that stops at the first error: Go's \<^verbatim>\<open>for\<close> with \<^verbatim>\<open>return err\<close> in the body.\<close>

fun for_each :: "('a \<Rightarrow> 'e + unit) \<Rightarrow> 'a list \<Rightarrow> 'e + unit" where
  "for_each f [] = Inr ()"
| "for_each f (x # xs) = (case f x of Inl e \<Rightarrow> Inl e | Inr _ \<Rightarrow> for_each f xs)"

text \<open>A loop that collects results and stops at the first error.\<close>

fun map_result :: "('a \<Rightarrow> 'e + 'b) \<Rightarrow> 'a list \<Rightarrow> 'e + 'b list" where
  "map_result f [] = Inr []"
| "map_result f (x # xs) =
     (case f x of Inl e \<Rightarrow> Inl e
      | Inr y \<Rightarrow> (case map_result f xs of Inl e \<Rightarrow> Inl e | Inr ys \<Rightarrow> Inr (y # ys)))"

lemma sbind_Inr_iff [result_simps]: "(sbind m f = Inr y) = (\<exists>x. m = Inr x \<and> f x = Inr y)"
  by (cases m) auto

lemma sbind_Inl_iff [result_simps]:
  "(sbind m f = Inl e) = (m = Inl e \<or> (\<exists>x. m = Inr x \<and> f x = Inl e))"
  by (cases m) auto

lemma is_ok_iff: "is_ok r = (\<exists>x. r = Inr x)"
  by (cases r) auto

lemma guard_Inr_iff [result_simps]: "(guard b e = Inr u) = (\<not> b)"
  by (simp add: guard_def)

lemma guard_Inl_iff [result_simps]: "(guard b e = Inl e') = (b \<and> e' = e)"
  by (auto simp: guard_def)

lemma wrap_err_Inr_iff [result_simps]: "(wrap_err f r = Inr x) = (r = Inr x)"
  by (auto simp: wrap_err_def split: sum.splits)

lemma wrap_err_Inl_iff [result_simps]: "(wrap_err f r = Inl d) = (\<exists>e. r = Inl e \<and> d = f e)"
  by (auto simp: wrap_err_def split: sum.splits)

lemma check_only_Inr_iff [result_simps]: "(check_only r = Inr u) = is_ok r"
  by (auto simp: check_only_def is_ok_iff split: sum.splits)

lemma for_each_Inr_iff: "(for_each f xs = Inr u) = (\<forall>x. x \<in> set xs \<longrightarrow> f x = Inr ())"
  by (induction xs) (auto split: sum.splits)

lemma for_each_Inl_ex: "for_each f xs = Inl e \<Longrightarrow> \<exists>x \<in> set xs. f x = Inl e"
  by (induction xs) (auto split: sum.splits)

lemma map_result_Cons_Inr:
  "(map_result f (x # xs) = Inr ys) = (\<exists>y zs. ys = y # zs \<and> f x = Inr y \<and> map_result f xs = Inr zs)"
  by (auto split: sum.splits)

lemma map_result_Inr_iff: "(map_result f xs = Inr ys) = list_all2 (\<lambda>x y. f x = Inr y) xs ys"
  by (induction xs arbitrary: ys)
    (simp_all only: map_result_Cons_Inr list_all2_Cons1, auto simp: eq_commute)

lemma map_result_mem:
  "map_result f xs = Inr ys \<Longrightarrow> y \<in> set ys \<Longrightarrow> \<exists>x \<in> set xs. f x = Inr y"
proof (induction xs arbitrary: ys)
  case (Cons x xs)
  then show ?case unfolding map_result_Cons_Inr by auto
qed simp

lemma map_result_length: "map_result f xs = Inr ys \<Longrightarrow> length ys = length xs"
  by (simp add: map_result_Inr_iff list_all2_lengthD)

lemma map_result_ok: "(\<And>x. x \<in> set xs \<Longrightarrow> f x = Inr (g x)) \<Longrightarrow> map_result f xs = Inr (map g xs)"
  by (induction xs) auto

subsection \<open>Go maps\<close>

type_synonym ('k, 'v) gomap = "('k \<times> 'v) list"

abbreviation gget :: "('k, 'v) gomap \<Rightarrow> 'k \<Rightarrow> 'v option" where
  "gget m k \<equiv> map_of m k"

abbreviation gkeys :: "('k, 'v) gomap \<Rightarrow> 'k list" where
  "gkeys m \<equiv> map fst m"

abbreviation gwf :: "('k, 'v) gomap \<Rightarrow> bool" where
  "gwf m \<equiv> distinct (gkeys m)"

fun gset :: "'k \<Rightarrow> 'v \<Rightarrow> ('k, 'v) gomap \<Rightarrow> ('k, 'v) gomap" where
  "gset k v [] = [(k, v)]"
| "gset k v ((k', v') # m) = (if k' = k then (k, v) # m else (k', v') # gset k v m)"

fun gdel :: "'k \<Rightarrow> ('k, 'v) gomap \<Rightarrow> ('k, 'v) gomap" where
  "gdel k [] = []"
| "gdel k ((k', v') # m) = (if k' = k then gdel k m else (k', v') # gdel k m)"

text \<open>\<^verbatim>\<open>m[k]\<close> where a missing key reads as the zero value \<open>z\<close>.\<close>

definition gget0 :: "'v \<Rightarrow> ('k, 'v) gomap \<Rightarrow> 'k \<Rightarrow> 'v" where
  "gget0 z m k = (case gget m k of None \<Rightarrow> z | Some v \<Rightarrow> v)"

text \<open>\<^verbatim>\<open>maps.Copy(dst, src)\<close> and every loop that copies the entries of one map into another.\<close>

fun gcopy :: "('k, 'v) gomap \<Rightarrow> ('k, 'v) gomap \<Rightarrow> ('k, 'v) gomap" where
  "gcopy dst [] = dst"
| "gcopy dst ((k, v) # src) = gcopy (gset k v dst) src"

lemma gget_gset [simp, gomap_simps]: "gget (gset k v m) k' = (if k' = k then Some v else gget m k')"
  by (induction m) auto

lemma gget_gdel [simp, gomap_simps]: "gget (gdel k m) k' = (if k' = k then None else gget m k')"
  by (induction m) auto

lemma set_gkeys_gset [simp]: "fst ` set (gset k v m) = insert k (fst ` set m)"
  by (induction k v m rule: gset.induct) auto

lemma set_gkeys_gdel [simp]: "fst ` set (gdel k m) = fst ` set m - {k}"
  by (induction k m rule: gdel.induct) auto

lemma gwf_gset [simp]: "gwf (gset k v m) = gwf m"
proof (induction k v m rule: gset.induct)
  case (2 k v k' v' m)
  then show ?case by (cases "k' = k") (simp_all)
qed simp

lemma gwf_gdel [simp]: "gwf m \<Longrightarrow> gwf (gdel k m)"
  by (induction m) auto

lemma gdel_absent [simp]: "k \<notin> fst ` set m \<Longrightarrow> gdel k m = m"
  by (induction m) auto

lemma gget_Some_key: "gget m k = Some v \<Longrightarrow> k \<in> fst ` set m"
  by (metis domI dom_map_of_conv_image_fst)

lemma gget_None_iff: "gget m k = None \<longleftrightarrow> k \<notin> fst ` set m"
  by (rule map_of_eq_None_iff)

lemma gkeys_gset_present: "k \<in> fst ` set m \<Longrightarrow> gkeys (gset k v m) = gkeys m"
  by (induction k v m rule: gset.induct) auto

lemma gset_absent: "k \<notin> fst ` set m \<Longrightarrow> gset k v m = m @ [(k, v)]"
  by (induction k v m rule: gset.induct) auto

lemma gkeys_gdel: "gkeys (gdel k m) = filter (\<lambda>x. x \<noteq> k) (gkeys m)"
  by (induction m) auto

lemma gwf_gcopy [simp]: "gwf (gcopy d s) = gwf d"
  by (induction d s rule: gcopy.induct) auto

lemma gget_gcopy [gomap_simps]:
  "gwf s \<Longrightarrow> gget (gcopy d s) k = (case gget s k of None \<Rightarrow> gget d k | Some v \<Rightarrow> Some v)"
proof (induction d s rule: gcopy.induct)
  case (2 d k1 v1 s)
  then have "gget s k1 = None" by (simp add: gget_None_iff)
  with 2 show ?case by (simp split: option.split)
qed simp

text \<open>
  What the components use of a map, as an interface: they look keys up, overwrite and delete,
  and rely on nothing else.  The lemmas of the locale hold of every such map.
\<close>

locale finite_store =
  fixes nil :: 'm
    and look :: "'m \<Rightarrow> 'k \<Rightarrow> 'v option"
    and put :: "'k \<Rightarrow> 'v \<Rightarrow> 'm \<Rightarrow> 'm"
    and drop_key :: "'k \<Rightarrow> 'm \<Rightarrow> 'm"
  assumes look_nil: "look nil k = None"
    and look_put: "look (put k v m) k' = (if k' = k then Some v else look m k')"
    and look_drop: "look (drop_key k m) k' = (if k' = k then None else look m k')"
begin

lemma look_put_many:
  "look (foldl (\<lambda>m (k, v). put k v m) m kvs) k =
     (case map_of (rev kvs) k of None \<Rightarrow> look m k | Some v \<Rightarrow> Some v)"
proof (induction kvs arbitrary: m)
  case (Cons a kvs)
  then show ?case by (cases a) (auto simp: look_put map_add_def split: option.splits)
qed simp

lemma look_drop_many:
  "look (foldl (\<lambda>m k. drop_key k m) m ks) k = (if k \<in> set ks then None else look m k)"
  by (induction ks arbitrary: m) (auto simp: look_drop)

lemma put_then_drop: "look (drop_key k (put k v m)) k' = look (drop_key k m) k'"
  by (simp add: look_put look_drop)

lemma drop_other_keeps: "k' \<noteq> k \<Longrightarrow> look (drop_key k (put k' v m)) k' = Some v"
  by (simp add: look_put look_drop)

end

interpretation gostore: finite_store "[] :: ('k, 'v) gomap" gget gset gdel
  by unfold_locales auto

subsection \<open>Machine integers\<close>

text \<open>
  Go's \<^verbatim>\<open>int\<close> and \<^verbatim>\<open>int64\<close> have 64 bits on the platforms the program is built for; \<open>wrap64\<close> is the
  value an arithmetic result takes, \<open>wrap32\<close> the conversion \<^verbatim>\<open>int32(x)\<close>.
\<close>

definition wrap64 :: "int \<Rightarrow> int" where
  "wrap64 x = (x + 2 ^ 63) mod 2 ^ 64 - 2 ^ 63"

definition wrap32 :: "int \<Rightarrow> int" where
  "wrap32 x = (x + 2 ^ 31) mod 2 ^ 32 - 2 ^ 31"

lemma wrap64_id [simp]: "- (2 ^ 63) \<le> x \<Longrightarrow> x < 2 ^ 63 \<Longrightarrow> wrap64 x = x"
  by (simp add: wrap64_def)

lemma wrap32_id [simp]: "- (2 ^ 31) \<le> x \<Longrightarrow> x < 2 ^ 31 \<Longrightarrow> wrap32 x = x"
  by (simp add: wrap32_def)

lemma wrap64_range: "- (2 ^ 63) \<le> wrap64 x" "wrap64 x < 2 ^ 63"
  by (simp_all add: wrap64_def)

lemma wrap32_range: "- (2 ^ 31) \<le> wrap32 x" "wrap32 x < 2 ^ 31"
  by (simp_all add: wrap32_def)

text \<open>Go's integer division truncates towards zero.\<close>

definition quot :: "int \<Rightarrow> int \<Rightarrow> int" where
  "quot a b = sgn a * sgn b * (\<bar>a\<bar> div \<bar>b\<bar>)"

lemma quot_nonneg [simp]: "0 \<le> a \<Longrightarrow> 0 < b \<Longrightarrow> quot a b = a div b"
  by (cases "a = 0") (simp_all add: quot_def)

subsection \<open>Lists\<close>

text \<open>\<^verbatim>\<open>slices.Contains\<close> is \<open>List.member\<close>; the removal of the first occurrence is \<open>remove1\<close>.\<close>

lemma distinct_remove1_set: "distinct xs \<Longrightarrow> set (remove1 x xs) = set xs - {x}"
  by simp

lemma distinct_filter_eq_remove1: "distinct xs \<Longrightarrow> remove1 x xs = filter (\<lambda>y. y \<noteq> x) xs"
  by (simp add: distinct_remove1_removeAll removeAll_filter_not_eq) (metis)

lemma find_memD: "List.find P xs = Some x \<Longrightarrow> x \<in> set xs \<and> P x"
  by (induction xs) (auto split: if_splits)

end
