(* ===== verification/Strings.thy ===== *)
theory Strings
  imports Prelude
begin

text \<open>
  The part of Go's \<^verbatim>\<open>strings\<close> and \<^verbatim>\<open>strconv\<close> packages the program uses, on strings as
  lists of characters (bytes).  Case mapping and the notion of white space are those of ASCII;
  the program applies them to keywords, numbers and host names.
\<close>

named_theorems string_simps "unfolding rules of the string functions"

subsection \<open>Prefixes, suffixes and search\<close>

fun has_prefix :: "string \<Rightarrow> string \<Rightarrow> bool" where
  "has_prefix s [] = True"
| "has_prefix [] (p # ps) = False"
| "has_prefix (c # s) (p # ps) = (c = p \<and> has_prefix s ps)"

definition has_suffix :: "string \<Rightarrow> string \<Rightarrow> bool" where
  "has_suffix s p = has_prefix (rev s) (rev p)"

definition trim_prefix :: "string \<Rightarrow> string \<Rightarrow> string" where
  "trim_prefix s p = (if has_prefix s p then drop (length p) s else s)"

definition trim_suffix :: "string \<Rightarrow> string \<Rightarrow> string" where
  "trim_suffix s p = (if has_suffix s p then take (length s - length p) s else s)"

fun index_of :: "string \<Rightarrow> string \<Rightarrow> nat option" where
  "index_of [] p = (if p = [] then Some 0 else None)"
| "index_of (c # s) p = (if has_prefix (c # s) p then Some 0 else map_option Suc (index_of s p))"

definition contains :: "string \<Rightarrow> string \<Rightarrow> bool" where
  "contains s p = (index_of s p \<noteq> None)"

text \<open>\<^verbatim>\<open>strings.Cut\<close>: around the first occurrence of the separator.\<close>

definition cut :: "string \<Rightarrow> string \<Rightarrow> (string \<times> string) option" where
  "cut s sep = map_option (\<lambda>i. (take i s, drop (i + length sep) s)) (index_of s sep)"

fun last_index_char :: "string \<Rightarrow> char \<Rightarrow> nat option" where
  "last_index_char [] c = None"
| "last_index_char (x # s) c =
     (case last_index_char s c of Some i \<Rightarrow> Some (Suc i)
      | None \<Rightarrow> if x = c then Some 0 else None)"

lemma has_prefix_iff: "has_prefix s p = (\<exists>t. s = p @ t)"
  by (induction s p rule: has_prefix.induct) auto

lemma has_prefix_append [simp]: "has_prefix (p @ t) p"
  by (auto simp: has_prefix_iff)

lemma has_prefix_refl [simp]: "has_prefix p p"
  by (auto simp: has_prefix_iff)

lemma has_suffix_iff: "has_suffix s p = (\<exists>t. s = t @ p)"
  by (auto simp: has_suffix_def has_prefix_iff) (metis rev_append rev_rev_ident)

lemma has_suffix_append [simp]: "has_suffix (t @ p) p"
  by (auto simp: has_suffix_iff)

lemma trim_prefix_append [simp]: "trim_prefix (p @ t) p = t"
  by (simp add: trim_prefix_def)

lemma trim_suffix_append [simp]: "trim_suffix (t @ p) p = t"
  by (simp add: trim_suffix_def)

lemma index_of_bound: "index_of s p = Some i \<Longrightarrow> i + length p \<le> length s"
proof (induction s arbitrary: i)
  case (Cons c s)
  have "has_prefix (c # s) p \<Longrightarrow> length p \<le> length (c # s)"
    by (auto simp only: has_prefix_iff length_append)
  with Cons show ?case by (fastforce split: if_splits)
qed (simp split: if_splits)

lemma index_of_parts: "index_of s p = Some i \<Longrightarrow> s = take i s @ p @ drop (i + length p) s"
  by (induction s arbitrary: i) (auto split: if_splits simp: has_prefix_iff)

lemma cut_parts: "cut s sep = Some (a, b) \<Longrightarrow> s = a @ sep @ b"
  using index_of_parts by (fastforce simp: cut_def)

lemma index_of_char_append:
  "c \<notin> set a \<Longrightarrow> index_of (a @ c # b) [c] = Some (length a)"
  by (induction a) auto

lemma cut_char [simp]: "c \<notin> set a \<Longrightarrow> cut (a @ c # b) [c] = Some (a, b)"
  by (simp add: cut_def index_of_char_append)

lemma index_of_char_None: "(index_of s [c] = None) = (c \<notin> set s)"
  by (induction s) auto

lemma contains_char [simp]: "contains s [c] = (c \<in> set s)"
  by (simp add: contains_def index_of_char_None)

lemma cut_char_None: "c \<notin> set s \<Longrightarrow> cut s [c] = None"
  by (simp add: cut_def index_of_char_None)

lemma last_index_char_None: "(last_index_char s c = None) = (c \<notin> set s)"
  by (induction s) (auto split: option.splits)

lemma last_index_char_append [simp]:
  "c \<notin> set b \<Longrightarrow> last_index_char (a @ c # b) c = Some (length a)"
  by (induction a) (auto split: option.splits simp: last_index_char_None)

subsection \<open>Splitting and joining\<close>

fun split_char :: "char \<Rightarrow> string \<Rightarrow> string list" where
  "split_char c [] = [[]]"
| "split_char c (x # s) =
     (if x = c then [] # split_char c s
      else (case split_char c s of [] \<Rightarrow> [[x]] | w # ws \<Rightarrow> (x # w) # ws))"

text \<open>\<^verbatim>\<open>strings.SplitN(s, sep, n)\<close> for a one-character separator and \<open>n > 0\<close>.\<close>

fun split_char_n :: "char \<Rightarrow> nat \<Rightarrow> string \<Rightarrow> string list" where
  "split_char_n c 0 s = []"
| "split_char_n c (Suc 0) s = [s]"
| "split_char_n c (Suc (Suc n)) s =
     (case cut s [c] of None \<Rightarrow> [s] | Some (a, b) \<Rightarrow> a # split_char_n c (Suc n) b)"

fun join :: "string \<Rightarrow> string list \<Rightarrow> string" where
  "join sep [] = []"
| "join sep [w] = w"
| "join sep (w # v # ws) = w @ sep @ join sep (v # ws)"

lemma split_char_not_Nil [simp]: "split_char c s \<noteq> []"
  by (induction s) (auto split: list.splits)

lemma split_char_free: "c \<notin> set s \<Longrightarrow> split_char c s = [s]"
  by (induction s) auto

lemma split_char_append: "c \<notin> set a \<Longrightarrow> split_char c (a @ c # b) = a # split_char c b"
  by (induction a) auto

lemma split_join:
  "ws \<noteq> [] \<Longrightarrow> (\<And>w. w \<in> set ws \<Longrightarrow> c \<notin> set w) \<Longrightarrow> split_char c (join [c] ws) = ws"
  by (induction "[c]" ws rule: join.induct) (auto simp: split_char_free split_char_append)

lemma split_char_words: "w \<in> set (split_char c s) \<Longrightarrow> c \<notin> set w"
  by (induction s arbitrary: w) (auto split: if_splits list.splits)

lemma join_Cons: "ws \<noteq> [] \<Longrightarrow> join sep (w # ws) = w @ sep @ join sep ws"
  by (cases ws) auto

lemma join_split [simp]: "join [c] (split_char c s) = s"
proof (induction s)
  case (Cons x s)
  then show ?case by (cases "split_char c s"; cases "tl (split_char c s)") (auto simp: join_Cons)
qed simp

subsection \<open>Replacement\<close>

text \<open>\<^verbatim>\<open>strings.ReplaceAll(s, old, new)\<close>; the program never calls it with an empty \<open>old\<close>.\<close>

function replace_all :: "string \<Rightarrow> string \<Rightarrow> string \<Rightarrow> string" where
  "replace_all [] old new = []"
| "replace_all (c # s) old new =
     (if old \<noteq> [] \<and> has_prefix (c # s) old
      then new @ replace_all (drop (length old) (c # s)) old new
      else c # replace_all s old new)"
  by pat_completeness auto
termination by (relation "measure (\<lambda>(s, _, _). length s)") auto

declare replace_all.simps [simp del]

subsection \<open>Character classes and case\<close>

definition char_val :: "char \<Rightarrow> nat" where
  "char_val c = of_char c"

definition is_digit :: "char \<Rightarrow> bool" where
  "is_digit c = (48 \<le> char_val c \<and> char_val c \<le> 57)"

definition is_lower :: "char \<Rightarrow> bool" where
  "is_lower c = (97 \<le> char_val c \<and> char_val c \<le> 122)"

definition is_upper :: "char \<Rightarrow> bool" where
  "is_upper c = (65 \<le> char_val c \<and> char_val c \<le> 90)"

definition is_alnum :: "char \<Rightarrow> bool" where
  "is_alnum c = (is_digit c \<or> is_lower c \<or> is_upper c)"

definition is_space :: "char \<Rightarrow> bool" where
  "is_space c = (c = CHR '' '' \<or> (9 \<le> char_val c \<and> char_val c \<le> 13))"

definition lower_char :: "char \<Rightarrow> char" where
  "lower_char c = (if is_upper c then char_of (char_val c + 32) else c)"

definition to_lower :: "string \<Rightarrow> string" where
  "to_lower s = map lower_char s"

definition trim_left :: "string \<Rightarrow> string" where
  "trim_left s = dropWhile is_space s"

definition trim_space :: "string \<Rightarrow> string" where
  "trim_space s = rev (trim_left (rev (trim_left s)))"

text \<open>\<^verbatim>\<open>strings.TrimRight(s, ".")\<close> and the like, for one character.\<close>

definition trim_right_char :: "char \<Rightarrow> string \<Rightarrow> string" where
  "trim_right_char c s = rev (dropWhile (\<lambda>x. x = c) (rev s))"

definition equal_fold :: "string \<Rightarrow> string \<Rightarrow> bool" where
  "equal_fold a b = (to_lower a = to_lower b)"

lemma char_val_less [simp]: "char_val c < 256"
  by (simp add: char_val_def nat_of_char_less_256)

lemma char_val_char_of [simp]: "n < 256 \<Longrightarrow> char_val (char_of n) = n"
  by (simp add: char_val_def)

lemma char_val_inj: "(char_val a = char_val b) = (a = b)"
  by (simp add: char_val_def)

lemma lower_char_idem [simp]: "lower_char (lower_char c) = lower_char c"
  by (simp add: lower_char_def is_upper_def)

lemma to_lower_idem [simp]: "to_lower (to_lower s) = to_lower s"
  by (simp add: to_lower_def)

lemma to_lower_append [simp]: "to_lower (a @ b) = to_lower a @ to_lower b"
  by (simp add: to_lower_def)

lemma to_lower_length [simp]: "length (to_lower s) = length s"
  by (simp add: to_lower_def)

lemma lower_char_fix: "\<not> is_upper c \<Longrightarrow> lower_char c = c"
  by (simp add: lower_char_def)

lemma to_lower_fix: "(\<And>c. c \<in> set s \<Longrightarrow> \<not> is_upper c) \<Longrightarrow> to_lower s = s"
  by (simp add: to_lower_def map_idI lower_char_fix)

lemma equal_fold_refl [simp]: "equal_fold s s"
  by (simp add: equal_fold_def)

lemma trim_left_fix: "s = [] \<or> \<not> is_space (hd s) \<Longrightarrow> trim_left s = s"
  by (cases s) (auto simp: trim_left_def)

lemma trim_space_fix:
  "s = [] \<or> (\<not> is_space (hd s) \<and> \<not> is_space (last s)) \<Longrightarrow> trim_space s = s"
  by (cases "s = []") (auto simp: trim_space_def trim_left_fix hd_rev)

lemma trim_space_no_space: "(\<And>c. c \<in> set s \<Longrightarrow> \<not> is_space c) \<Longrightarrow> trim_space s = s"
  by (rule trim_space_fix) auto

lemma digit_not_space: "is_digit c \<Longrightarrow> \<not> is_space c"
  by (auto simp: is_digit_def is_space_def char_val_def)

subsection \<open>Decimal numbers\<close>

definition digit_char :: "nat \<Rightarrow> char" where
  "digit_char d = char_of (48 + d)"

definition digit_val :: "char \<Rightarrow> nat" where
  "digit_val c = char_val c - 48"

fun digits_val :: "nat \<Rightarrow> string \<Rightarrow> nat" where
  "digits_val a [] = a"
| "digits_val a (c # s) = digits_val (10 * a + digit_val c) s"

text \<open>The decimal digits of a natural number.\<close>

fun nat_digits :: "nat \<Rightarrow> string" where
  "nat_digits n = (if n < 10 then [digit_char n] else nat_digits (n div 10) @ [digit_char (n mod 10)])"

declare nat_digits.simps [simp del]

definition itoa :: "int \<Rightarrow> string" where
  "itoa n = (if n < 0 then CHR ''-'' # nat_digits (nat (- n)) else nat_digits (nat n))"

text \<open>For evaluation, on binary integers instead of unary natural numbers.\<close>

function int_digits :: "int \<Rightarrow> string" where
  "int_digits n = (case n < 10 of True \<Rightarrow> [digit_char (nat n)] | False \<Rightarrow> int_digits (n div 10) @ [digit_char (nat (n mod 10))])"
  by pat_completeness auto
termination
  by (relation "measure nat") auto

declare int_digits.simps [simp del]

lemma int_digits_nat: "int_digits (int n) = nat_digits n"
proof (induction n rule: nat_digits.induct)
  case (1 n)
  then show ?case
    by (subst int_digits.simps, subst nat_digits.simps) (auto simp: nat_mod_distrib zdiv_int)
qed

lemma itoa_code [code]: "itoa n = (case n < 0 of True \<Rightarrow> CHR ''-'' # int_digits (- n) | False \<Rightarrow> int_digits n)"
  using int_digits_nat [of "nat n"] int_digits_nat [of "nat (- n)"] by (auto simp: itoa_def split: if_splits)

text \<open>A non-empty string of digits.\<close>

definition parse_digits :: "string \<Rightarrow> nat option" where
  "parse_digits s = (if s \<noteq> [] \<and> list_all is_digit s then Some (digits_val 0 s) else None)"

text \<open>
  \<^verbatim>\<open>strconv.Atoi\<close>: an optional sign, digits, and a value that fits in 64 bits.  Both of Go's
  errors (syntax and range) are \<open>None\<close>.
\<close>

definition atoi :: "string \<Rightarrow> int option" where
  "atoi s =
     (case s of
        [] \<Rightarrow> None
      | c # r \<Rightarrow>
          (case parse_digits (if c = CHR ''-'' \<or> c = CHR ''+'' then r else s) of
             None \<Rightarrow> None
           | Some n \<Rightarrow>
               (let v = (if c = CHR ''-'' then - int n else int n)
                in if - (2 ^ 63) \<le> v \<and> v < 2 ^ 63 then Some v else None)))"

lemma digit_char_digit [simp]: "d < 10 \<Longrightarrow> is_digit (digit_char d)"
  by (simp add: is_digit_def digit_char_def)

lemma digit_val_char [simp]: "d < 10 \<Longrightarrow> digit_val (digit_char d) = d"
  by (simp add: digit_val_def digit_char_def)

lemma digits_val_append: "digits_val a (s @ t) = digits_val (digits_val a s) t"
  by (induction s arbitrary: a) auto

lemma nat_digits_val: "digits_val 0 (nat_digits n) = n"
proof (induction n rule: nat_digits.induct)
  case (1 n)
  show ?case
    by (subst nat_digits.simps) (use 1 in \<open>simp add: digits_val_append\<close>)
qed

lemma nat_digits_all: "list_all is_digit (nat_digits n)"
proof (induction n rule: nat_digits.induct)
  case (1 n)
  show ?case by (subst nat_digits.simps) (use 1 in simp)
qed

lemma nat_digits_not_Nil [simp]: "nat_digits n \<noteq> []"
  by (subst nat_digits.simps) simp

lemma parse_nat_digits [simp]: "parse_digits (nat_digits n) = Some n"
  by (simp add: parse_digits_def nat_digits_all nat_digits_val)

lemma nat_digits_hd: "is_digit (hd (nat_digits n))"
  using nat_digits_all [of n] nat_digits_not_Nil [of n] by (cases "nat_digits n") auto

lemma atoi_itoa [simp]:
  assumes "- (2 ^ 63) \<le> n" "n < 2 ^ 63"
  shows "atoi (itoa n) = Some n"
proof -
  have sgn: "hd (nat_digits m) \<noteq> CHR ''-''" "hd (nat_digits m) \<noteq> CHR ''+''" for m
    using nat_digits_hd [of m] by (auto simp: is_digit_def char_val_def)
  obtain c r where cr: "nat_digits (nat n) = c # r"
    using nat_digits_not_Nil by (cases "nat_digits (nat n)") auto
  have "parse_digits (c # r) = Some (nat n)" using parse_nat_digits [of "nat n"] by (simp add: cr)
  with assms sgn [of "nat n"] cr show ?thesis
    by (auto simp: atoi_def itoa_def Let_def)
qed

lemma atoi_range: "atoi s = Some n \<Longrightarrow> - (2 ^ 63) \<le> n \<and> n < 2 ^ 63"
  by (auto simp: atoi_def Let_def split: list.splits option.splits if_splits)

lemma itoa_digits: "0 \<le> n \<Longrightarrow> list_all is_digit (itoa n)"
  by (simp add: itoa_def nat_digits_all)

lemma itoa_not_Nil [simp]: "itoa n \<noteq> []"
  by (simp add: itoa_def)

lemma itoa_char: "0 \<le> n \<Longrightarrow> c \<in> set (itoa n) \<Longrightarrow> is_digit c"
  using itoa_digits by (auto simp: list_all_iff)

lemma itoa_inj:
  assumes "0 \<le> a" "0 \<le> b" "itoa a = itoa b"
  shows "a = b"
proof -
  have "parse_digits (nat_digits (nat a)) = parse_digits (nat_digits (nat b))"
    using assms by (simp add: itoa_def)
  then show ?thesis using assms by simp
qed

end
