(* ===== verification/Numbers.thy ===== *)
theory Numbers
  imports Complex_Main Strings
begin

text \<open>
  Go's \<^verbatim>\<open>float64\<close> and \<^verbatim>\<open>time.Duration\<close>: the values, the rounding to 53 bits, and the parsers
  \<^verbatim>\<open>strconv.ParseFloat\<close> and \<^verbatim>\<open>time.ParseDuration\<close> of the standard library, which the
  configuration code applies to user input.  A duration is its number of nanoseconds.
\<close>

subsection \<open>Floating-point values\<close>

datatype f64 = Fin rat | PInf | NInf | NaN

fun f_less :: "f64 \<Rightarrow> f64 \<Rightarrow> bool" where
  "f_less (Fin a) (Fin b) = (a < b)"
| "f_less (Fin a) PInf = True"
| "f_less NInf (Fin b) = True"
| "f_less NInf PInf = True"
| "f_less _ _ = False"

fun f_leq :: "f64 \<Rightarrow> f64 \<Rightarrow> bool" where
  "f_leq NaN _ = False"
| "f_leq _ NaN = False"
| "f_leq a b = (a = b \<or> f_less a b)"

abbreviation f_zero :: f64 where
  "f_zero \<equiv> Fin 0"

lemma f_less_NaN [simp]: "\<not> f_less NaN x" "\<not> f_less x NaN"
  by (cases x; simp)+

text \<open>The number of binary digits of a natural number.\<close>

fun bit_count :: "nat \<Rightarrow> nat" where
  "bit_count n = (if n = 0 then 0 else Suc (bit_count (n div 2)))"

declare bit_count.simps [simp del]

definition pow2 :: "int \<Rightarrow> rat" where
  "pow2 e = (if 0 \<le> e then 2 ^ nat e else 1 / 2 ^ nat (- e))"

text \<open>The exponent of the power of two at or below a positive rational.\<close>

definition ilog2 :: "rat \<Rightarrow> int" where
  "ilog2 r =
     (case quotient_of r of
        (p, q) \<Rightarrow>
          (let e = int (bit_count (nat p)) - int (bit_count (nat q))
           in if pow2 e \<le> r then e else e - 1))"

definition round_even :: "rat \<Rightarrow> int" where
  "round_even x =
     (let f = \<lfloor>x\<rfloor>; d = x - of_int f
      in if d < 1 / 2 then f else if 1 / 2 < d then f + 1 else if even f then f else f + 1)"

text \<open>Rounding to the nearest \<^verbatim>\<open>float64\<close>, ties to even.\<close>

definition fround :: "rat \<Rightarrow> f64" where
  "fround r =
     (if r = 0 then Fin 0
      else (let a = \<bar>r\<bar>; e = max (ilog2 a) (- 1022); u = pow2 (e - 52); n = round_even (a / u)
            in if 1023 < e \<or> (e = 1023 \<and> n = 2 ^ 53) then (if 0 < r then PInf else NInf)
               else Fin (if 0 < r then of_int n * u else - (of_int n * u))))"

text \<open>Truncation towards zero, as in \<^verbatim>\<open>int64(f)\<close>; out of range the result is that of amd64.\<close>

definition trunc :: "rat \<Rightarrow> int" where
  "trunc r = (if 0 \<le> r then \<lfloor>r\<rfloor> else - \<lfloor>- r\<rfloor>)"

definition f_to_int :: "f64 \<Rightarrow> int" where
  "f_to_int x =
     (case x of
        Fin r \<Rightarrow> (let t = trunc r in if - (2 ^ 63) \<le> t \<and> t < 2 ^ 63 then t else - (2 ^ 63))
      | _ \<Rightarrow> - (2 ^ 63))"

text \<open>The product of two floats, one of them a positive finite constant.\<close>

definition f_scale :: "f64 \<Rightarrow> rat \<Rightarrow> f64" where
  "f_scale x k = (case x of Fin r \<Rightarrow> fround (r * k) | y \<Rightarrow> y)"

lemma round_even_mono_nonneg: "0 \<le> x \<Longrightarrow> 0 \<le> round_even x"
  by (auto simp: round_even_def Let_def)

lemma round_even_int [simp]: "round_even (of_int n) = n"
  by (simp add: round_even_def Let_def)

lemma pow2_pos [simp]: "0 < pow2 e"
  by (simp add: pow2_def)

lemma fround_nonneg: "0 < r \<Longrightarrow> fround r = Fin s \<Longrightarrow> 0 \<le> s"
  by (auto simp: fround_def Let_def split: if_splits intro!: mult_nonneg_nonneg
      round_even_mono_nonneg divide_nonneg_nonneg less_imp_le [OF pow2_pos])

lemma fround_pos_cases: "0 < r \<Longrightarrow> fround r = PInf \<or> (\<exists>s\<ge>0. fround r = Fin s)"
  using fround_nonneg by (auto simp: fround_def Let_def)

lemma f_to_int_range: "- (2 ^ 63) \<le> f_to_int x" "f_to_int x < 2 ^ 63"
  by (auto simp: f_to_int_def Let_def split: f64.splits)

subsection \<open>Parsing floats\<close>

definition hex_val :: "char \<Rightarrow> nat" where
  "hex_val c =
     (if is_digit c then char_val c - 48
      else if 97 \<le> char_val (lower_char c) \<and> char_val (lower_char c) \<le> 102
      then char_val (lower_char c) - 87 else 16)"

definition base_digit :: "nat \<Rightarrow> char \<Rightarrow> bool" where
  "base_digit b c = (if b = 16 then hex_val c < 16 else is_digit c)"

text \<open>The value and the number of a run of digits, and what follows it.\<close>

fun read_run :: "nat \<Rightarrow> nat \<Rightarrow> nat \<Rightarrow> string \<Rightarrow> nat \<times> nat \<times> string" where
  "read_run b v k [] = (v, k, [])"
| "read_run b v k (c # s) =
     (if base_digit b c then read_run b (b * v + hex_val c) (Suc k) s else (v, k, c # s))"

text \<open>An underscore is only allowed between two digits (or after a base prefix).\<close>

fun underscores_ok :: "nat \<Rightarrow> bool \<Rightarrow> string \<Rightarrow> bool" where
  "underscores_ok b d [] = True"
| "underscores_ok b d (c # s) =
     (if c = CHR ''_'' then d \<and> s \<noteq> [] \<and> base_digit b (hd s) \<and> underscores_ok b False s
      else underscores_ok b (base_digit b c) s)"

text \<open>The exponent: a marker, an optional sign, digits to the end of the string.\<close>

definition read_exp :: "char \<Rightarrow> string \<Rightarrow> int option" where
  "read_exp mark s =
     (case s of
        [] \<Rightarrow> None
      | c # r \<Rightarrow>
          if lower_char c \<noteq> mark then None
          else (case r of
                  [] \<Rightarrow> None
                | g # t \<Rightarrow>
                    map_option (\<lambda>n. if g = CHR ''-'' then - int n else int n)
                      (parse_digits (if g = CHR ''-'' \<or> g = CHR ''+'' then t else r))))"

definition ten_pow :: "int \<Rightarrow> rat" where
  "ten_pow e = (if 0 \<le> e then 10 ^ nat e else 1 / 10 ^ nat (- e))"

text \<open>The value of an unsigned decimal (base 10) or hexadecimal (base 16) literal.\<close>

definition read_mantissa :: "nat \<Rightarrow> string \<Rightarrow> rat option" where
  "read_mantissa b s =
     (case read_run b 0 0 s of
        (v, k, r) \<Rightarrow>
          (case (if r \<noteq> [] \<and> hd r = CHR ''.'' then read_run b v 0 (tl r) else (v, 0, r)) of
             (w, k', t) \<Rightarrow>
               if k + k' = 0 then None
               else if b = 10
               then (case t of
                       [] \<Rightarrow> Some (of_nat w * ten_pow (- int k'))
                     | _ \<Rightarrow> map_option (\<lambda>e. of_nat w * ten_pow (e - int k')) (read_exp CHR ''e'' t))
               else map_option (\<lambda>e. of_nat w * pow2 (e - 4 * int k')) (read_exp CHR ''p'' t)))"

text \<open>
  \<^verbatim>\<open>strconv.ParseFloat(s, 64)\<close>: decimal and hexadecimal literals, \<^verbatim>\<open>inf\<close>, \<^verbatim>\<open>infinity\<close> and
  \<^verbatim>\<open>nan\<close> in any case.  A syntax error and an overflow are both \<open>None\<close>.
\<close>

definition parse_float :: "string \<Rightarrow> f64 option" where
  "parse_float s =
     (let neg = (s \<noteq> [] \<and> hd s = CHR ''-'');
          signed = (s \<noteq> [] \<and> (hd s = CHR ''-'' \<or> hd s = CHR ''+''));
          u = (if signed then tl s else s);
          l = to_lower u
      in if l = ''inf'' \<or> l = ''infinity'' then Some (if neg then NInf else PInf)
         else if l = ''nan'' \<and> \<not> signed then Some NaN
         else (let hex = has_prefix l ''0x''; b = (if hex then 16 else 10);
                   body = (if hex then drop 2 u else u)
               in if \<not> underscores_ok b hex body then None
                  else (case read_mantissa b (filter (\<lambda>c. c \<noteq> CHR ''_'') body) of
                          None \<Rightarrow> None
                        | Some m \<Rightarrow>
                            (case fround (if neg then - m else m) of
                               Fin r \<Rightarrow> Some (Fin r)
                             | _ \<Rightarrow> None))))"

subsection \<open>Exact integers\<close>

text \<open>Integers below \<open>2\<^sup>5\<^sup>3\<close> are read exactly.\<close>

lemma bit_count_one [simp]: "bit_count (Suc 0) = Suc 0"
  by (simp add: bit_count.simps)

lemma bit_count_bounds: "0 < n \<Longrightarrow> 2 ^ (bit_count n - 1) \<le> n \<and> n < 2 ^ bit_count n \<and> 0 < bit_count n"
proof (induction n rule: bit_count.induct)
  case (1 n)
  show ?case
  proof (cases "n div 2 = 0")
    case True
    with 1(2) have "n = 1" by linarith
    then show ?thesis by simp
  next
    case False
    with 1 have ih: "2 ^ (bit_count (n div 2) - 1) \<le> n div 2" "n div 2 < 2 ^ bit_count (n div 2)"
      "0 < bit_count (n div 2)" by auto
    have b: "bit_count n = Suc (bit_count (n div 2))" using 1(2) by (subst bit_count.simps) simp
    obtain k where k: "bit_count (n div 2) = Suc k" using ih(3) by (cases "bit_count (n div 2)") auto
    have "2 * 2 ^ k \<le> n \<and> n < 4 * 2 ^ k" using ih(1,2) unfolding k by (simp; linarith)
    then show ?thesis by (simp add: b k)
  qed
qed

lemma fround_int:
  assumes "0 < n" "n < 2 ^ 53"
  shows "fround (of_int n) = Fin (of_int n)"
proof -
  define k where "k = bit_count (nat n)"
  have b: "2 ^ (k - 1) \<le> nat n" "nat n < 2 ^ k" "0 < k"
    using bit_count_bounds [of "nat n"] assms by (auto simp: k_def)
  have "nat n < 2 ^ 53" using assms by (simp add: nat_less_iff)
  with b(1) have "(2::nat) ^ (k - 1) < 2 ^ 53" by (rule le_less_trans)
  then have k53: "k - 1 < 53" by (rule power_less_imp_less_exp [rotated]) simp
  have q: "quotient_of (of_int n) = (n, 1)"
    by (simp only: of_int_rat quotient_of_Fract) (simp add: Rat.normalize_def)
  have one: "bit_count (nat 1) = 1" by simp
  have "\<not> (pow2 (int k - 1) \<le> (of_int n :: rat)) \<Longrightarrow> False"
  proof -
    assume "\<not> pow2 (int k - 1) \<le> (of_int n :: rat)"
    then have "of_int n < (2::rat) ^ (k - 1)" using b(3) by (simp add: pow2_def nat_diff_distrib)
    then have "of_int n < (of_int (2 ^ (k - 1)) :: rat)" by simp
    then have "n < 2 ^ (k - 1)" by (simp only: of_int_less_iff)
    moreover have "2 ^ (k - 1) \<le> n" using b(1) assms(1) by (simp add: le_nat_iff)
    ultimately show False by simp
  qed
  then have il: "ilog2 (of_int n) = int k - 1"
    using q one by (auto simp: ilog2_def k_def Let_def)
  define j where "j = 53 - k"
  have ex: "max (ilog2 (of_int n)) (- 1022) = int k - 1" using k53 b(3) by (simp only: il)
  have u: "pow2 (int k - 1 - 52) = 1 / 2 ^ j"
    using k53 b(3) by (cases "j = 0") (auto simp: pow2_def j_def nat_diff_distrib)
  have "of_int n / (1 / 2 ^ j) = (of_int (n * 2 ^ j) :: rat)" by simp
  then have m: "of_int (round_even (of_int n / (1 / 2 ^ j))) * (1 / 2 ^ j) = (of_int n :: rat)"
    by (simp only: round_even_int) simp
  have lt: "\<not> 1023 < int k - 1" "int k - 1 \<noteq> 1023" using k53 by auto
  have ab: "\<bar>of_int n\<bar> = (of_int n :: rat)" "(of_int n :: rat) \<noteq> 0" "(0::rat) < of_int n"
    using assms(1) by auto
  show ?thesis
    by (simp only: fround_def Let_def ab ex u m lt if_True if_False simp_thms)
qed

lemma read_run_digits:
  "list_all is_digit s \<Longrightarrow> read_run 10 v k s = (digits_val v s, k + length s, [])"
  by (induction s arbitrary: v k)
    (auto simp: base_digit_def hex_val_def digit_val_def)

lemma digits_no_underscore:
  "list_all is_digit s \<Longrightarrow> underscores_ok 10 d s \<and> filter (\<lambda>c. c \<noteq> CHR ''_'') s = s"
  by (induction s arbitrary: d) (auto simp: is_digit_def char_val_def)

lemma digits_lower: "list_all is_digit s \<Longrightarrow> to_lower s = s"
  by (auto simp: list_all_iff is_digit_def is_upper_def intro!: to_lower_fix)

lemma not_digit [simp]: "\<not> is_digit CHR ''x''" "\<not> is_digit CHR ''n''" "\<not> is_digit CHR ''i''"
  "\<not> is_digit CHR ''-''" "\<not> is_digit CHR ''+''" "\<not> is_digit CHR ''_''" "\<not> is_digit CHR ''.''"
  by (simp_all add: is_digit_def char_val_def)

lemma parse_float_digits:
  assumes "list_all is_digit s" "s \<noteq> []" "0 < digits_val 0 s" "digits_val 0 s < 2 ^ 53"
  shows "parse_float s = Some (Fin (of_nat (digits_val 0 s)))"
proof -
  obtain c r where s: "s = c # r" using assms(2) by (cases s) auto
  have c: "is_digit c" "list_all is_digit r" using assms(1) by (auto simp: s)
  have sg: "hd s \<noteq> CHR ''-''" "hd s \<noteq> CHR ''+''"
    using c(1) by (auto simp: s)
  have l: "to_lower s = s" using assms(1) by (rule digits_lower)
  have k: "s \<noteq> ''inf''" "s \<noteq> ''infinity''" "s \<noteq> ''nan''" using c(1) by (auto simp: s)
  have h: "\<not> has_prefix s ''0x''" using c by (cases r) (auto simp: s)
  have m: "read_mantissa 10 s = Some (of_nat (digits_val 0 s))"
    using assms(1,2) by (simp add: read_mantissa_def read_run_digits ten_pow_def)
  have "(of_nat (digits_val 0 s) :: rat) = of_int (int (digits_val 0 s))" by simp
  then have "fround (of_nat (digits_val 0 s)) = Fin (of_nat (digits_val 0 s))"
    using fround_int [of "int (digits_val 0 s)"] assms(3,4) by simp
  then show ?thesis
    using sg digits_no_underscore [OF assms(1)]
    by (simp add: parse_float_def Let_def l k h m del: digits_val.simps)
qed

lemma f_to_int_of_int [simp]: "0 \<le> n \<Longrightarrow> n < 2 ^ 63 \<Longrightarrow> f_to_int (Fin (of_int n)) = n"
  by (simp add: f_to_int_def trunc_def Let_def)

subsection \<open>Durations\<close>

definition nanosec :: int where "nanosec = 1"
definition microsec :: int where "microsec = 1000"
definition millisec :: int where "millisec = 1000000"
definition sec :: int where "sec = 1000000000"
definition minute :: int where "minute = 60000000000"
definition hour :: int where "hour = 3600000000000"

lemmas time_units = nanosec_def microsec_def millisec_def sec_def minute_def hour_def

definition unit_value :: "string \<Rightarrow> int option" where
  "unit_value u =
     map_of [(''ns'', nanosec), (''us'', microsec), ([char_of (194::nat), char_of (181::nat)] @ ''s'', microsec),
             ([char_of (206::nat), char_of (188::nat)] @ ''s'', microsec), (''ms'', millisec), (''s'', sec),
             (''m'', minute), (''h'', hour)] u"

text \<open>\<^verbatim>\<open>leadingInt\<close>: the digits at the front, \<open>None\<close> when the value exceeds \<open>2\<^sup>6\<^sup>3\<close>.\<close>

fun leading_int :: "nat \<Rightarrow> string \<Rightarrow> (nat \<times> string) option" where
  "leading_int x [] = Some (x, [])"
| "leading_int x (c # s) =
     (if \<not> is_digit c then Some (x, c # s)
      else if 2 ^ 63 div 10 < x then None
      else if 2 ^ 63 < 10 * x + digit_val c then None
      else leading_int (10 * x + digit_val c) s)"

text \<open>\<^verbatim>\<open>leadingFraction\<close>: digits beyond what fits are read and dropped.\<close>

fun leading_fraction :: "bool \<Rightarrow> nat \<Rightarrow> nat \<Rightarrow> string \<Rightarrow> nat \<times> nat \<times> string" where
  "leading_fraction ov x scale [] = (x, scale, [])"
| "leading_fraction ov x scale (c # s) =
     (if \<not> is_digit c then (x, scale, c # s)
      else if ov \<or> (2 ^ 63 - 1) div 10 < x \<or> 2 ^ 63 < 10 * x + digit_val c
      then leading_fraction True x scale s
      else leading_fraction False (10 * x + digit_val c) (scale * 10) s)"

definition unit_end :: "char \<Rightarrow> bool" where
  "unit_end c = (c = CHR ''.'' \<or> is_digit c)"

text \<open>
  One round of the loop of \<^verbatim>\<open>time.ParseDuration\<close>: a number with an optional fraction and its
  unit; the new sum and the rest of the input.
\<close>

definition frac_ns :: "nat \<Rightarrow> nat \<Rightarrow> int \<Rightarrow> int" where
  "frac_ns f scale u =
     f_to_int (case (fround (of_nat f), fround (of_int u / of_nat scale)) of
                 (Fin a, Fin b) \<Rightarrow> fround (a * b) | _ \<Rightarrow> NaN)"

definition duration_step :: "int \<Rightarrow> string \<Rightarrow> (int \<times> string) option" where
  "duration_step d s =
     (if s = [] \<or> \<not> unit_end (hd s) then None
      else (case leading_int 0 s of
              None \<Rightarrow> None
            | Some (v, s1) \<Rightarrow>
                (let pre = length s1 \<noteq> length s;
                     dot = (s1 \<noteq> [] \<and> hd s1 = CHR ''.'')
                 in case (if dot then leading_fraction False 0 1 (tl s1) else (0, 1, s1)) of
                      (f, scale, s2) \<Rightarrow>
                        (let post = (dot \<and> length s2 \<noteq> length (tl s1));
                             u = takeWhile (\<lambda>c. \<not> unit_end c) s2;
                             rest = dropWhile (\<lambda>c. \<not> unit_end c) s2
                         in if \<not> pre \<and> \<not> post then None
                            else if u = [] then None
                            else (case unit_value u of
                                    None \<Rightarrow> None
                                  | Some w \<Rightarrow>
                                      if 2 ^ 63 div w < int v then None
                                      else (let v1 = int v * w;
                                                v2 = (if 0 < f then v1 + frac_ns f scale w else v1);
                                                d' = (d + v2) mod 2 ^ 64
                                            in if 2 ^ 63 < v2 \<or> 2 ^ 63 < d' then None
                                               else Some (d', rest)))))))"

lemma leading_int_length: "leading_int x s = Some (v, r) \<Longrightarrow> length r \<le> length s"
  by (induction x s rule: leading_int.induct) (auto split: if_splits)

lemma leading_fraction_length: "leading_fraction b x k s = (f, k', r) \<Longrightarrow> length r \<le> length s"
  by (induction b x k s rule: leading_fraction.induct) (auto split: if_splits)

lemma duration_step_length:
  assumes "duration_step d s = Some (d', r)"
  shows "length r < length s"
proof -
  obtain v s1 where 1: "leading_int 0 s = Some (v, s1)"
    using assms by (auto simp: duration_step_def split: if_splits option.splits)
  define dot where "dot = (s1 \<noteq> [] \<and> hd s1 = CHR ''.'')"
  obtain f k s2 where 2: "(if dot then leading_fraction False 0 1 (tl s1) else (0, 1, s1)) = (f, k, s2)"
    by (metis prod_cases3)
  have le: "length s2 \<le> length s"
    using leading_int_length [OF 1] 2 leading_fraction_length [of False 0 1 "tl s1" f k s2]
    by (auto split: if_splits)
  define u where "u = takeWhile (\<lambda>c. \<not> unit_end c) s2"
  define w where "w = dropWhile (\<lambda>c. \<not> unit_end c) s2"
  have "u \<noteq> [] \<and> r = w"
    using assms 1 2 unfolding duration_step_def dot_def [symmetric]
    by (auto simp: Let_def u_def w_def dot_def split: if_splits option.splits)
  moreover have "length u + length w = length s2"
    unfolding u_def w_def length_append [symmetric] takeWhile_dropWhile_id ..
  ultimately show ?thesis using le by (cases u) auto
qed

function duration_loop :: "int \<Rightarrow> string \<Rightarrow> int option" where
  "duration_loop d s =
     (if s = [] then Some d
      else (case duration_step d s of None \<Rightarrow> None | Some (d', r) \<Rightarrow> duration_loop d' r))"
  by pat_completeness auto
termination
  by (relation "measure (\<lambda>(_, s). length s)") (auto dest: duration_step_length)

declare duration_loop.simps [simp del]

definition parse_duration :: "string \<Rightarrow> int option" where
  "parse_duration s =
     (let neg = (s \<noteq> [] \<and> hd s = CHR ''-'');
          signed = (s \<noteq> [] \<and> (hd s = CHR ''-'' \<or> hd s = CHR ''+''));
          u = (if signed then tl s else s)
      in if u = ''0'' then Some 0
         else if u = [] then None
         else (case duration_loop 0 u of
                 None \<Rightarrow> None
               | Some d \<Rightarrow> if neg then Some (- d) else if 2 ^ 63 - 1 < d then None else Some d))"

lemma duration_step_range: "duration_step d s = Some (d', r) \<Longrightarrow> 0 \<le> d' \<and> d' \<le> 2 ^ 63"
  by (auto simp: duration_step_def Let_def split: if_splits option.splits prod.splits)

lemma duration_loop_range:
  "duration_loop d s = Some e \<Longrightarrow> 0 \<le> d \<Longrightarrow> d \<le> 2 ^ 63 \<Longrightarrow> 0 \<le> e \<and> e \<le> 2 ^ 63"
proof (induction d s rule: duration_loop.induct)
  case (1 d s)
  then show ?case
    by (subst (asm) (2) duration_loop.simps)
      (auto split: if_splits option.splits dest: duration_step_range)
qed

lemma parse_duration_range: "parse_duration s = Some d \<Longrightarrow> - (2 ^ 63) \<le> d \<and> d < 2 ^ 63"
  by (auto simp: parse_duration_def Let_def split: if_splits option.splits dest!: duration_loop_range)

text \<open>The rules that evaluate \<open>parse_duration\<close> on a literal.\<close>

lemmas duration_eval = parse_duration_def duration_loop.simps duration_step_def unit_end_def
  is_digit_def char_val_def Let_def digit_val_def unit_value_def time_units

end
