(* ===== verification/Config.thy ===== *)
theory Config
  imports Numbers
begin

text \<open>
  The configuration data of \<^verbatim>\<open>pkg/config/config.go\<close>, the accessors on it, the polymorphic
  \<^verbatim>\<open>ports\<close> field with its two decoders and its encoder, and the resolution of global and
  per-service settings.  A \<^verbatim>\<open>*bool\<close> is a \<open>bool option\<close>, a Go map an association list.
  The decoders of YAML and TOML themselves are third-party code: what reaches this code is a
  decoded value (\<open>raw\<close>).
\<close>

subsection \<open>Data\<close>

datatype listen_mode = ListenUnix | ListenTCP

record listen_config =
  lc_mode :: listen_mode
  lc_address :: string

datatype format = FormatYAML | FormatTOML

record port_selector =
  sel_name :: string
  sel_port :: int
  sel_local_port :: int

record ports_config =
  pc_all :: bool
  pc_selectors :: "port_selector list"

record network_config =
  net_latency :: string
  net_jitter :: string
  net_bandwidth :: string

record latency_spike_config =
  spike_probability :: f64
  spike_duration :: string

record chaos_config =
  chaos_enabled :: "bool option"
  chaos_error_rate :: f64
  chaos_spike :: latency_spike_config

record service_config =
  svc_name :: string
  svc_service :: string
  svc_pod :: string
  svc_local_port :: int
  svc_remote_port :: int
  svc_namespace :: string
  svc_ports :: ports_config
  svc_exclude_ports :: "string list"
  svc_local_port_offset :: int
  svc_network :: network_config
  svc_chaos :: chaos_config
  svc_lazy :: bool
  svc_connection_mode :: string
  svc_parent_name :: string
  svc_port_name :: string
  svc_source_config :: string

record webhook_config =
  wh_url :: string
  wh_headers :: "(string, string) gomap"
  wh_body_template :: string

record hook_config =
  hk_name :: string
  hk_type :: string
  hk_events :: "string list"
  hk_timeout :: string
  hk_fail_mode :: string
  hk_shell :: "(string, string) gomap"
  hk_webhook :: "webhook_config option"
  hk_exec :: "string list option"
  hk_filter_services :: "string list"

record supervisor_config =
  sup_max_restarts :: int
  sup_health_check_interval :: string
  sup_health_check_threshold :: int
  sup_ready_timeout :: string
  sup_backoff_initial :: string
  sup_backoff_max :: string
  sup_max_connection_age :: string
  sup_connection_mode :: string

record proxy_server_config =
  px_enabled :: "bool option"
  px_listen :: string
  px_username :: string
  px_password :: string
  px_fuzzy_match :: "bool option"

record config =
  cfg_extends :: string
  cfg_context :: string
  cfg_namespace :: string
  cfg_log_file :: string
  cfg_log_level :: string
  cfg_listen :: string
  cfg_api_key :: string
  cfg_key_id :: string
  cfg_host :: string
  cfg_services :: "service_config list"
  cfg_hooks :: "hook_config list"
  cfg_supervisor :: supervisor_config
  cfg_network :: network_config
  cfg_chaos :: chaos_config
  cfg_socks :: proxy_server_config
  cfg_http_proxy :: proxy_server_config
  cfg_file_path :: string
  cfg_format :: format

subsection \<open>Zero values\<close>

definition zero_selector :: port_selector where
  "zero_selector = \<lparr>sel_name = [], sel_port = 0, sel_local_port = 0\<rparr>"

definition zero_ports :: ports_config where
  "zero_ports = \<lparr>pc_all = False, pc_selectors = []\<rparr>"

definition zero_network :: network_config where
  "zero_network = \<lparr>net_latency = [], net_jitter = [], net_bandwidth = []\<rparr>"

definition zero_chaos :: chaos_config where
  "zero_chaos = \<lparr>chaos_enabled = None, chaos_error_rate = f_zero,
     chaos_spike = \<lparr>spike_probability = f_zero, spike_duration = []\<rparr>\<rparr>"

definition zero_service :: service_config where
  "zero_service = \<lparr>svc_name = [], svc_service = [], svc_pod = [], svc_local_port = 0,
     svc_remote_port = 0, svc_namespace = [], svc_ports = zero_ports, svc_exclude_ports = [],
     svc_local_port_offset = 0, svc_network = zero_network, svc_chaos = zero_chaos,
     svc_lazy = False, svc_connection_mode = [], svc_parent_name = [], svc_port_name = [],
     svc_source_config = []\<rparr>"

definition zero_supervisor :: supervisor_config where
  "zero_supervisor = \<lparr>sup_max_restarts = 0, sup_health_check_interval = [],
     sup_health_check_threshold = 0, sup_ready_timeout = [], sup_backoff_initial = [],
     sup_backoff_max = [], sup_max_connection_age = [], sup_connection_mode = []\<rparr>"

definition zero_proxy :: proxy_server_config where
  "zero_proxy = \<lparr>px_enabled = None, px_listen = [], px_username = [], px_password = [],
     px_fuzzy_match = None\<rparr>"

text \<open>\<^verbatim>\<open>&Config{}\<close>; the empty \<^verbatim>\<open>Format\<close> is read as YAML wherever the program switches on it.\<close>

definition zero_config :: config where
  "zero_config = \<lparr>cfg_extends = [], cfg_context = [], cfg_namespace = [], cfg_log_file = [],
     cfg_log_level = [], cfg_listen = [], cfg_api_key = [], cfg_key_id = [], cfg_host = [],
     cfg_services = [], cfg_hooks = [], cfg_supervisor = zero_supervisor,
     cfg_network = zero_network, cfg_chaos = zero_chaos, cfg_socks = zero_proxy,
     cfg_http_proxy = zero_proxy, cfg_file_path = [], cfg_format = FormatYAML\<rparr>"

lemmas zero_defs = zero_selector_def zero_ports_def zero_network_def zero_chaos_def
  zero_service_def zero_supervisor_def zero_proxy_def zero_config_def

definition new_in_memory :: "string \<Rightarrow> string \<Rightarrow> service_config list \<Rightarrow> config" where
  "new_in_memory kube_context namespace services =
     zero_config\<lparr>cfg_context := kube_context, cfg_namespace := namespace, cfg_services := services\<rparr>"

subsection \<open>Accessors\<close>

definition bool_val :: "bool option \<Rightarrow> bool" where
  "bool_val b = (b = Some True)"

definition ports_is_set :: "ports_config \<Rightarrow> bool" where
  "ports_is_set p = (pc_all p \<or> 0 < length (pc_selectors p))"

definition is_pod :: "service_config \<Rightarrow> bool" where
  "is_pod s = (svc_pod s \<noteq> [])"

definition target :: "service_config \<Rightarrow> string" where
  "target s = (if svc_pod s \<noteq> [] then svc_pod s else svc_service s)"

definition is_multi_port :: "service_config \<Rightarrow> bool" where
  "is_multi_port s = (pc_all (svc_ports s) \<or> 0 < length (pc_selectors (svc_ports s)))"

definition proxy_is_enabled :: "proxy_server_config \<Rightarrow> bool" where
  "proxy_is_enabled p = bool_val (px_enabled p)"

definition network_is_set :: "network_config \<Rightarrow> bool" where
  "network_is_set n = (net_latency n \<noteq> [] \<or> net_jitter n \<noteq> [] \<or> net_bandwidth n \<noteq> [])"

definition chaos_is_set :: "chaos_config \<Rightarrow> bool" where
  "chaos_is_set c = bool_val (chaos_enabled c)"

lemma is_multi_port_ports: "is_multi_port s = ports_is_set (svc_ports s)"
  by (simp add: is_multi_port_def ports_is_set_def)

subsection \<open>Resolution of global and per-service settings\<close>

definition resolve_chaos :: "chaos_config \<Rightarrow> chaos_config \<Rightarrow> chaos_config" where
  "resolve_chaos global per_service =
     (case chaos_enabled per_service of
        Some e \<Rightarrow> if \<not> e then zero_chaos else per_service
      | None \<Rightarrow> if \<not> bool_val (chaos_enabled global) then zero_chaos else global)"

definition resolve_network :: "network_config \<Rightarrow> network_config \<Rightarrow> network_config" where
  "resolve_network global per_service =
     \<lparr>net_latency = (if net_latency per_service \<noteq> [] then net_latency per_service else net_latency global),
      net_jitter = (if net_jitter per_service \<noteq> [] then net_jitter per_service else net_jitter global),
      net_bandwidth = (if net_bandwidth per_service \<noteq> [] then net_bandwidth per_service
                       else net_bandwidth global)\<rparr>"

lemma resolve_chaos_enabled:
  "chaos_enabled (resolve_chaos g p) =
     (case chaos_enabled p of Some True \<Rightarrow> Some True | Some False \<Rightarrow> None
      | None \<Rightarrow> if chaos_enabled g = Some True then Some True else None)"
  by (auto simp: resolve_chaos_def zero_chaos_def bool_val_def split: option.splits bool.splits)

lemma resolve_network_assoc:
  "resolve_network (resolve_network a b) c = resolve_network a (resolve_network b c)"
  by (simp add: resolve_network_def)

lemma resolve_network_zero [simp]:
  "resolve_network zero_network n = n" "resolve_network n zero_network = n"
  by (simp_all add: resolve_network_def zero_network_def)

lemma resolve_network_idem [simp]: "resolve_network n n = n"
  by (simp add: resolve_network_def)

subsection \<open>The ports field\<close>

text \<open>A decoded value, as the YAML and TOML decoders deliver it (\<^verbatim>\<open>any\<close>).\<close>

datatype raw =
    RString string
  | RInt int
  | RFloat f64
  | RBool bool
  | RNull
  | RList "raw list"
  | RMap "(string, raw) gomap"

datatype ports_err = InvalidPortsValue string | PortsNotAllOrList | InvalidPortSelector

fun raw_string :: "raw option \<Rightarrow> string option" where
  "raw_string (Some (RString s)) = Some s"
| "raw_string _ = None"

text \<open>YAML numbers arrive as \<^verbatim>\<open>int\<close> or \<^verbatim>\<open>float64\<close>; TOML integers as \<^verbatim>\<open>int64\<close>.\<close>

fun yaml_number :: "raw option \<Rightarrow> int" where
  "yaml_number (Some (RInt n)) = n"
| "yaml_number (Some (RFloat f)) = f_to_int f"
| "yaml_number _ = 0"

fun toml_number :: "raw option \<Rightarrow> int" where
  "toml_number (Some (RInt n)) = n"
| "toml_number _ = 0"

definition selector_of_map :: "(raw option \<Rightarrow> int) \<Rightarrow> (string, raw) gomap \<Rightarrow> port_selector" where
  "selector_of_map num v =
     \<lparr>sel_name = (case raw_string (gget v ''name'') of Some s \<Rightarrow> s | None \<Rightarrow> []),
      sel_port = num (gget v ''port''),
      sel_local_port = num (gget v ''local_port'')\<rparr>"

text \<open>
  \<^verbatim>\<open>UnmarshalYAML\<close>: the decoder's attempts at a string and at a list are the parameters
  \<open>as_string\<close> and \<open>as_list\<close> (the callback \<^verbatim>\<open>unmarshal\<close> of the third-party decoder).
\<close>

fun yaml_items :: "port_selector list \<Rightarrow> raw list \<Rightarrow> ports_err + port_selector list" where
  "yaml_items acc [] = Inr acc"
| "yaml_items acc (item # rest) =
     (case item of
        RString v \<Rightarrow> yaml_items (acc @ [zero_selector\<lparr>sel_name := v\<rparr>]) rest
      | RMap v \<Rightarrow> yaml_items (acc @ [selector_of_map yaml_number v]) rest
      | _ \<Rightarrow> Inl InvalidPortSelector)"

definition unmarshal_ports_yaml ::
    "('v \<Rightarrow> string option) \<Rightarrow> ('v \<Rightarrow> raw list option) \<Rightarrow> ports_config \<Rightarrow> 'v \<Rightarrow> ports_err + ports_config" where
  "unmarshal_ports_yaml as_string as_list p v =
     (case as_string v of
        Some s \<Rightarrow> if s = ''all'' then Inr (p\<lparr>pc_all := True\<rparr>) else Inl (InvalidPortsValue s)
      | None \<Rightarrow>
          (case as_list v of
             None \<Rightarrow> Inl PortsNotAllOrList
           | Some items \<Rightarrow>
               (case yaml_items (pc_selectors p) items of
                  Inl e \<Rightarrow> Inl e
                | Inr sels \<Rightarrow> Inr (p\<lparr>pc_selectors := sels\<rparr>))))"

text \<open>\<^verbatim>\<open>parsePortsFromRaw\<close>, the TOML path; the element \<^verbatim>\<open>"all"\<close> ends the loop at once.\<close>

fun toml_items :: "ports_config \<Rightarrow> raw list \<Rightarrow> ports_err + ports_config" where
  "toml_items p [] = Inr p"
| "toml_items p (item # rest) =
     (case item of
        RString e \<Rightarrow>
          if e = ''all'' then Inr (p\<lparr>pc_all := True\<rparr>)
          else toml_items (p\<lparr>pc_selectors := pc_selectors p @ [zero_selector\<lparr>sel_name := e\<rparr>]\<rparr>) rest
      | RMap e \<Rightarrow>
          toml_items (p\<lparr>pc_selectors := pc_selectors p @ [selector_of_map toml_number e]\<rparr>) rest
      | _ \<Rightarrow> Inl InvalidPortSelector)"

definition parse_ports_from_raw :: "raw \<Rightarrow> ports_err + ports_config" where
  "parse_ports_from_raw data =
     (case data of
        RString v \<Rightarrow> if v = ''all'' then Inr (zero_ports\<lparr>pc_all := True\<rparr>) else Inl (InvalidPortsValue v)
      | RList v \<Rightarrow> toml_items zero_ports v
      | _ \<Rightarrow> Inl PortsNotAllOrList)"

text \<open>
  What the encoders write: \<^verbatim>\<open>"all"\<close>, a list of names when every selector is a plain name, and
  the selectors themselves otherwise; \<open>encode_selector\<close> drops zero fields (\<^verbatim>\<open>omitempty\<close>).
\<close>

definition encode_selector :: "port_selector \<Rightarrow> raw" where
  "encode_selector s =
     RMap ((if sel_name s \<noteq> [] then [(''name'', RString (sel_name s))] else []) @
           (if sel_port s \<noteq> 0 then [(''port'', RInt (sel_port s))] else []) @
           (if sel_local_port s \<noteq> 0 then [(''local_port'', RInt (sel_local_port s))] else []))"

definition simple_selector :: "port_selector \<Rightarrow> bool" where
  "simple_selector s = (sel_port s = 0 \<and> sel_local_port s = 0)"

definition marshal_ports :: "ports_config \<Rightarrow> raw" where
  "marshal_ports p =
     (if pc_all p then RString ''all''
      else if pc_selectors p = [] then RNull
      else if list_all simple_selector (pc_selectors p)
      then RList (map (\<lambda>s. RString (sel_name s)) (pc_selectors p))
      else RList (map encode_selector (pc_selectors p)))"

lemma selector_round_trip:
  "num (Some (RInt (sel_port s))) = sel_port s \<Longrightarrow>
   num (Some (RInt (sel_local_port s))) = sel_local_port s \<Longrightarrow> num None = 0 \<Longrightarrow>
   encode_selector s = RMap m \<Longrightarrow> selector_of_map num m = s"
  by (cases s) (auto simp: encode_selector_def selector_of_map_def split: if_splits)

lemma simple_selector_name: "simple_selector s \<Longrightarrow> zero_selector\<lparr>sel_name := sel_name s\<rparr> = s"
  by (cases s) (simp add: simple_selector_def zero_selector_def)

lemma yaml_items_names:
  "list_all simple_selector sels \<Longrightarrow>
   yaml_items acc (map (\<lambda>s. RString (sel_name s)) sels) = Inr (acc @ sels)"
  by (induction sels arbitrary: acc) (auto simp: simple_selector_name)

lemma yaml_items_maps: "yaml_items acc (map encode_selector sels) = Inr (acc @ sels)"
proof (induction sels arbitrary: acc)
  case (Cons s sels)
  obtain m where m: "encode_selector s = RMap m" by (simp add: encode_selector_def)
  then show ?case using Cons selector_round_trip [of yaml_number s m] by simp
qed simp

lemma toml_items_names:
  "list_all simple_selector sels \<Longrightarrow> (\<And>s. s \<in> set sels \<Longrightarrow> sel_name s \<noteq> ''all'') \<Longrightarrow>
   toml_items p (map (\<lambda>s. RString (sel_name s)) sels) = Inr (p\<lparr>pc_selectors := pc_selectors p @ sels\<rparr>)"
  by (induction sels arbitrary: p) (auto simp: simple_selector_name)

lemma toml_items_maps:
  "toml_items p (map encode_selector sels) = Inr (p\<lparr>pc_selectors := pc_selectors p @ sels\<rparr>)"
proof (induction sels arbitrary: p)
  case (Cons s sels)
  obtain m where m: "encode_selector s = RMap m" by (simp add: encode_selector_def)
  then show ?case using Cons selector_round_trip [of toml_number s m] by simp
qed simp

text \<open>What a reader makes of a written field: \<^verbatim>\<open>all\<close> stands alone.  The TOML reader in addition takes the
  name \<^verbatim>\<open>all\<close> in a list of plain names for the whole service.\<close>

definition read_ports :: "ports_config \<Rightarrow> ports_config" where
  "read_ports p = (if pc_all p then p\<lparr>pc_selectors := []\<rparr> else p)"

definition toml_keeps :: "ports_config \<Rightarrow> bool" where
  "toml_keeps p = (pc_all p \<or> \<not> list_all simple_selector (pc_selectors p)
     \<or> list_all (\<lambda>s. sel_name s \<noteq> ''all'') (pc_selectors p))"

lemma toml_items_all:
  "list_all simple_selector sels \<Longrightarrow> \<not> list_all (\<lambda>s. sel_name s \<noteq> ''all'') sels \<Longrightarrow>
   \<exists>q. toml_items p (map (\<lambda>s. RString (sel_name s)) sels) = Inr q \<and> pc_all q"
  by (induction sels arbitrary: p) auto

lemma toml_ports_kept:
  assumes "ports_is_set p" "toml_keeps p"
  shows "parse_ports_from_raw (marshal_ports p) = Inr (read_ports p)"
proof (cases "pc_all p")
  case True
  then show ?thesis by (cases p) (simp add: marshal_ports_def parse_ports_from_raw_def zero_ports_def read_ports_def)
next
  case False
  then have ne: "pc_selectors p \<noteq> []" using assms(1) by (simp add: ports_is_set_def)
  have p: "zero_ports\<lparr>pc_selectors := pc_selectors p\<rparr> = p"
    using False by (cases p) (simp add: zero_ports_def)
  have z: "pc_selectors zero_ports = []" by (simp add: zero_ports_def)
  show ?thesis
  proof (cases "list_all simple_selector (pc_selectors p)")
    case True
    then have "toml_items zero_ports (map (\<lambda>s. RString (sel_name s)) (pc_selectors p)) = Inr p"
      using assms(2) False toml_items_names [of "pc_selectors p" zero_ports] p z
      by (auto simp: toml_keeps_def list_all_iff)
    then show ?thesis using False ne True by (simp add: marshal_ports_def parse_ports_from_raw_def read_ports_def)
  next
    case all_maps: False
    then show ?thesis using False ne p z
      by (simp add: marshal_ports_def parse_ports_from_raw_def read_ports_def toml_items_maps)
  qed
qed

lemma toml_ports_read:
  assumes "ports_is_set p" "\<not> toml_keeps p"
  shows "\<exists>q. parse_ports_from_raw (marshal_ports p) = Inr q \<and> pc_all q \<and> \<not> pc_all p"
proof -
  have k: "\<not> pc_all p" "list_all simple_selector (pc_selectors p)" "\<not> list_all (\<lambda>s. sel_name s \<noteq> ''all'') (pc_selectors p)"
    using assms(2) by (simp_all add: toml_keeps_def)
  then have "pc_selectors p \<noteq> []" by auto
  then show ?thesis using k toml_items_all [OF k(2,3), of zero_ports]
    by (simp add: marshal_ports_def parse_ports_from_raw_def)
qed

lemma yaml_ports_read:
  assumes "\<And>s. as_string (RString s) = Some s" "\<And>xs. as_string (RList xs) = None" "\<And>xs. as_list (RList xs) = Some xs"
    and "ports_is_set p"
  shows "unmarshal_ports_yaml as_string as_list zero_ports (marshal_ports p) = Inr (read_ports p)"
proof (cases "pc_all p")
  case True
  then show ?thesis using assms(1)
    by (cases p) (simp add: marshal_ports_def unmarshal_ports_yaml_def zero_ports_def read_ports_def)
next
  case False
  then have ne: "pc_selectors p \<noteq> []" using assms(4) by (simp add: ports_is_set_def)
  have p: "zero_ports\<lparr>pc_selectors := pc_selectors p\<rparr> = p"
    using False by (cases p) (simp add: zero_ports_def)
  have z: "pc_selectors zero_ports = []" by (simp add: zero_ports_def)
  show ?thesis
    using False ne p z assms(1-3)
    by (cases "list_all simple_selector (pc_selectors p)")
      (auto simp: marshal_ports_def unmarshal_ports_yaml_def read_ports_def yaml_items_names yaml_items_maps)
qed

text \<open>C36: what becomes of a ports field that is written to a file.  For every decoder that tells a
  scalar string from a list, the YAML reader gives back every field that is set, except that
  selectors beside \<^verbatim>\<open>all\<close> are gone.  The TOML reader gives back the same, if and only if the field is not
  a list of plain names with the name \<^verbatim>\<open>all\<close> among them.\<close>

theorem ports_round_trip:
  assumes "\<And>s. as_string (RString s) = Some s" "\<And>xs. as_string (RList xs) = None"
    "\<And>xs. as_list (RList xs) = Some xs"
    and "ports_is_set p"
  shows "unmarshal_ports_yaml as_string as_list zero_ports (marshal_ports p)
      = Inr (if pc_all p then p\<lparr>pc_selectors := []\<rparr> else p)
    \<and> (parse_ports_from_raw (marshal_ports p) = Inr (if pc_all p then p\<lparr>pc_selectors := []\<rparr> else p) \<longleftrightarrow>
        \<not> (\<not> pc_all p \<and> list_all simple_selector (pc_selectors p) \<and> ''all'' \<in> set (map sel_name (pc_selectors p))))"
proof -
  have k: "toml_keeps p \<longleftrightarrow>
      \<not> (\<not> pc_all p \<and> list_all simple_selector (pc_selectors p) \<and> ''all'' \<in> set (map sel_name (pc_selectors p)))"
    by (auto simp: toml_keeps_def list_all_iff image_iff)
  have "parse_ports_from_raw (marshal_ports p) = Inr (read_ports p) \<longleftrightarrow> toml_keeps p"
    using toml_ports_kept [OF assms(4)] toml_ports_read [OF assms(4)]
    by (cases "toml_keeps p") (auto simp: read_ports_def)
  then show ?thesis
    unfolding k [symmetric] read_ports_def [symmetric] using yaml_ports_read [OF assms] by simp
qed

theorem ports_round_trip_witness:
  "unmarshal_ports_yaml (\<lambda>v. raw_string (Some v)) (\<lambda>v. case v of RList xs \<Rightarrow> Some xs | _ \<Rightarrow> None)
     zero_ports (marshal_ports \<lparr>pc_all = False,
       pc_selectors = [\<lparr>sel_name = ''http'', sel_port = 80, sel_local_port = 8080\<rparr>]\<rparr>) =
   Inr \<lparr>pc_all = False, pc_selectors = [\<lparr>sel_name = ''http'', sel_port = 80, sel_local_port = 8080\<rparr>]\<rparr>"
  using ports_round_trip [of "\<lambda>v. raw_string (Some v)" "\<lambda>v. case v of RList xs \<Rightarrow> Some xs | _ \<Rightarrow> None"
      "\<lparr>pc_all = False, pc_selectors = [\<lparr>sel_name = ''http'', sel_port = 80, sel_local_port = 8080\<rparr>]\<rparr>"]
  by (simp add: ports_is_set_def)

end
