(* ===== verification/Paths.thy ===== *)
theory Paths
  imports Strings
begin

text \<open>
  The part of Go's \<^verbatim>\<open>path/filepath\<close> (on Unix) and \<^verbatim>\<open>net\<close> address syntax the program uses:
  cleaning, joining and taking apart of paths, and host/port pairs.
\<close>

subsection \<open>File paths\<close>

definition slash :: char where "slash = CHR ''/''"

definition is_abs :: "string \<Rightarrow> bool" where
  "is_abs p = (p \<noteq> [] \<and> hd p = slash)"

text \<open>One path element on the stack of kept elements, which is in reverse order.\<close>

fun clean_step :: "bool \<Rightarrow> string list \<Rightarrow> string \<Rightarrow> string list" where
  "clean_step rooted st w =
     (if w = [] \<or> w = ''.'' then st
      else if w = ''..'' then
        (case st of
           [] \<Rightarrow> if rooted then [] else [w]
         | t # ts \<Rightarrow> if t = ''..'' then w # st else ts)
      else w # st)"

definition clean_path :: "string \<Rightarrow> string" where
  "clean_path p =
     (let rooted = is_abs p;
          body = join [slash] (rev (foldl (clean_step rooted) [] (split_char slash p)));
          r = (if rooted then slash # body else body)
      in if r = [] then ''.'' else r)"

definition path_join :: "string list \<Rightarrow> string" where
  "path_join ps =
     (let ne = filter (\<lambda>p. p \<noteq> []) ps in if ne = [] then [] else clean_path (join [slash] ne))"

definition path_base :: "string \<Rightarrow> string" where
  "path_base p =
     (if p = [] then ''.''
      else (let q = trim_right_char slash p;
                b = (case last_index_char q slash of None \<Rightarrow> q | Some i \<Rightarrow> drop (Suc i) q)
            in if b = [] then ''/'' else b))"

definition path_dir :: "string \<Rightarrow> string" where
  "path_dir p =
     clean_path (case last_index_char p slash of None \<Rightarrow> [] | Some i \<Rightarrow> take (Suc i) p)"

text \<open>The suffix from the last dot of the last element.\<close>

definition path_ext :: "string \<Rightarrow> string" where
  "path_ext p =
     (let b = (case last_index_char p slash of None \<Rightarrow> p | Some i \<Rightarrow> drop (Suc i) p)
      in case last_index_char b CHR ''.'' of None \<Rightarrow> [] | Some i \<Rightarrow> drop i b)"

text \<open>\<^verbatim>\<open>filepath.Abs\<close> in the working directory \<open>cwd\<close>.\<close>

definition path_abs :: "string \<Rightarrow> string \<Rightarrow> string" where
  "path_abs cwd p = (if is_abs p then clean_path p else path_join [cwd, p])"

lemma clean_step_words:
  "w' \<in> set (foldl (clean_step r) st ws) \<Longrightarrow> w' \<in> set st \<or> w' \<in> set ws"
proof (induction ws arbitrary: st)
  case (Cons a ws)
  have "set (clean_step r st a) \<subseteq> insert a (set st)" by (cases st) auto
  with Cons.IH [of "clean_step r st a"] Cons.prems show ?case by auto
qed simp

lemma clean_step_no_dotdot:
  "''..'' \<notin> set st \<Longrightarrow> ''..'' \<notin> set (clean_step True st w)"
  by (cases st) auto

lemma clean_rooted_no_dotdot: "''..'' \<notin> set (foldl (clean_step True) [] ws)"
proof -
  have "''..'' \<notin> set st \<Longrightarrow> ''..'' \<notin> set (foldl (clean_step True) st ws)" for st
    by (induction ws arbitrary: st) (simp_all add: clean_step_no_dotdot del: clean_step.simps)
  then show ?thesis by simp
qed

lemma is_abs_clean: "is_abs p \<Longrightarrow> is_abs (clean_path p)"
  by (simp add: clean_path_def Let_def is_abs_def)

subsection \<open>Host and port\<close>

definition join_host_port :: "string \<Rightarrow> string \<Rightarrow> string" where
  "join_host_port h p =
     (if contains h '':'' then ''['' @ h @ '']:'' @ p else h @ '':'' @ p)"

text \<open>\<^verbatim>\<open>net.SplitHostPort\<close>; every address error is \<open>None\<close>.\<close>

definition split_host_port :: "string \<Rightarrow> (string \<times> string) option" where
  "split_host_port s =
     (case last_index_char s CHR '':'' of
        None \<Rightarrow> None
      | Some i \<Rightarrow>
          if hd s = CHR ''['' then
            (case index_of s '']'' of
               None \<Rightarrow> None
             | Some e \<Rightarrow>
                 if e + 1 \<noteq> i then None
                 else if contains (drop 1 s) ''['' \<or> contains (drop (e + 1) s) '']'' then None
                 else Some (take (e - 1) (drop 1 s), drop (i + 1) s))
          else if contains (take i s) '':'' \<or> contains s ''['' \<or> contains s '']'' then None
          else Some (take i s, drop (i + 1) s))"

lemma join_split_host_port:
  assumes "CHR ''['' \<notin> set h" "CHR '']'' \<notin> set h"
    and "CHR '':'' \<notin> set p" "CHR ''['' \<notin> set p" "CHR '']'' \<notin> set p"
  shows "split_host_port (join_host_port h p) = Some (h, p)"
proof (cases "CHR '':'' \<in> set h")
  case False
  have "hd (h @ CHR '':'' # p) \<noteq> CHR ''[''" using assms by (cases h) auto
  with False assms show ?thesis
    by (simp add: join_host_port_def split_host_port_def)
next
  case True
  have l: "last_index_char (CHR ''['' # h @ CHR '']'' # CHR '':'' # p) CHR '':'' = Some (length h + 2)"
    using last_index_char_append [of "CHR '':''" p "CHR ''['' # h @ [CHR '']'']"] assms by simp
  have i: "index_of (CHR ''['' # h @ CHR '']'' # CHR '':'' # p) [CHR '']''] = Some (length h + 1)"
    using index_of_char_append [of "CHR '']''" "CHR ''['' # h" "CHR '':'' # p"] assms by simp
  show ?thesis
    using True assms 
    by (simp add: join_host_port_def split_host_port_def l i del: last_index_char.simps index_of.simps)
qed

lemma split_host_port_port: "split_host_port s = Some (h, p) \<Longrightarrow> CHR '':'' \<notin> set p"
proof -
  assume a: "split_host_port s = Some (h, p)"
  then obtain i where i: "last_index_char s CHR '':'' = Some i"
    by (auto simp: split_host_port_def split: option.splits)
  have "last_index_char t c = Some j \<Longrightarrow> c \<notin> set (drop (j + 1) t)" for t c j
    by (induction t arbitrary: j) (auto split: option.splits if_splits simp: last_index_char_None)
  with i a show ?thesis
    by (auto simp: split_host_port_def split: option.splits if_splits)
qed

end
