(* ===== verification/Validate.thy ===== *)
theory Validate
  imports Config Paths
begin

text \<open>
  Parsing of the textual settings (network, bandwidth, chaos, supervisor) and the validation of
  services, hooks and whole configurations in \<^verbatim>\<open>pkg/config/config.go\<close>.  Every error return is a
  constructor of \<open>cfg_err\<close>; the checks are made in the order of the code, so the error that
  is reported is the one the code reports.
\<close>

subsection \<open>Errors\<close>

datatype bandwidth_err = BadNumber string | BandwidthNotPositive | UnknownUnit

datatype parse_err =
    BadDuration string string
  | NegativeDuration string string
  | JitterWithoutLatency
  | JitterExceedsLatency string string
  | BadBandwidth string bandwidth_err
  | BadErrorRate f64
  | BadProbability f64
  | SpikeDurationRequired

datatype svc_err =
    NameRequired
  | NoTarget string
  | BothTargets string
  | RemotePortInMulti string
  | LocalPortInMulti string
  | ExcludeWithoutAll string
  | NegativeOffset string
  | SelectorEmpty string nat
  | SelectorBadPort string nat int
  | SelectorBadLocalPort string nat int
  | ExcludeNeedsMulti string
  | OffsetNeedsMulti string
  | BadLocalPort string int
  | BadRemotePort string int
  | BadNetwork string parse_err
  | BadChaos string parse_err
  | BadConnectionMode string string
  | IsolatedMulti string

datatype hook_err =
    HookNameRequired nat
  | HookTypeRequired nat string
  | HookBadTimeout nat string string
  | HookBadFailMode nat string string
  | HookUnknownService nat string string

datatype cfg_err =
    NoServices
  | ServiceInvalid nat svc_err
  | DuplicateLocalPort nat string int string
  | EmptySocketPath
  | SocketPathDotDot
  | BadTCPAddress string
  | TCPNeedsAPIKey
  | UnsupportedScheme
  | HookInvalid hook_err
  | SupervisorInvalid parse_err
  | NetworkInvalid parse_err
  | ChaosInvalid parse_err

subsection \<open>Bandwidth\<close>

definition bandwidth_suffixes :: "(string \<times> int) list" where
  "bandwidth_suffixes =
     [(''gbytes'', 1000000000), (''mbytes'', 1000000), (''kbytes'', 1000),
      (''gbps'', quot 1000000000 8), (''mbps'', quot 1000000 8), (''kbps'', quot 1000 8)]"

fun bandwidth_loop :: "string \<Rightarrow> (string \<times> int) list \<Rightarrow> bandwidth_err + int" where
  "bandwidth_loop lower [] = Inl UnknownUnit"
| "bandwidth_loop lower ((name, mult) # rest) =
     (if has_suffix lower name then
        (let num = trim_space (take (length lower - length name) lower)
         in case parse_float num of
              None \<Rightarrow> Inl (BadNumber num)
            | Some val \<Rightarrow>
                if f_leq val f_zero then Inl BandwidthNotPositive
                else Inr (f_to_int (f_scale val (of_int mult))))
      else bandwidth_loop lower rest)"

definition parse_bandwidth :: "string \<Rightarrow> bandwidth_err + int" where
  "parse_bandwidth s = bandwidth_loop (to_lower (trim_space s)) bandwidth_suffixes"

subsection \<open>Network, chaos and supervisor settings\<close>

record parsed_network =
  pn_latency :: int
  pn_jitter :: int
  pn_bytes_per_sec :: int

definition parsed_network_enabled :: "parsed_network \<Rightarrow> bool" where
  "parsed_network_enabled p = (0 < pn_latency p \<or> 0 < pn_jitter p \<or> 0 < pn_bytes_per_sec p)"

text \<open>An optional non-negative duration: empty is zero.\<close>

definition opt_duration :: "string \<Rightarrow> string \<Rightarrow> parse_err + int" where
  "opt_duration field s =
     (if s = [] then Inr 0
      else (case parse_duration s of
              None \<Rightarrow> Inl (BadDuration field s)
            | Some d \<Rightarrow> if d < 0 then Inl (NegativeDuration field s) else Inr d))"

definition parse_network :: "network_config \<Rightarrow> parse_err + parsed_network" where
  "parse_network n =
     sbind (opt_duration ''latency'' (net_latency n)) (\<lambda>lat.
     sbind (opt_duration ''jitter'' (net_jitter n)) (\<lambda>jit.
     if 0 < jit \<and> lat = 0 then Inl JitterWithoutLatency
     else if lat < jit \<and> 0 < lat then Inl (JitterExceedsLatency (net_jitter n) (net_latency n))
     else if net_bandwidth n = [] then Inr \<lparr>pn_latency = lat, pn_jitter = jit, pn_bytes_per_sec = 0\<rparr>
     else (case parse_bandwidth (net_bandwidth n) of
             Inl e \<Rightarrow> Inl (BadBandwidth (net_bandwidth n) e)
           | Inr b \<Rightarrow> Inr \<lparr>pn_latency = lat, pn_jitter = jit, pn_bytes_per_sec = b\<rparr>)))"

record parsed_chaos =
  pch_enabled :: bool
  pch_error_rate :: f64
  pch_spike_probability :: f64
  pch_spike_duration :: int

definition zero_parsed_chaos :: parsed_chaos where
  "zero_parsed_chaos = \<lparr>pch_enabled = False, pch_error_rate = f_zero,
     pch_spike_probability = f_zero, pch_spike_duration = 0\<rparr>"

definition parsed_chaos_enabled :: "parsed_chaos \<Rightarrow> bool" where
  "parsed_chaos_enabled p =
     (pch_enabled p \<and> (f_less f_zero (pch_error_rate p) \<or> f_less f_zero (pch_spike_probability p)))"

definition out_of_unit :: "f64 \<Rightarrow> bool" where
  "out_of_unit x = (f_less x f_zero \<or> f_less (Fin 1) x)"

definition parse_chaos :: "chaos_config \<Rightarrow> parse_err + parsed_chaos" where
  "parse_chaos c =
     (if \<not> bool_val (chaos_enabled c) then Inr zero_parsed_chaos
      else if out_of_unit (chaos_error_rate c) then Inl (BadErrorRate (chaos_error_rate c))
      else if out_of_unit (spike_probability (chaos_spike c))
      then Inl (BadProbability (spike_probability (chaos_spike c)))
      else sbind (opt_duration ''latency_spike.duration'' (spike_duration (chaos_spike c))) (\<lambda>d.
        if f_less f_zero (spike_probability (chaos_spike c)) \<and> d = 0 then Inl SpikeDurationRequired
        else Inr \<lparr>pch_enabled = True, pch_error_rate = chaos_error_rate c,
                  pch_spike_probability = spike_probability (chaos_spike c),
                  pch_spike_duration = d\<rparr>))"

text \<open>
  The Go functions return the settings read so far together with the error, and some callers use
  them: \<open>network_settings\<close> and \<open>chaos_settings\<close> are that first result.
\<close>

definition duration_read :: "string \<Rightarrow> int \<times> bool" where
  "duration_read s =
     (if s = [] then (0, True)
      else (case parse_duration s of None \<Rightarrow> (0, False) | Some d \<Rightarrow> (d, 0 \<le> d)))"

definition network_settings :: "network_config \<Rightarrow> parsed_network" where
  "network_settings n =
     (case duration_read (net_latency n) of
        (lat, ok1) \<Rightarrow>
          if \<not> ok1 then \<lparr>pn_latency = lat, pn_jitter = 0, pn_bytes_per_sec = 0\<rparr>
          else (case duration_read (net_jitter n) of
                  (jit, ok2) \<Rightarrow>
                    \<lparr>pn_latency = lat, pn_jitter = jit,
                     pn_bytes_per_sec =
                       (if ok2 \<and> \<not> (0 < jit \<and> lat = 0) \<and> \<not> (lat < jit \<and> 0 < lat) \<and> net_bandwidth n \<noteq> []
                        then (case parse_bandwidth (net_bandwidth n) of Inl e \<Rightarrow> 0 | Inr b \<Rightarrow> b) else 0)\<rparr>))"

definition chaos_settings :: "chaos_config \<Rightarrow> parsed_chaos" where
  "chaos_settings c =
     (if \<not> bool_val (chaos_enabled c) then zero_parsed_chaos
      else if out_of_unit (chaos_error_rate c) then zero_parsed_chaos\<lparr>pch_enabled := True\<rparr>
      else if out_of_unit (spike_probability (chaos_spike c))
      then zero_parsed_chaos\<lparr>pch_enabled := True, pch_error_rate := chaos_error_rate c\<rparr>
      else \<lparr>pch_enabled = True, pch_error_rate = chaos_error_rate c,
            pch_spike_probability = spike_probability (chaos_spike c),
            pch_spike_duration =
              (case duration_read (spike_duration (chaos_spike c)) of (d, ok) \<Rightarrow> if ok then d else 0)\<rparr>)"

lemma network_settings_ok: "parse_network n = Inr p \<Longrightarrow> network_settings n = p"
  by (auto simp: parse_network_def network_settings_def duration_read_def opt_duration_def sbind_Inr_iff
      split: if_splits option.splits sum.splits)

lemma chaos_settings_ok: "parse_chaos c = Inr p \<Longrightarrow> chaos_settings c = p"
  by (auto simp: parse_chaos_def chaos_settings_def duration_read_def opt_duration_def sbind_Inr_iff
      split: if_splits option.splits)

definition supervisor_durations :: "supervisor_config \<Rightarrow> (string \<times> string) list" where
  "supervisor_durations s =
     [(''health_check_interval'', sup_health_check_interval s), (''ready_timeout'', sup_ready_timeout s),
      (''backoff_initial'', sup_backoff_initial s), (''backoff_max'', sup_backoff_max s),
      (''max_connection_age'', sup_max_connection_age s)]"

definition validate_supervisor :: "supervisor_config \<Rightarrow> parse_err + unit" where
  "validate_supervisor s =
     for_each (\<lambda>(name, val).
         if val \<noteq> [] \<and> parse_duration val = None then Inl (BadDuration name val) else Inr ())
       (supervisor_durations s)"

record parsed_supervisor =
  ps_max_restarts :: int
  ps_health_check_threshold :: int
  ps_health_check_interval :: int
  ps_ready_timeout :: int
  ps_backoff_initial :: int
  ps_backoff_max :: int
  ps_max_connection_age :: int

text \<open>\<^verbatim>\<open>parseDuration\<close>: the default when the setting is empty.\<close>

definition duration_or :: "string \<Rightarrow> int \<Rightarrow> int option" where
  "duration_or s d = (if s = [] then Some d else parse_duration s)"

definition field_duration :: "string \<Rightarrow> string \<Rightarrow> int \<Rightarrow> parse_err + int" where
  "field_duration field s d =
     (case duration_or s d of None \<Rightarrow> Inl (BadDuration field s) | Some v \<Rightarrow> Inr v)"

definition parsed_supervisor_of :: "supervisor_config \<Rightarrow> parse_err + parsed_supervisor" where
  "parsed_supervisor_of s =
     sbind (field_duration ''health_check_interval'' (sup_health_check_interval s) (10 * sec)) (\<lambda>hci.
     sbind (field_duration ''ready_timeout'' (sup_ready_timeout s) (15 * sec)) (\<lambda>rt.
     sbind (field_duration ''backoff_initial'' (sup_backoff_initial s) (1 * sec)) (\<lambda>bi.
     sbind (field_duration ''backoff_max'' (sup_backoff_max s) (30 * sec)) (\<lambda>bm.
     sbind (field_duration ''max_connection_age'' (sup_max_connection_age s) 0) (\<lambda>age.
     Inr \<lparr>ps_max_restarts = sup_max_restarts s,
          ps_health_check_threshold =
            (if sup_health_check_threshold s \<le> 0 then 3 else sup_health_check_threshold s),
          ps_health_check_interval = hci, ps_ready_timeout = rt, ps_backoff_initial = bi,
          ps_backoff_max = bm, ps_max_connection_age = age\<rparr>)))))"

subsection \<open>One service\<close>

fun validate_selectors :: "string \<Rightarrow> nat \<Rightarrow> port_selector list \<Rightarrow> svc_err + unit" where
  "validate_selectors name j [] = Inr ()"
| "validate_selectors name j (sel # rest) =
     (if sel_name sel = [] \<and> sel_port sel = 0 then Inl (SelectorEmpty name j)
      else if sel_port sel < 0 \<or> 65535 < sel_port sel then Inl (SelectorBadPort name j (sel_port sel))
      else if sel_local_port sel < 0 \<or> 65535 < sel_local_port sel
      then Inl (SelectorBadLocalPort name j (sel_local_port sel))
      else validate_selectors name (Suc j) rest)"

definition validate_ports :: "service_config \<Rightarrow> svc_err + unit" where
  "validate_ports svc =
     (if is_multi_port svc then
        (if svc_remote_port svc \<noteq> 0 then Inl (RemotePortInMulti (svc_name svc))
         else if svc_local_port svc \<noteq> 0 then Inl (LocalPortInMulti (svc_name svc))
         else if 0 < length (svc_exclude_ports svc) \<and> \<not> pc_all (svc_ports svc)
         then Inl (ExcludeWithoutAll (svc_name svc))
         else if svc_local_port_offset svc < 0 then Inl (NegativeOffset (svc_name svc))
         else validate_selectors (svc_name svc) 0 (pc_selectors (svc_ports svc)))
      else if 0 < length (svc_exclude_ports svc) then Inl (ExcludeNeedsMulti (svc_name svc))
      else if svc_local_port_offset svc \<noteq> 0 then Inl (OffsetNeedsMulti (svc_name svc))
      else if svc_local_port svc < 0 \<or> 65535 < svc_local_port svc
      then Inl (BadLocalPort (svc_name svc) (svc_local_port svc))
      else if svc_remote_port svc \<le> 0 \<or> 65535 < svc_remote_port svc
      then Inl (BadRemotePort (svc_name svc) (svc_remote_port svc))
      else Inr ())"

definition check_network :: "network_config \<Rightarrow> parse_err + unit" where
  "check_network n = (if network_is_set n then check_only (parse_network n) else Inr ())"

definition check_chaos :: "chaos_config \<Rightarrow> parse_err + unit" where
  "check_chaos c = (if chaos_is_set c then check_only (parse_chaos c) else Inr ())"

definition validate_service :: "service_config \<Rightarrow> svc_err + unit" where
  "validate_service svc =
     (if svc_name svc = [] then Inl NameRequired
      else if svc_service svc = [] \<and> svc_pod svc = [] then Inl (NoTarget (svc_name svc))
      else if svc_service svc \<noteq> [] \<and> svc_pod svc \<noteq> [] then Inl (BothTargets (svc_name svc))
      else sbind (validate_ports svc) (\<lambda>_.
           sbind (wrap_err (BadNetwork (svc_name svc)) (check_network (svc_network svc))) (\<lambda>_.
           sbind (wrap_err (BadChaos (svc_name svc)) (check_chaos (svc_chaos svc))) (\<lambda>_.
           if svc_connection_mode svc \<noteq> [] \<and> svc_connection_mode svc \<noteq> ''mux''
              \<and> svc_connection_mode svc \<noteq> ''isolated''
           then Inl (BadConnectionMode (svc_name svc) (svc_connection_mode svc))
           else if svc_connection_mode svc = ''isolated'' \<and> is_multi_port svc
           then Inl (IsolatedMulti (svc_name svc))
           else Inr ()))))"

subsection \<open>The whole configuration\<close>

text \<open>The loop over the services, with the map of local ports seen so far.\<close>

fun validate_services :: "nat \<Rightarrow> (int, string) gomap \<Rightarrow> service_config list \<Rightarrow> cfg_err + unit" where
  "validate_services i seen [] = Inr ()"
| "validate_services i seen (svc # rest) =
     (case validate_service svc of
        Inl e \<Rightarrow> Inl (ServiceInvalid i e)
      | Inr _ \<Rightarrow>
          if \<not> is_multi_port svc \<and> svc_local_port svc \<noteq> 0 then
            (case gget seen (svc_local_port svc) of
               Some prev \<Rightarrow> Inl (DuplicateLocalPort i (svc_name svc) (svc_local_port svc) prev)
             | None \<Rightarrow> validate_services (Suc i) (gset (svc_local_port svc) (svc_name svc) seen) rest)
          else validate_services (Suc i) seen rest)"

definition validate_listen :: "config \<Rightarrow> cfg_err + unit" where
  "validate_listen c =
     (let l = cfg_listen c
      in if l = [] then Inr ()
         else if has_prefix l ''sock://'' then
           (if trim_prefix l ''sock://'' = [] then Inl EmptySocketPath
            else if contains (clean_path (trim_prefix l ''sock://'')) ''..'' then Inl SocketPathDotDot
            else Inr ())
         else if has_prefix l ''tcp://'' then
           (if split_host_port (trim_prefix l ''tcp://'') = None
            then Inl (BadTCPAddress (trim_prefix l ''tcp://''))
            else if cfg_api_key c = [] then Inl TCPNeedsAPIKey
            else Inr ())
         else Inl UnsupportedScheme)"

definition validate_hook :: "nat \<Rightarrow> hook_config \<Rightarrow> string list \<Rightarrow> hook_err + unit" where
  "validate_hook idx h names =
     (if hk_name h = [] then Inl (HookNameRequired idx)
      else if hk_type h = [] then Inl (HookTypeRequired idx (hk_name h))
      else if hk_timeout h \<noteq> [] \<and> parse_duration (hk_timeout h) = None
      then Inl (HookBadTimeout idx (hk_name h) (hk_timeout h))
      else if hk_fail_mode h \<noteq> [] \<and> hk_fail_mode h \<noteq> ''open'' \<and> hk_fail_mode h \<noteq> ''closed''
      then Inl (HookBadFailMode idx (hk_name h) (hk_fail_mode h))
      else for_each (\<lambda>n. if n \<in> set names then Inr () else Inl (HookUnknownService idx (hk_name h) n))
             (hk_filter_services h))"

fun validate_hooks :: "nat \<Rightarrow> string list \<Rightarrow> hook_config list \<Rightarrow> cfg_err + unit" where
  "validate_hooks i names [] = Inr ()"
| "validate_hooks i names (h # hs) =
     (case validate_hook i h names of
        Inl e \<Rightarrow> Inl (HookInvalid e)
      | Inr _ \<Rightarrow> validate_hooks (Suc i) names hs)"

definition validate_config :: "config \<Rightarrow> cfg_err + unit" where
  "validate_config c =
     (if cfg_services c = [] then Inl NoServices
      else sbind (validate_services 0 [] (cfg_services c)) (\<lambda>_.
           sbind (validate_listen c) (\<lambda>_.
           sbind (validate_hooks 0 (map svc_name (cfg_services c)) (cfg_hooks c)) (\<lambda>_.
           sbind (wrap_err SupervisorInvalid (validate_supervisor (cfg_supervisor c))) (\<lambda>_.
           sbind (wrap_err NetworkInvalid (check_network (cfg_network c))) (\<lambda>_.
           wrap_err ChaosInvalid (check_chaos (cfg_chaos c))))))))"

subsection \<open>What validation promises\<close>

text \<open>The declarative reading of the checks, component by component, and its equivalence with
  the code.\<close>

definition network_ok :: "network_config \<Rightarrow> bool" where
  "network_ok n =
     (\<exists>lat jit. opt_duration ''latency'' (net_latency n) = Inr lat
       \<and> opt_duration ''jitter'' (net_jitter n) = Inr jit \<and> jit \<le> lat
       \<and> (net_bandwidth n = [] \<or> is_ok (parse_bandwidth (net_bandwidth n))))"

lemma opt_duration_bounds: "opt_duration f s = Inr d \<Longrightarrow> 0 \<le> d \<and> d < 2 ^ 63"
  by (auto simp: opt_duration_def split: if_splits option.splits dest: parse_duration_range)

lemma parse_network_ok_iff: "is_ok (parse_network n) = network_ok n"
proof (cases "opt_duration ''latency'' (net_latency n)")
  case (Inr lat)
  note lat = this
  show ?thesis
  proof (cases "opt_duration ''jitter'' (net_jitter n)")
    case (Inr jit)
    with lat show ?thesis
      using opt_duration_bounds [OF lat] opt_duration_bounds [OF Inr]
      by (auto simp: parse_network_def network_ok_def split: sum.splits)
  qed (simp add: parse_network_def network_ok_def lat)
qed (simp add: parse_network_def network_ok_def)

lemma parse_network_bounds:
  "parse_network n = Inr p \<Longrightarrow> 0 \<le> pn_jitter p \<and> pn_jitter p \<le> pn_latency p \<and> pn_latency p < 2 ^ 63"
  by (auto simp: parse_network_def sbind_Inr_iff split: if_splits sum.splits dest!: opt_duration_bounds)

lemma validate_selectors_iff:
  "(validate_selectors n j sels = Inr u) =
     (\<forall>s. s \<in> set sels \<longrightarrow> (sel_name s \<noteq> [] \<or> sel_port s \<noteq> 0) \<and> 0 \<le> sel_port s \<and> sel_port s \<le> 65535
        \<and> 0 \<le> sel_local_port s \<and> sel_local_port s \<le> 65535)"
  by (induction n j sels rule: validate_selectors.induct) auto


definition unit_rate :: "f64 \<Rightarrow> bool" where
  "unit_rate x = (\<not> out_of_unit x)"

definition chaos_ok :: "chaos_config \<Rightarrow> bool" where
  "chaos_ok c =
     (unit_rate (chaos_error_rate c) \<and> unit_rate (spike_probability (chaos_spike c)) \<and>
      (\<exists>d. opt_duration ''latency_spike.duration'' (spike_duration (chaos_spike c)) = Inr d
         \<and> (f_less f_zero (spike_probability (chaos_spike c)) \<longrightarrow> 0 < d)))"

lemma parse_chaos_ok_iff: "is_ok (parse_chaos c) = (chaos_is_set c \<longrightarrow> chaos_ok c)"
proof (cases "opt_duration ''latency_spike.duration'' (spike_duration (chaos_spike c))")
  case (Inr d)
  then show ?thesis using opt_duration_bounds [OF Inr]
    by (auto simp: parse_chaos_def chaos_ok_def chaos_is_set_def unit_rate_def)
qed (auto simp: parse_chaos_def chaos_ok_def chaos_is_set_def unit_rate_def)

lemma parse_chaos_rates:
  "parse_chaos c = Inr p \<Longrightarrow> unit_rate (pch_error_rate p) \<and> unit_rate (pch_spike_probability p)
     \<and> 0 \<le> pch_spike_duration p
     \<and> (f_less f_zero (pch_spike_probability p) \<longrightarrow> 0 < pch_spike_duration p)"
  by (auto simp: parse_chaos_def zero_parsed_chaos_def unit_rate_def out_of_unit_def sbind_Inr_iff
      split: if_splits dest!: opt_duration_bounds)

definition selector_ok :: "port_selector \<Rightarrow> bool" where
  "selector_ok s = ((sel_name s \<noteq> [] \<or> sel_port s \<noteq> 0) \<and> 0 \<le> sel_port s \<and> sel_port s \<le> 65535
     \<and> 0 \<le> sel_local_port s \<and> sel_local_port s \<le> 65535)"

definition ports_ok :: "service_config \<Rightarrow> bool" where
  "ports_ok s =
     (if is_multi_port s then
        svc_remote_port s = 0 \<and> svc_local_port s = 0 \<and> 0 \<le> svc_local_port_offset s
        \<and> (svc_exclude_ports s \<noteq> [] \<longrightarrow> pc_all (svc_ports s))
        \<and> list_all selector_ok (pc_selectors (svc_ports s))
      else svc_exclude_ports s = [] \<and> svc_local_port_offset s = 0
        \<and> 0 \<le> svc_local_port s \<and> svc_local_port s \<le> 65535
        \<and> 0 < svc_remote_port s \<and> svc_remote_port s \<le> 65535)"

definition service_ok :: "service_config \<Rightarrow> bool" where
  "service_ok s =
     (svc_name s \<noteq> [] \<and> (svc_service s = []) \<noteq> (svc_pod s = []) \<and> ports_ok s
      \<and> (network_is_set (svc_network s) \<longrightarrow> network_ok (svc_network s))
      \<and> (chaos_is_set (svc_chaos s) \<longrightarrow> chaos_ok (svc_chaos s))
      \<and> (svc_connection_mode s = [] \<or> svc_connection_mode s = ''mux''
         \<or> (svc_connection_mode s = ''isolated'' \<and> \<not> is_multi_port s)))"

lemma validate_ports_iff: "(validate_ports s = Inr u) = ports_ok s"
  by (auto simp: validate_ports_def ports_ok_def validate_selectors_iff selector_ok_def list_all_iff)

lemma check_network_iff: "(check_network n = Inr u) = (network_is_set n \<longrightarrow> network_ok n)"
  by (simp add: check_network_def check_only_Inr_iff parse_network_ok_iff)

lemma check_chaos_iff: "(check_chaos c = Inr u) = (chaos_is_set c \<longrightarrow> chaos_ok c)"
  by (simp add: check_chaos_def check_only_Inr_iff parse_chaos_ok_iff)

lemmas check_iffs = validate_ports_iff check_network_iff check_chaos_iff

lemma validate_service_iff: "(validate_service s = Inr u) = service_ok s"
  by (auto simp: validate_service_def service_ok_def result_simps check_iffs)

text \<open>The local ports the configuration fixes.\<close>

definition static_ports :: "service_config list \<Rightarrow> int list" where
  "static_ports svcs =
     map svc_local_port (filter (\<lambda>s. \<not> is_multi_port s \<and> svc_local_port s \<noteq> 0) svcs)"

lemma validate_services_iff:
  "(validate_services i seen svcs = Inr u) =
     (list_all service_ok svcs \<and> distinct (static_ports svcs)
      \<and> fst ` set seen \<inter> set (static_ports svcs) = {})"
proof (induction i seen svcs rule: validate_services.induct)
  case (2 i seen svc rest)
  show ?case
  proof (cases "validate_service svc")
    case (Inl e)
    then have "\<not> service_ok svc" using validate_service_iff [of svc "()"] by simp
    with Inl show ?thesis by simp
  next
    case (Inr v)
    then have ok: "service_ok svc" using validate_service_iff by blast
    show ?thesis
    proof (cases "\<not> is_multi_port svc \<and> svc_local_port svc \<noteq> 0")
      case True
      then have sp: "static_ports (svc # rest) = svc_local_port svc # static_ports rest"
        by (simp add: static_ports_def)
      show ?thesis
      proof (cases "gget seen (svc_local_port svc)")
        case None
        then show ?thesis
          using 2(1) [OF Inr True None] Inr True ok sp gget_None_iff [of seen "svc_local_port svc"]
          by auto
      next
        case (Some prev)
        then show ?thesis using Inr True sp gget_Some_key [OF Some] by simp
      qed
    next
      case False
      then have "static_ports (svc # rest) = static_ports rest" by (auto simp: static_ports_def)
      then show ?thesis using 2(2) [OF Inr False] Inr False ok by auto
    qed
  qed
qed (simp add: static_ports_def)

definition listen_ok :: "config \<Rightarrow> bool" where
  "listen_ok c =
     (cfg_listen c = []
      \<or> (\<exists>path. cfg_listen c = ''sock://'' @ path \<and> path \<noteq> [] \<and> \<not> contains (clean_path path) ''..'')
      \<or> (\<exists>addr. cfg_listen c = ''tcp://'' @ addr \<and> split_host_port addr \<noteq> None \<and> cfg_api_key c \<noteq> []))"

definition hook_ok :: "string list \<Rightarrow> hook_config \<Rightarrow> bool" where
  "hook_ok names h =
     (hk_name h \<noteq> [] \<and> hk_type h \<noteq> [] \<and> (hk_timeout h = [] \<or> parse_duration (hk_timeout h) \<noteq> None)
      \<and> hk_fail_mode h \<in> {[], ''open'', ''closed''} \<and> set (hk_filter_services h) \<subseteq> set names)"

definition supervisor_ok :: "supervisor_config \<Rightarrow> bool" where
  "supervisor_ok s =
     list_all (\<lambda>v. v = [] \<or> parse_duration v \<noteq> None) (map snd (supervisor_durations s))"

definition config_ok :: "config \<Rightarrow> bool" where
  "config_ok c =
     (cfg_services c \<noteq> [] \<and> list_all service_ok (cfg_services c)
      \<and> distinct (static_ports (cfg_services c)) \<and> listen_ok c
      \<and> list_all (hook_ok (map svc_name (cfg_services c))) (cfg_hooks c)
      \<and> supervisor_ok (cfg_supervisor c)
      \<and> (network_is_set (cfg_network c) \<longrightarrow> network_ok (cfg_network c))
      \<and> (chaos_is_set (cfg_chaos c) \<longrightarrow> chaos_ok (cfg_chaos c)))"

lemma validate_listen_iff: "(validate_listen c = Inr u) = listen_ok c"
proof (cases "has_prefix (cfg_listen c) ''sock://''")
  case True
  then obtain p where p: "cfg_listen c = ''sock://'' @ p" by (auto simp: has_prefix_iff)
  have "trim_prefix (''sock://'' @ p) ''sock://'' = p" by (rule trim_prefix_append)
  then show ?thesis using True p by (simp add: validate_listen_def listen_ok_def Let_def)
next
  case False
  then have ns: "cfg_listen c \<noteq> ''sock://'' @ p" for p by (metis has_prefix_append)
  show ?thesis
  proof (cases "has_prefix (cfg_listen c) ''tcp://''")
    case True
    then obtain a where a: "cfg_listen c = ''tcp://'' @ a" by (auto simp: has_prefix_iff)
    have "trim_prefix (''tcp://'' @ a) ''tcp://'' = a" by (rule trim_prefix_append)
    then show ?thesis using True False a by (simp add: validate_listen_def listen_ok_def Let_def)
  next
    case False2: False
    then have "cfg_listen c \<noteq> ''tcp://'' @ a" for a by (metis has_prefix_append)
    then show ?thesis using False False2 ns by (simp add: validate_listen_def listen_ok_def Let_def)
  qed
qed

lemma validate_hook_iff: "(validate_hook i h names = Inr u) = hook_ok names h"
  by (auto simp: validate_hook_def hook_ok_def for_each_Inr_iff)

lemma validate_hooks_iff: "(validate_hooks i names hs = Inr u) = list_all (hook_ok names) hs"
  by (induction i names hs rule: validate_hooks.induct)
    (auto split: sum.splits simp: validate_hook_iff, metis old.unit.exhaust sum.distinct(1) validate_hook_iff)

lemma validate_supervisor_iff: "(validate_supervisor s = Inr u) = supervisor_ok s"
  by (auto simp: validate_supervisor_def supervisor_ok_def for_each_Inr_iff supervisor_durations_def)

lemma validate_config_iff: "(validate_config c = Inr ()) = config_ok c"
  by (simp add: validate_config_def config_ok_def result_simps validate_services_iff
      validate_listen_iff validate_hooks_iff validate_supervisor_iff check_iffs)

text \<open>C4: \<^verbatim>\<open>Validate\<close> is sound and complete for its declarative specification: it accepts a
  configuration exactly when there is a service, every service has a name, exactly one target,
  ports in range and consistent modes, the fixed local ports are pairwise distinct, a TCP
  listener has an API key, hooks name known services, and all settings parse.\<close>

theorem validate_config_correct: "(validate_config c = Inr ()) = config_ok c"
  by (rule validate_config_iff)

lemma bandwidth_skip:
  "\<not> has_prefix (rev u @ rev d) (rev name) \<Longrightarrow>
   bandwidth_loop (d @ u) ((name, m) # rest) = bandwidth_loop (d @ u) rest"
  by (simp add: has_suffix_def)

text \<open>A whole number of any of the six units is read exactly, bits as an eighth of a byte,
  as long as the product stays below \<open>2\<^sup>5\<^sup>3\<close>.\<close>

theorem bandwidth_units:
  assumes "list_all is_digit d" "d \<noteq> []" "(unit, mult) \<in> set bandwidth_suffixes"
    and "0 < digits_val 0 d" "int (digits_val 0 d) * mult < 2 ^ 53"
  shows "parse_bandwidth (d @ unit) = Inr (int (digits_val 0 d) * mult)"
proof -
  have u: "unit \<in> {''gbytes'', ''mbytes'', ''kbytes'', ''gbps'', ''mbps'', ''kbps''}" "1 \<le> mult"
    using assms(3) by (auto simp: bandwidth_suffixes_def quot_def)
  have "int (digits_val 0 d) * 1 \<le> int (digits_val 0 d) * mult" using u(2) by (intro mult_left_mono) auto
  then have "int (digits_val 0 d) < 2 ^ 53" using assms(5) by simp
  then have small: "digits_val 0 d < 2 ^ 53" by simp
  have pf: "parse_float d = Some (Fin (of_nat (digits_val 0 d)))"
    using assms small by (intro parse_float_digits) auto
  have ns: "\<not> is_space c" if "c \<in> set d" for c
    using assms(1) that digit_not_space by (auto simp: list_all_iff)
  then have t: "trim_space d = d" by (rule trim_space_no_space)
  have "\<not> is_space c" if "c \<in> set unit" for c
    using u(1) that by (auto simp: is_space_def char_val_def)
  with ns have "trim_space (d @ unit) = d @ unit" by (intro trim_space_no_space) auto
  moreover have "to_lower unit = unit"
    using u(1) by (auto simp: to_lower_def lower_char_def is_upper_def char_val_def)
  ultimately have low: "to_lower (trim_space (d @ unit)) = d @ unit"
    using digits_lower [OF assms(1)] by simp
  have r: "f_to_int (f_scale (Fin (of_nat (digits_val 0 d))) (of_int mult)) = int (digits_val 0 d) * mult"
  proof -
    let ?n = "int (digits_val 0 d) * mult"
    have e: "(of_nat (digits_val 0 d) * of_int mult :: rat) = of_int ?n" by simp
    have p: "0 < ?n" using assms(4) u(2) by simp
    have "f_to_int (fround (of_int ?n)) = ?n"
      unfolding fround_int [OF p assms(5)] by (rule f_to_int_of_int) (use p assms(5) in simp_all)
    then show ?thesis by (simp only: f_scale_def f64.case e)
  qed
  have z: "\<not> f_leq (Fin (of_nat (digits_val 0 d))) f_zero" using assms(4) by simp
  have hit: "bandwidth_loop (d @ unit) ((unit, mult) # rest) = Inr (int (digits_val 0 d) * mult)" for rest
    using pf t r z by (simp add: Let_def del: f_leq.simps)
  show ?thesis
    unfolding parse_bandwidth_def low
    using assms(3) hit unfolding bandwidth_suffixes_def set_simps insert_iff empty_iff prod.inject
    by (elim disjE conjE FalseE; hypsubst)
      (simp_all add: bandwidth_skip del: bandwidth_loop.simps)
qed

theorem bandwidth_units_witness: "parse_bandwidth ''5mbps'' = Inr 625000"
  using bandwidth_units [of "''5''" "''mbps''" 125000]
  by (simp add: bandwidth_suffixes_def is_digit_def digit_val_def char_val_def quot_def)

text \<open>A value is rejected unless it is positive, but the accepted result need not be: a
  fraction of a byte per second is accepted as 0, which means no cap, and an infinite value
  becomes the smallest \<^verbatim>\<open>int64\<close>.\<close>

theorem bandwidth_accepts_no_cap:
  "parse_bandwidth ''0x1p-7kbps'' = Inr 0 \<and> parse_bandwidth ''infgbps'' = Inr (- (2 ^ 63))"
proof
  show "parse_bandwidth ''0x1p-7kbps'' = Inr 0" by code_simp
  show "parse_bandwidth ''infgbps'' = Inr (- (2 ^ 63))" by code_simp
qed

text \<open>Validating the parts does not validate the whole.  The global and the per-service
  network settings can both be valid while their merge, which is what a forward uses, is not;
  and a per-service setting that only makes sense on top of the global one is rejected.\<close>

theorem network_merge_gap:
  "(\<exists>g s. network_ok g \<and> network_ok s \<and> \<not> network_ok (resolve_network g s))
   \<and> (\<exists>g s. network_ok g \<and> \<not> network_ok s \<and> network_ok (resolve_network g s))"
proof -
  have d: "opt_duration f ''50ms'' = Inr 50000000" "opt_duration f ''40ms'' = Inr 40000000"
    "opt_duration f ''10ms'' = Inr 10000000" "opt_duration f [] = Inr 0" for f
  proof -
    have "parse_duration ''50ms'' = Some 50000000" "parse_duration ''40ms'' = Some 40000000"
      "parse_duration ''10ms'' = Some 10000000"
      by (simp_all add: duration_eval)
    then show "opt_duration f ''50ms'' = Inr 50000000" "opt_duration f ''40ms'' = Inr 40000000"
      "opt_duration f ''10ms'' = Inr 10000000" "opt_duration f [] = Inr 0"
      by (simp_all add: opt_duration_def)
  qed
  let ?g = "\<lparr>net_latency = ''50ms'', net_jitter = ''40ms'', net_bandwidth = []\<rparr>"
  let ?s = "\<lparr>net_latency = ''10ms'', net_jitter = [], net_bandwidth = []\<rparr>"
  let ?g2 = "\<lparr>net_latency = ''50ms'', net_jitter = [], net_bandwidth = []\<rparr>"
  let ?s2 = "\<lparr>net_latency = [], net_jitter = ''40ms'', net_bandwidth = []\<rparr>"
  have "network_ok ?g" "network_ok ?s" "\<not> network_ok (resolve_network ?g ?s)"
    "network_ok ?g2" "\<not> network_ok ?s2" "network_ok (resolve_network ?g2 ?s2)"
    by (simp_all add: network_ok_def resolve_network_def d)
  then show ?thesis by blast
qed

end
