(* ===== verification/Merge.thy ===== *)
theory Merge
  imports Validate
begin

text \<open>
  The inheritance of configurations (\<^verbatim>\<open>pkg/config/merge.go\<close>): the field-by-field merge of a child
  over its parent, and the merge of the service and hook lists by name.  Services and hooks are
  merged by the same two loops; \<open>merge_keyed\<close> is that pair of loops, with the key a service or a
  hook is known by (an unnamed hook has none and is always kept).
\<close>

subsection \<open>Merging lists by key\<close>

text \<open>The map \<^verbatim>\<open>overrideByName\<close>: a later entry of the same name wins.\<close>

definition override_index :: "('a \<Rightarrow> string option) \<Rightarrow> 'a list \<Rightarrow> (string, 'a) gomap" where
  "override_index key ov =
     foldl (\<lambda>m s. case key s of None \<Rightarrow> m | Some k \<Rightarrow> gset k s m) [] ov"

definition overridden :: "('a \<Rightarrow> string option) \<Rightarrow> 'a list \<Rightarrow> 'a \<Rightarrow> 'a" where
  "overridden key ov s =
     (case key s of
        None \<Rightarrow> s
      | Some k \<Rightarrow> (case gget (override_index key ov) k of Some v \<Rightarrow> v | None \<Rightarrow> s))"

definition keys_of :: "('a \<Rightarrow> string option) \<Rightarrow> 'a list \<Rightarrow> string list" where
  "keys_of key xs = List.map_filter key xs"

definition unseen :: "('a \<Rightarrow> string option) \<Rightarrow> 'a list \<Rightarrow> 'a \<Rightarrow> bool" where
  "unseen key base s = (case key s of None \<Rightarrow> True | Some k \<Rightarrow> k \<notin> set (keys_of key base))"

definition merge_keyed :: "('a \<Rightarrow> string option) \<Rightarrow> 'a list \<Rightarrow> 'a list \<Rightarrow> 'a list" where
  "merge_keyed key base ov = map (overridden key ov) base @ filter (unseen key base) ov"

text \<open>The entry a name stands for.\<close>

definition lookup_key :: "('a \<Rightarrow> string option) \<Rightarrow> 'a list \<Rightarrow> string \<Rightarrow> 'a option" where
  "lookup_key key xs k = List.find (\<lambda>s. key s = Some k) xs"

lemma keys_of_simps [simp]:
  "keys_of key [] = []"
  "keys_of key (s # xs) = (case key s of None \<Rightarrow> keys_of key xs | Some k \<Rightarrow> k # keys_of key xs)"
  "keys_of key (xs @ ys) = keys_of key xs @ keys_of key ys"
  by (simp_all add: keys_of_def List.map_filter_def split: option.split)

lemma set_keys_of: "k \<in> set (keys_of key xs) \<longleftrightarrow> (\<exists>s \<in> set xs. key s = Some k)"
  by (induction xs) (auto split: option.splits)

lemma lookup_key_simps [simp]:
  "lookup_key key [] k = None"
  "lookup_key key (s # xs) k = (if key s = Some k then Some s else lookup_key key xs k)"
  by (simp_all add: lookup_key_def)

lemma lookup_key_append [simp]:
  "lookup_key key (xs @ ys) k =
     (case lookup_key key xs k of None \<Rightarrow> lookup_key key ys k | Some s \<Rightarrow> Some s)"
  by (induction xs) auto

lemma lookup_key_None: "lookup_key key xs k = None \<longleftrightarrow> k \<notin> set (keys_of key xs)"
  by (induction xs) (auto split: option.splits)

lemma lookup_key_Some: "lookup_key key xs k = Some s \<Longrightarrow> s \<in> set xs \<and> key s = Some k"
  by (induction xs) (auto split: if_splits)

lemma override_index_lookup:
  assumes "distinct (keys_of key ov)"
  shows "gget (override_index key ov) k = lookup_key key ov k"
proof -
  have "gget (foldl (\<lambda>m s. case key s of None \<Rightarrow> m | Some k \<Rightarrow> gset k s m) m ov) k =
      (case lookup_key key ov k of None \<Rightarrow> gget m k | Some s \<Rightarrow> Some s)" for m
    using assms
  proof (induction ov arbitrary: m)
    case (Cons s ov)
    then show ?case
      by (cases "key s") (auto split: option.splits simp: lookup_key_None dest: lookup_key_Some
          simp flip: lookup_key_None)
  qed simp
  then show ?thesis by (simp add: override_index_def split: option.split)
qed

lemma overridden_key:
  assumes "distinct (keys_of key ov)"
  shows "key (overridden key ov s) = key s"
  using assms
  by (auto simp: overridden_def override_index_lookup split: option.splits dest: lookup_key_Some)

lemma keys_of_map_overridden:
  "distinct (keys_of key ov) \<Longrightarrow> keys_of key (map (overridden key ov) base) = keys_of key base"
  by (induction base) (auto simp: overridden_key split: option.split)

lemma keys_of_filter_unseen:
  "keys_of key (filter (unseen key base) ov) = filter (\<lambda>k. k \<notin> set (keys_of key base)) (keys_of key ov)"
  by (induction ov) (auto simp: unseen_def split: option.splits)

lemma keys_of_merge:
  assumes "distinct (keys_of key ov)"
  shows "keys_of key (merge_keyed key base ov) =
    keys_of key base @ filter (\<lambda>k. k \<notin> set (keys_of key base)) (keys_of key ov)"
  using assms by (simp add: merge_keyed_def keys_of_map_overridden keys_of_filter_unseen)

lemma distinct_keys_merge:
  assumes "distinct (keys_of key base)" "distinct (keys_of key ov)"
  shows "distinct (keys_of key (merge_keyed key base ov))"
  using assms by (auto simp: keys_of_merge)

lemma lookup_map_overridden:
  assumes "distinct (keys_of key ov)"
  shows "lookup_key key (map (overridden key ov) base) k =
    (case lookup_key key base k of None \<Rightarrow> None
     | Some s \<Rightarrow> (case lookup_key key ov k of None \<Rightarrow> Some s | Some v \<Rightarrow> Some v))"
  using assms
  by (induction base)
    (auto simp: overridden_key, auto simp: overridden_def override_index_lookup split: option.splits)

lemma lookup_filter_unseen:
  "lookup_key key base k = None \<Longrightarrow>
   lookup_key key (filter (unseen key base) ov) k = lookup_key key ov k"
  by (induction ov) (auto simp: unseen_def lookup_key_None)

lemma lookup_merge:
  assumes "distinct (keys_of key ov)"
  shows "lookup_key key (merge_keyed key base ov) k =
    (case lookup_key key ov k of Some v \<Rightarrow> Some v | None \<Rightarrow> lookup_key key base k)"
  using assms
  by (auto simp: merge_keyed_def lookup_map_overridden lookup_filter_unseen split: option.splits)

lemma filter_map_overridden:
  "distinct (keys_of key ov) \<Longrightarrow>
   filter (unseen key a) (map (overridden key ov) xs) = map (overridden key ov) (filter (unseen key a) xs)"
  by (induction xs) (auto simp: unseen_def overridden_key)

lemma overridden_merge:
  assumes "distinct (keys_of key b)" "distinct (keys_of key c)"
  shows "overridden key (merge_keyed key b c) s = overridden key c (overridden key b s)"
  using assms
  by (auto simp: overridden_def override_index_lookup distinct_keys_merge lookup_merge
      split: option.splits dest: lookup_key_Some)

lemma merge_keyed_assoc:
  assumes "distinct (keys_of key b)" "distinct (keys_of key c)"
  shows "merge_keyed key (merge_keyed key a b) c = merge_keyed key a (merge_keyed key b c)"
proof -
  have "filter (unseen key a) (filter (unseen key b) c) = filter (unseen key (merge_keyed key a b)) c"
    using assms by (auto simp: unseen_def keys_of_merge intro!: filter_cong split: option.splits)
  moreover have "map (overridden key (merge_keyed key b c)) a
      = map (overridden key c) (map (overridden key b) a)"
    using assms by (simp add: overridden_merge)
  ultimately show ?thesis
    using assms by (simp add: merge_keyed_def filter_map_overridden [symmetric])
qed

subsection \<open>Services, hooks and the configuration\<close>

abbreviation svc_key :: "service_config \<Rightarrow> string option" where
  "svc_key s \<equiv> Some (svc_name s)"

definition hook_key :: "hook_config \<Rightarrow> string option" where
  "hook_key h = (if hk_name h = [] then None else Some (hk_name h))"

definition merge_services :: "service_config list \<Rightarrow> service_config list \<Rightarrow> service_config list" where
  "merge_services base ov = merge_keyed svc_key base ov"

definition merge_hooks :: "hook_config list \<Rightarrow> hook_config list \<Rightarrow> hook_config list" where
  "merge_hooks base ov = merge_keyed hook_key base ov"

definition or_string :: "string \<Rightarrow> string \<Rightarrow> string" where
  "or_string a b = (if a = [] then b else a)"

definition or_int :: "int \<Rightarrow> int \<Rightarrow> int" where
  "or_int a b = (if a = 0 then b else a)"

definition merge_supervisor :: "supervisor_config \<Rightarrow> supervisor_config \<Rightarrow> supervisor_config" where
  "merge_supervisor base ov =
     \<lparr>sup_max_restarts = or_int (sup_max_restarts ov) (sup_max_restarts base),
      sup_health_check_interval = or_string (sup_health_check_interval ov) (sup_health_check_interval base),
      sup_health_check_threshold = or_int (sup_health_check_threshold ov) (sup_health_check_threshold base),
      sup_ready_timeout = or_string (sup_ready_timeout ov) (sup_ready_timeout base),
      sup_backoff_initial = or_string (sup_backoff_initial ov) (sup_backoff_initial base),
      sup_backoff_max = or_string (sup_backoff_max ov) (sup_backoff_max base),
      sup_max_connection_age = or_string (sup_max_connection_age ov) (sup_max_connection_age base),
      sup_connection_mode = or_string (sup_connection_mode ov) (sup_connection_mode base)\<rparr>"

definition merge_configs :: "config \<Rightarrow> config \<Rightarrow> config" where
  "merge_configs base ov =
     ov\<lparr>cfg_context := or_string (cfg_context ov) (cfg_context base),
        cfg_namespace := or_string (cfg_namespace ov) (cfg_namespace base),
        cfg_listen := or_string (cfg_listen ov) (cfg_listen base),
        cfg_api_key := or_string (cfg_api_key ov) (cfg_api_key base),
        cfg_key_id := or_string (cfg_key_id ov) (cfg_key_id base),
        cfg_host := or_string (cfg_host ov) (cfg_host base),
        cfg_log_file := or_string (cfg_log_file ov) (cfg_log_file base),
        cfg_log_level := or_string (cfg_log_level ov) (cfg_log_level base),
        cfg_supervisor := merge_supervisor (cfg_supervisor base) (cfg_supervisor ov),
        cfg_network := resolve_network (cfg_network base) (cfg_network ov),
        cfg_chaos := (if chaos_enabled (cfg_chaos ov) = None then cfg_chaos base else cfg_chaos ov),
        cfg_socks := (if px_enabled (cfg_socks ov) = None then cfg_socks base else cfg_socks ov),
        cfg_http_proxy :=
          (if px_enabled (cfg_http_proxy ov) = None then cfg_http_proxy base else cfg_http_proxy ov),
        cfg_services := merge_services (cfg_services base) (cfg_services ov),
        cfg_hooks := merge_hooks (cfg_hooks base) (cfg_hooks ov),
        cfg_extends := []\<rparr>"

definition resolve_connection_mode :: "supervisor_config \<Rightarrow> service_config \<Rightarrow> string" where
  "resolve_connection_mode global per_service =
     (if svc_connection_mode per_service \<noteq> [] then svc_connection_mode per_service
      else if sup_connection_mode global \<noteq> [] then sup_connection_mode global
      else ''mux'')"

lemma or_string_assoc [simp]: "or_string (or_string a b) c = or_string a (or_string b c)"
  by (simp add: or_string_def)

lemma or_int_assoc [simp]: "or_int (or_int a b) c = or_int a (or_int b c)"
  by (simp add: or_int_def)

lemma or_string_right [simp]: "or_string a [] = a"
  by (simp add: or_string_def)

lemma merge_supervisor_assoc:
  "merge_supervisor (merge_supervisor a b) c = merge_supervisor a (merge_supervisor b c)"
  by (simp add: merge_supervisor_def)

lemma keys_of_services: "keys_of svc_key svcs = map svc_name svcs"
  by (induction svcs) auto

text \<open>The service a name stands for.\<close>

definition service_named :: "service_config list \<Rightarrow> string \<Rightarrow> service_config option" where
  "service_named svcs n = List.find (\<lambda>s. svc_name s = n) svcs"

lemma service_named_key: "service_named svcs n = lookup_key svc_key svcs n"
  by (simp add: service_named_def lookup_key_def)

text \<open>The merged services are the child's over the parent's: a name stands for the child's
  definition if it has one, and for the parent's otherwise; the parent's names come first, in
  their order, then the child's new ones; no name is duplicated by the merge.\<close>

theorem merge_services_lookup:
  assumes "distinct (map svc_name ov)"
  shows "service_named (merge_services base ov) n =
      (case service_named ov n of Some s \<Rightarrow> Some s | None \<Rightarrow> service_named base n)
    \<and> map svc_name (merge_services base ov) =
        map svc_name base @ filter (\<lambda>k. k \<notin> set (map svc_name base)) (map svc_name ov)
    \<and> (distinct (map svc_name base) = distinct (map svc_name (merge_services base ov)))"
proof -
  have d: "distinct (keys_of svc_key ov)" using assms by (simp add: keys_of_services)
  have m: "map svc_name (merge_services base ov) =
      map svc_name base @ filter (\<lambda>k. k \<notin> set (map svc_name base)) (map svc_name ov)"
    using keys_of_merge [OF d, of base] by (simp only: keys_of_services merge_services_def)
  have l: "service_named (merge_services base ov) n =
      (case service_named ov n of Some s \<Rightarrow> Some s | None \<Rightarrow> service_named base n)"
    unfolding service_named_key merge_services_def by (rule lookup_merge [OF d])
  show ?thesis using assms unfolding l m by auto
qed

theorem merge_services_lookup_witness:
  "service_named (merge_services [zero_service\<lparr>svc_name := ''a'', svc_remote_port := 80\<rparr>]
       [zero_service\<lparr>svc_name := ''a'', svc_remote_port := 90\<rparr>]) ''a'' =
     Some (zero_service\<lparr>svc_name := ''a'', svc_remote_port := 90\<rparr>)"
  using merge_services_lookup [of "[zero_service\<lparr>svc_name := ''a'', svc_remote_port := 90\<rparr>]"
      "[zero_service\<lparr>svc_name := ''a'', svc_remote_port := 80\<rparr>]" "''a''"]
  by (simp add: service_named_def)

text \<open>Merging is associative, so an extends chain has one meaning whichever end it is resolved
  from.\<close>

theorem merge_configs_assoc:
  assumes "distinct (map svc_name (cfg_services b))" "distinct (map svc_name (cfg_services c))"
    and "distinct (keys_of hook_key (cfg_hooks b))" "distinct (keys_of hook_key (cfg_hooks c))"
  shows "merge_configs (merge_configs a b) c = merge_configs a (merge_configs b c)"
proof -
  have "merge_services (merge_services (cfg_services a) (cfg_services b)) (cfg_services c) =
      merge_services (cfg_services a) (merge_services (cfg_services b) (cfg_services c))"
    unfolding merge_services_def
    using assms(1,2) by (intro merge_keyed_assoc) (simp_all add: keys_of_services)
  moreover have "merge_hooks (merge_hooks (cfg_hooks a) (cfg_hooks b)) (cfg_hooks c) =
      merge_hooks (cfg_hooks a) (merge_hooks (cfg_hooks b) (cfg_hooks c))"
    unfolding merge_hooks_def using assms(3,4) by (intro merge_keyed_assoc)
  ultimately show ?thesis
    by (intro config.equality)
      (auto simp: merge_configs_def merge_supervisor_assoc resolve_network_assoc)
qed

theorem merge_configs_assoc_witness:
  "merge_configs (merge_configs (zero_config\<lparr>cfg_host := ''x''\<rparr>)
      (zero_config\<lparr>cfg_services := [zero_service\<lparr>svc_name := ''a''\<rparr>]\<rparr>)) zero_config =
   merge_configs (zero_config\<lparr>cfg_host := ''x''\<rparr>)
     (merge_configs (zero_config\<lparr>cfg_services := [zero_service\<lparr>svc_name := ''a''\<rparr>]\<rparr>) zero_config)"
  by (rule merge_configs_assoc) (simp_all add: zero_config_def)

text \<open>What the child says about a proxy counts only when it sets \<^verbatim>\<open>enabled\<close>: its other
  non-empty settings are dropped in favour of the parent's.\<close>

theorem merge_drops_proxy_settings:
  "\<exists>base ov. px_listen (cfg_socks ov) \<noteq> []
     \<and> px_listen (cfg_socks (merge_configs base ov)) \<noteq> px_listen (cfg_socks ov)"
proof -
  let ?ov = "zero_config\<lparr>cfg_socks := zero_proxy\<lparr>px_listen := ''127.0.0.1:1080''\<rparr>\<rparr>"
  have "px_listen (cfg_socks ?ov) \<noteq> []
     \<and> px_listen (cfg_socks (merge_configs zero_config ?ov)) \<noteq> px_listen (cfg_socks ?ov)"
    by (simp add: merge_configs_def zero_config_def zero_proxy_def)
  then show ?thesis by blast
qed

end
