(* ===== verification/Files.thy ===== *)
theory Files
  imports Merge
begin

text \<open>
  Configuration files and the runtime paths derived from them (\<^verbatim>\<open>pkg/config/config.go\<close>,
  \<^verbatim>\<open>resolveExtendsPath\<close> of \<^verbatim>\<open>merge.go\<close>): discovery, the central directory, the instance
  identifier, loading with the extends chain, migration of legacy event names, the TOML
  intermediate form, and saving.  The operating system is the record \<open>os_env\<close>: a finite store of
  files, the working and home directory and the environment.  The YAML and TOML codecs, SHA-256
  and the UUID generator are parameters.
\<close>

subsection \<open>The operating system\<close>

record os_env =
  os_home :: "string option"
  os_cwd :: string
  os_tmp :: string
  os_files :: "(string, string) gomap"
  os_vars :: "(string, string) gomap"
  os_writable :: "string \<Rightarrow> bool"
  os_cut :: "string \<Rightarrow> nat option"
  os_path_max :: nat

text \<open>Writing can fail when the file is opened or later; \<open>os_cut\<close> says of a path how much of the data such a
  later failure leaves in it.  A path the system finds too long (\<^verbatim>\<open>ENAMETOOLONG\<close>) cannot be opened.\<close>

definition read_file :: "os_env \<Rightarrow> string \<Rightarrow> string option" where
  "read_file env p =
     (if os_path_max env \<le> length p then None else gget (os_files env) (path_abs (os_cwd env) p))"

definition file_exists :: "os_env \<Rightarrow> string \<Rightarrow> bool" where
  "file_exists env p = (read_file env p \<noteq> None)"

definition getenv :: "os_env \<Rightarrow> string \<Rightarrow> string" where
  "getenv env v = gget0 [] (os_vars env) v"

subsection \<open>Runtime paths\<close>

definition config_names :: "string list" where
  "config_names = [''kubeport.yaml'', ''kubeport.yml'', ''kubeport.toml'']"

definition dot_config_names :: "string list" where
  "dot_config_names = [''.kubeport.yaml'', ''.kubeport.yml'', ''.kubeport.toml'']"

definition inside_dir :: "string \<Rightarrow> string \<Rightarrow> bool" where
  "inside_dir p d = (has_prefix p (d @ ''/'') \<or> p = d)"

text \<open>The best-effort creation of the directory is left out: its error is ignored by the code.\<close>

definition central_dir :: "os_env \<Rightarrow> string \<Rightarrow> string" where
  "central_dir env cfg_path =
     (case os_home env of
        None \<Rightarrow> os_tmp env
      | Some home \<Rightarrow>
          (let xdg = path_join [home, ''.config'', ''kubeport''];
               dot = path_join [home, ''.kubeport''];
               ab = path_abs (os_cwd env) cfg_path
           in if cfg_path \<noteq> [] \<and> inside_dir ab xdg then xdg
              else if cfg_path \<noteq> [] \<and> inside_dir ab dot then dot
              else if list_ex (\<lambda>n. file_exists env (path_join [xdg, n])) config_names then xdg
              else if list_ex (\<lambda>n. file_exists env (path_join [dot, n])) config_names then dot
              else xdg))"

definition safe_char :: "char \<Rightarrow> bool" where
  "safe_char c = (is_alnum c \<or> c = CHR ''_'')"

text \<open>
  \<^verbatim>\<open>strings.Map\<close> over the runes of a UTF-8 string: an unsafe rune becomes one hyphen, so the
  continuation bytes of a multi-byte rune vanish.
\<close>

definition sanitize_base :: "string \<Rightarrow> string" where
  "sanitize_base s =
     map (\<lambda>c. if safe_char c then c else CHR ''-'')
       (filter (\<lambda>c. \<not> (128 \<le> char_val c \<and> char_val c < 192)) s)"

definition hex_digit :: "nat \<Rightarrow> char" where
  "hex_digit n = (if n < 10 then char_of (48 + n) else char_of (87 + n))"

definition hex_encode :: "string \<Rightarrow> string" where
  "hex_encode s = concat (map (\<lambda>c. [hex_digit (char_val c div 16), hex_digit (char_val c mod 16)]) s)"

definition instance_id :: "os_env \<Rightarrow> (string \<Rightarrow> string) \<Rightarrow> config \<Rightarrow> string" where
  "instance_id env sha256 c =
     (let path = (if cfg_file_path c = [] then path_join [os_cwd env, ''_inline''] else cfg_file_path c);
          ab = path_abs (os_cwd env) path;
          base0 = path_base (path_dir ab);
          base = (if base0 = ''.'' \<or> base0 = [] \<or> base0 = ''/'' then ''kubeport'' else base0)
      in sanitize_base base @ ''-'' @ hex_encode (take 4 (sha256 ab)))"

definition pid_file :: "os_env \<Rightarrow> (string \<Rightarrow> string) \<Rightarrow> config \<Rightarrow> string" where
  "pid_file env sha256 c = path_join [central_dir env (cfg_file_path c), instance_id env sha256 c @ ''.pid'']"

definition log_file :: "os_env \<Rightarrow> (string \<Rightarrow> string) \<Rightarrow> config \<Rightarrow> string" where
  "log_file env sha256 c =
     (if cfg_log_file c \<noteq> [] then cfg_log_file c
      else path_join [path_join [central_dir env (cfg_file_path c), ''logs''], instance_id env sha256 c @ ''.log''])"

definition socket_file :: "os_env \<Rightarrow> (string \<Rightarrow> string) \<Rightarrow> config \<Rightarrow> string" where
  "socket_file env sha256 c =
     (if has_prefix (cfg_listen c) ''sock://'' then trim_prefix (cfg_listen c) ''sock://''
      else path_join [central_dir env (cfg_file_path c), instance_id env sha256 c @ ''.sock''])"

definition resolved_key_id :: "(string \<Rightarrow> string \<Rightarrow> string) \<Rightarrow> config \<Rightarrow> string" where
  "resolved_key_id hmac_sha256 c =
     (if cfg_key_id c \<noteq> [] then cfg_key_id c
      else if cfg_api_key c = [] then []
      else hex_encode (take 8 (hmac_sha256 ''kubeport-key-id'' (cfg_api_key c))))"

definition listen_address :: "os_env \<Rightarrow> (string \<Rightarrow> string) \<Rightarrow> config \<Rightarrow> listen_config" where
  "listen_address env sha256 c =
     (if has_prefix (cfg_listen c) ''tcp://''
      then \<lparr>lc_mode = ListenTCP, lc_address = trim_prefix (cfg_listen c) ''tcp://''\<rparr>
      else \<lparr>lc_mode = ListenUnix, lc_address = socket_file env sha256 c\<rparr>)"

definition detect_format :: "string \<Rightarrow> format" where
  "detect_format path = (if to_lower (path_ext path) = ''.toml'' then FormatTOML else FormatYAML)"

text \<open>\<^verbatim>\<open>Discover\<close>: the first candidate that exists, in the documented order.\<close>

definition discover :: "os_env \<Rightarrow> string option" where
  "discover env =
     (case List.find (file_exists env) (config_names @ dot_config_names) of
        Some name \<Rightarrow> Some (path_abs (os_cwd env) name)
      | None \<Rightarrow>
          (case os_home env of
             None \<Rightarrow> None
           | Some home \<Rightarrow>
               List.find (file_exists env)
                 (map (\<lambda>n. path_join [home, ''.config'', ''kubeport'', n]) config_names @
                  map (\<lambda>n. path_join [home, ''.kubeport'', n]) config_names)))"

lemma hex_digit_safe: "n < 16 \<Longrightarrow> safe_char (hex_digit n)"
  by (auto simp: safe_char_def hex_digit_def is_alnum_def is_digit_def is_lower_def)

lemma hex_encode_safe: "list_all safe_char (hex_encode s)"
  by (induction s) (auto simp: hex_encode_def intro!: hex_digit_safe, simp add: less_mult_imp_div_less)

lemma hex_encode_inj: "hex_encode a = hex_encode b \<Longrightarrow> a = b"
proof (induction a arbitrary: b)
  case Nil
  then show ?case by (cases b) (auto simp: hex_encode_def)
next
  case (Cons x a)
  then obtain y b' where b: "b = y # b'" by (cases b) (auto simp: hex_encode_def)
  have inj: "m < 16 \<Longrightarrow> n < 16 \<Longrightarrow> hex_digit m = hex_digit n \<Longrightarrow> m = n" for m n
  proof -
    assume "m < 16" "n < 16" "hex_digit m = hex_digit n"
    then have "char_val (hex_digit m) = char_val (hex_digit n)" by simp
    with \<open>m < 16\<close> \<open>n < 16\<close> show "m = n" by (auto simp: hex_digit_def split: if_splits)
  qed
  have "char_val x div 16 = char_val y div 16" "char_val x mod 16 = char_val y mod 16"
    using Cons(2) b by (auto simp: hex_encode_def less_mult_imp_div_less intro!: inj)
  then have "char_val x = char_val y" by (metis div_mult_mod_eq)
  then show ?case using Cons b by (auto simp: hex_encode_def char_val_inj)
qed

text \<open>The instance identifier is safe in a file name: letters, digits, underscore and hyphen
  only, whatever the configuration path; so the PID, socket and log files stay in their
  directory.\<close>

theorem instance_id_safe:
  "list_all (\<lambda>c. safe_char c \<or> c = CHR ''-'') (instance_id env sha256 c)"
proof -
  have "list_all (\<lambda>c. safe_char c \<or> c = CHR ''-'') (hex_encode s)" for s
    using hex_encode_safe by (auto simp: list_all_iff)
  then show ?thesis by (auto simp: instance_id_def Let_def sanitize_base_def list_all_iff)
qed

subsection \<open>Legacy event names\<close>

definition legacy_event_names :: "(string \<times> string) list" where
  "legacy_event_names =
     [(''manager_starting'', ''manager:starting''), (''manager_stopped'', ''manager:stopped''),
      (''forward_connected'', ''forward:connected''),
      (''forward_disconnected'', ''forward:disconnected''),
      (''forward_failed'', ''forward:failed''), (''forward_stopped'', ''forward:stopped''),
      (''health_check_failed'', ''health:check_failed''), (''service_added'', ''service:added''),
      (''service_removed'', ''service:removed'')]"

definition new_event_name :: "string \<Rightarrow> string" where
  "new_event_name n = (case map_of legacy_event_names n of Some m \<Rightarrow> m | None \<Rightarrow> n)"

text \<open>The shell map is rebuilt in iteration order; the list order stands for that order.\<close>

definition migrate_hook_event_names :: "hook_config \<Rightarrow> hook_config" where
  "migrate_hook_event_names h =
     h\<lparr>hk_events := map new_event_name (hk_events h),
       hk_shell := (if 0 < length (hk_shell h)
                    then foldl (\<lambda>m (n, cmd). gset (new_event_name n) cmd m) [] (hk_shell h)
                    else hk_shell h)\<rparr>"

subsection \<open>The TOML intermediate form\<close>

record service_toml =
  st_name :: string
  st_service :: string
  st_pod :: string
  st_local_port :: int
  st_remote_port :: int
  st_namespace :: string
  st_ports :: "raw option"
  st_exclude_ports :: "string list"
  st_local_port_offset :: int
  st_network :: network_config
  st_chaos :: chaos_config
  st_lazy :: bool
  st_connection_mode :: string

record config_toml =
  ct_extends :: string
  ct_context :: string
  ct_namespace :: string
  ct_log_file :: string
  ct_log_level :: string
  ct_listen :: string
  ct_api_key :: string
  ct_key_id :: string
  ct_host :: string
  ct_services :: "service_toml list"
  ct_hooks :: "hook_config list"
  ct_supervisor :: supervisor_config
  ct_network :: network_config
  ct_chaos :: chaos_config
  ct_socks :: proxy_server_config
  ct_http_proxy :: proxy_server_config

definition service_of_toml :: "service_toml \<Rightarrow> (string \<times> ports_err) + service_config" where
  "service_of_toml rs =
     (let s = zero_service\<lparr>svc_name := st_name rs, svc_service := st_service rs, svc_pod := st_pod rs,
                svc_local_port := st_local_port rs, svc_remote_port := st_remote_port rs,
                svc_namespace := st_namespace rs, svc_exclude_ports := st_exclude_ports rs,
                svc_local_port_offset := st_local_port_offset rs, svc_network := st_network rs,
                svc_chaos := st_chaos rs, svc_lazy := st_lazy rs,
                svc_connection_mode := st_connection_mode rs\<rparr>
      in case st_ports rs of
           None \<Rightarrow> Inr s
         | Some v \<Rightarrow>
             (case parse_ports_from_raw v of
                Inl e \<Rightarrow> Inl (st_name rs, e)
              | Inr ports \<Rightarrow> Inr (s\<lparr>svc_ports := ports\<rparr>)))"

definition unmarshal_toml :: "config \<Rightarrow> config_toml \<Rightarrow> (string \<times> ports_err) + config" where
  "unmarshal_toml cfg r =
     (case map_result service_of_toml (ct_services r) of
        Inl e \<Rightarrow> Inl e
      | Inr svcs \<Rightarrow>
          Inr (cfg\<lparr>cfg_extends := ct_extends r, cfg_context := ct_context r,
                   cfg_namespace := ct_namespace r, cfg_log_file := ct_log_file r,
                   cfg_log_level := ct_log_level r, cfg_listen := ct_listen r,
                   cfg_api_key := ct_api_key r, cfg_key_id := ct_key_id r, cfg_host := ct_host r,
                   cfg_hooks := ct_hooks r, cfg_supervisor := ct_supervisor r,
                   cfg_network := ct_network r, cfg_chaos := ct_chaos r, cfg_socks := ct_socks r,
                   cfg_http_proxy := ct_http_proxy r, cfg_services := svcs\<rparr>))"

definition service_to_toml :: "service_config \<Rightarrow> service_toml" where
  "service_to_toml svc =
     \<lparr>st_name = svc_name svc, st_service = svc_service svc, st_pod = svc_pod svc,
      st_local_port = svc_local_port svc, st_remote_port = svc_remote_port svc,
      st_namespace = svc_namespace svc,
      st_ports = (case marshal_ports (svc_ports svc) of RNull \<Rightarrow> None | v \<Rightarrow> Some v),
      st_exclude_ports = svc_exclude_ports svc, st_local_port_offset = svc_local_port_offset svc,
      st_network = svc_network svc, st_chaos = svc_chaos svc, st_lazy = svc_lazy svc,
      st_connection_mode = svc_connection_mode svc\<rparr>"

definition marshal_toml :: "config \<Rightarrow> config_toml" where
  "marshal_toml c =
     \<lparr>ct_extends = cfg_extends c, ct_context = cfg_context c, ct_namespace = cfg_namespace c,
      ct_log_file = cfg_log_file c, ct_log_level = cfg_log_level c, ct_listen = cfg_listen c,
      ct_api_key = cfg_api_key c, ct_key_id = cfg_key_id c, ct_host = cfg_host c,
      ct_services = map service_to_toml (cfg_services c), ct_hooks = cfg_hooks c,
      ct_supervisor = cfg_supervisor c, ct_network = cfg_network c, ct_chaos = cfg_chaos c,
      ct_socks = cfg_socks c, ct_http_proxy = cfg_http_proxy c\<rparr>"

text \<open>What a configuration keeps when it is written: the runtime fields are not part of it.\<close>

definition persistent_service :: "service_config \<Rightarrow> service_config" where
  "persistent_service s = s\<lparr>svc_parent_name := [], svc_port_name := [], svc_source_config := []\<rparr>"

lemma parse_marshal_ports:
  "(case marshal_ports p of RNull \<Rightarrow> Inr zero_ports | v \<Rightarrow> parse_ports_from_raw v) = Inr p \<longleftrightarrow>
     toml_keeps p \<and> (pc_all p \<longrightarrow> pc_selectors p = [])"
proof (cases "ports_is_set p")
  case False
  then show ?thesis
    by (cases p) (auto simp: ports_is_set_def marshal_ports_def zero_ports_def toml_keeps_def)
next
  case True
  have "marshal_ports p \<noteq> RNull" using True by (auto simp: marshal_ports_def ports_is_set_def)
  then have "(case marshal_ports p of RNull \<Rightarrow> Inr zero_ports | v \<Rightarrow> parse_ports_from_raw v) =
      parse_ports_from_raw (marshal_ports p)" by (cases "marshal_ports p") simp_all
  moreover have "read_ports p = p \<longleftrightarrow> (pc_all p \<longrightarrow> pc_selectors p = [])" by (cases p) (auto simp: read_ports_def)
  ultimately show ?thesis using toml_ports_kept [OF True] toml_ports_read [OF True]
    by (cases "toml_keeps p") auto
qed

lemma service_toml_round_trip:
  "service_of_toml (service_to_toml s) = Inr (persistent_service s) \<longleftrightarrow>
     toml_keeps (svc_ports s) \<and> (pc_all (svc_ports s) \<longrightarrow> pc_selectors (svc_ports s) = [])"
  unfolding parse_marshal_ports [symmetric]
  by (cases "marshal_ports (svc_ports s)"; cases s)
    (auto simp: service_of_toml_def service_to_toml_def persistent_service_def zero_service_def
      split: sum.splits)

lemma map_result_eq:
  "(map_result f (map g xs) = Inr (map h xs)) = list_all (\<lambda>x. f (g x) = Inr (h x)) xs"
  by (induction xs) (auto split: sum.splits)

text \<open>C27: a configuration saved as TOML is read back exactly when its ports fields can be.  The
  result is the configuration with the fields of its services that are set at run time reset and
  without its path and format; it is so if and only if no service has selectors beside
  \<^verbatim>\<open>ports: all\<close>, and none that selects by plain names alone selects a port called \<^verbatim>\<open>all\<close>.\<close>

theorem toml_config_round_trip:
  "unmarshal_toml zero_config (marshal_toml c) =
      Inr (c\<lparr>cfg_services := map persistent_service (cfg_services c),
             cfg_file_path := [], cfg_format := FormatYAML\<rparr>) \<longleftrightarrow>
   list_all (\<lambda>s. (pc_all (svc_ports s) \<longrightarrow> pc_selectors (svc_ports s) = [])
      \<and> (\<not> pc_all (svc_ports s) \<and> list_all simple_selector (pc_selectors (svc_ports s))
          \<longrightarrow> ''all'' \<notin> set (map sel_name (pc_selectors (svc_ports s))))) (cfg_services c)"
proof -
  have "map_result service_of_toml (map service_to_toml (cfg_services c)) = Inr (map persistent_service (cfg_services c))
      \<longleftrightarrow> list_all (\<lambda>s. (pc_all (svc_ports s) \<longrightarrow> pc_selectors (svc_ports s) = [])
      \<and> (\<not> pc_all (svc_ports s) \<and> list_all simple_selector (pc_selectors (svc_ports s))
          \<longrightarrow> ''all'' \<notin> set (map sel_name (pc_selectors (svc_ports s))))) (cfg_services c)"
    unfolding map_result_eq service_toml_round_trip toml_keeps_def
    by (rule list.pred_cong) (auto simp: list_all_iff image_iff)
  moreover have "unmarshal_toml zero_config (marshal_toml c) =
      Inr (c\<lparr>cfg_services := map persistent_service (cfg_services c), cfg_file_path := [], cfg_format := FormatYAML\<rparr>)
      \<longleftrightarrow> map_result service_of_toml (map service_to_toml (cfg_services c)) = Inr (map persistent_service (cfg_services c))"
    by (cases c) (auto simp: unmarshal_toml_def marshal_toml_def zero_config_def split: sum.splits)
  ultimately show ?thesis by simp
qed

theorem toml_config_round_trip_witness:
  "unmarshal_toml zero_config (marshal_toml (zero_config\<lparr>cfg_services :=
     [zero_service\<lparr>svc_name := ''web'', svc_ports := \<lparr>pc_all = True, pc_selectors = []\<rparr>\<rparr>]\<rparr>)) =
   Inr (zero_config\<lparr>cfg_services :=
     [zero_service\<lparr>svc_name := ''web'', svc_ports := \<lparr>pc_all = True, pc_selectors = []\<rparr>\<rparr>]\<rparr>)"
  using toml_config_round_trip [of "zero_config\<lparr>cfg_services :=
     [zero_service\<lparr>svc_name := ''web'', svc_ports := \<lparr>pc_all = True, pc_selectors = []\<rparr>\<rparr>]\<rparr>"]
  by (simp add: persistent_service_def zero_config_def zero_service_def)

subsection \<open>Loading\<close>

datatype load_err =
    ReadFailed string
  | DecodeFailed string
  | PortsFailed string "string \<times> ports_err"
  | Circular string
  | HomeFailed
  | ParentFailed string load_err

text \<open>The decoders of the two formats, from file contents to the tagged structures.\<close>

record codecs =
  dec_yaml :: "string \<Rightarrow> config option"
  dec_toml :: "string \<Rightarrow> config_toml option"

definition decode_config :: "codecs \<Rightarrow> string \<Rightarrow> string \<Rightarrow> load_err + config" where
  "decode_config cd path data =
     (case detect_format path of
        FormatTOML \<Rightarrow>
          (case dec_toml cd data of
             None \<Rightarrow> Inl (DecodeFailed path)
           | Some r \<Rightarrow> wrap_err (PortsFailed path) (unmarshal_toml zero_config r))
      | FormatYAML \<Rightarrow>
          (case dec_yaml cd data of None \<Rightarrow> Inl (DecodeFailed path) | Some c \<Rightarrow> Inr c))"

definition load_raw :: "os_env \<Rightarrow> codecs \<Rightarrow> string \<Rightarrow> load_err + config" where
  "load_raw env cd path =
     (case read_file env path of
        None \<Rightarrow> Inl (ReadFailed path)
      | Some data \<Rightarrow>
          sbind (decode_config cd path data) (\<lambda>cfg.
            Inr (cfg\<lparr>cfg_file_path := path, cfg_format := detect_format path,
                     cfg_hooks := map migrate_hook_event_names (cfg_hooks cfg)\<rparr>)))"

definition resolve_extends_path :: "os_env \<Rightarrow> string \<Rightarrow> string \<Rightarrow> load_err + string" where
  "resolve_extends_path env ext cfg_file =
     sbind (if has_prefix ext ''~/'' then
              (case os_home env of
                 None \<Rightarrow> Inl HomeFailed
               | Some home \<Rightarrow> Inr (path_join [home, drop 2 ext]))
            else Inr ext)
       (\<lambda>e. Inr (clean_path (if is_abs e then e else path_join [path_dir cfg_file, e])))"

text \<open>
  The extends chain.  No path occurs twice on it, and a path that can be read is shorter than
  the system's limit, so the recursion ends; without that limit it need not, because a relative
  path that climbs above the root keeps growing.
\<close>

definition paths_left :: "os_env \<Rightarrow> string list \<Rightarrow> string set" where
  "paths_left env visiting = {p. length p < os_path_max env} - set visiting"

lemma load_raw_readable: "load_raw env cd path = Inr c \<Longrightarrow> length path < os_path_max env"
  by (auto simp: load_raw_def read_file_def split: option.splits if_splits)

lemma finite_paths_left: "finite (paths_left env visiting)"
proof -
  have "finite {p :: string. set p \<subseteq> UNIV \<and> length p \<le> os_path_max env}"
    by (rule finite_lists_length_le) simp
  then show ?thesis by (rule rev_finite_subset) (auto simp: paths_left_def)
qed

lemma paths_left_smaller:
  assumes "path \<notin> set visiting" "load_raw env cd path = Inr c"
  shows "card (paths_left env (visiting @ [path])) < card (paths_left env visiting)"
  using assms load_raw_readable
  by (intro psubset_card_mono finite_paths_left) (fastforce simp: paths_left_def)

function load_with_inheritance ::
    "os_env \<Rightarrow> codecs \<Rightarrow> string \<Rightarrow> string list \<Rightarrow> load_err + config" where
  "load_with_inheritance env cd path visiting =
     (if path \<in> set visiting then Inl (Circular path)
      else (case load_raw env cd path of
              Inl e \<Rightarrow> Inl e
            | Inr child \<Rightarrow>
                if cfg_extends child = [] then Inr child
                else (case resolve_extends_path env (cfg_extends child) path of
                        Inl e \<Rightarrow> Inl e
                      | Inr parent_path \<Rightarrow>
                          (case load_with_inheritance env cd parent_path (visiting @ [path]) of
                             Inl e \<Rightarrow> Inl (ParentFailed parent_path e)
                           | Inr parent \<Rightarrow> Inr (merge_configs parent child)))))"
  by pat_completeness auto
termination
  by (relation "measure (\<lambda>(env, cd, path, visiting). card (paths_left env visiting))")
    (auto simp: paths_left_smaller)

declare load_with_inheritance.simps [simp del]

definition override_env :: "os_env \<Rightarrow> config \<Rightarrow> config" where
  "override_env env cfg =
     cfg\<lparr>cfg_context := or_string (getenv env ''K8S_CONTEXT'') (cfg_context cfg),
         cfg_namespace := or_string (getenv env ''K8S_NAMESPACE'') (cfg_namespace cfg),
         cfg_api_key := or_string (getenv env ''KUBEPORT_API_KEY'') (cfg_api_key cfg)\<rparr>"

definition load_config :: "os_env \<Rightarrow> codecs \<Rightarrow> string \<Rightarrow> load_err + config" where
  "load_config env cd path =
     sbind (load_with_inheritance env cd path []) (\<lambda>cfg. Inr (override_env env cfg))"

definition load_for_edit :: "os_env \<Rightarrow> codecs \<Rightarrow> string \<Rightarrow> load_err + config" where
  "load_for_edit env cd path = load_raw env cd path"

datatype services_err = LoadErr load_err | OverlayInvalid nat svc_err

fun validate_each :: "nat \<Rightarrow> service_config list \<Rightarrow> services_err + unit" where
  "validate_each i [] = Inr ()"
| "validate_each i (svc # rest) =
     (case validate_service svc of Inl e \<Rightarrow> Inl (OverlayInvalid i e) | Inr _ \<Rightarrow> validate_each (Suc i) rest)"

definition load_services :: "os_env \<Rightarrow> codecs \<Rightarrow> string \<Rightarrow> services_err + service_config list" where
  "load_services env cd path =
     sbind (wrap_err LoadErr (load_raw env cd path)) (\<lambda>cfg.
     sbind (validate_each 0 (cfg_services cfg)) (\<lambda>_. Inr (cfg_services cfg)))"

text \<open>The files of a chain and what each of them says, from the child to the root.\<close>

inductive extends_chain :: "os_env \<Rightarrow> codecs \<Rightarrow> string \<Rightarrow> string list \<Rightarrow> config list \<Rightarrow> bool"
  for env cd where
  root: "load_raw env cd p = Inr c \<Longrightarrow> cfg_extends c = [] \<Longrightarrow> extends_chain env cd p [p] [c]"
| child: "load_raw env cd p = Inr c \<Longrightarrow> cfg_extends c \<noteq> [] \<Longrightarrow>
    resolve_extends_path env (cfg_extends c) p = Inr q \<Longrightarrow> extends_chain env cd q ps cs \<Longrightarrow>
    extends_chain env cd p (p # ps) (c # cs)"

inductive_cases extends_chain_cases: "extends_chain env cd p ps cs"

text \<open>Each configuration over everything above it.\<close>

fun fold_chain :: "config list \<Rightarrow> config" where
  "fold_chain [] = zero_config"
| "fold_chain [c] = c"
| "fold_chain (c # d # cs) = merge_configs (fold_chain (d # cs)) c"

lemma extends_chain_not_Nil: "extends_chain env cd p ps cs \<Longrightarrow> \<exists>d ds. cs = d # ds"
  by (induction rule: extends_chain.induct) auto

lemma load_chain_sound:
  "load_with_inheritance env cd p visiting = Inr r \<Longrightarrow>
   \<exists>ps cs. extends_chain env cd p ps cs \<and> distinct ps \<and> set ps \<inter> set visiting = {} \<and> r = fold_chain cs"
proof (induction env cd p visiting arbitrary: r rule: load_with_inheritance.induct)
  case (1 env cd p visiting)
  note load = 1(2) [unfolded load_with_inheritance.simps [of env cd p visiting]]
  then have p: "p \<notin> set visiting" by (auto split: if_splits)
  from load p obtain c where c: "load_raw env cd p = Inr c" by (auto split: sum.splits)
  show ?case
  proof (cases "cfg_extends c = []")
    case True
    with load p c have "r = c" by simp
    moreover have "extends_chain env cd p [p] [c]" using c True by (rule extends_chain.root)
    ultimately show ?thesis using p by (intro exI [of _ "[p]"] exI [of _ "[c]"]) simp
  next
    case False
    with load p c obtain q par where q: "resolve_extends_path env (cfg_extends c) p = Inr q"
      and par: "load_with_inheritance env cd q (visiting @ [p]) = Inr par"
      and r: "r = merge_configs par c" by (auto split: sum.splits)
    from 1(1) [OF p c False q par] obtain ps cs where ps: "extends_chain env cd q ps cs" "distinct ps"
      "set ps \<inter> set (visiting @ [p]) = {}" "par = fold_chain cs" by blast
    have "extends_chain env cd p (p # ps) (c # cs)" using c False q ps(1) by (rule extends_chain.child)
    moreover have "r = fold_chain (c # cs)" using r ps(4) extends_chain_not_Nil [OF ps(1)] by auto
    ultimately show ?thesis using p ps(2,3) by (intro exI [of _ "p # ps"] exI [of _ "c # cs"]) auto
  qed
qed

lemma load_chain_complete:
  "extends_chain env cd p ps cs \<Longrightarrow> distinct ps \<Longrightarrow> set ps \<inter> set visiting = {} \<Longrightarrow>
   load_with_inheritance env cd p visiting = Inr (fold_chain cs)"
proof (induction arbitrary: visiting rule: extends_chain.induct)
  case (root p c)
  then show ?case by (subst load_with_inheritance.simps) simp
next
  case (child p c q ps cs)
  have "load_with_inheritance env cd q (visiting @ [p]) = Inr (fold_chain cs)"
    using child.prems by (intro child.IH) auto
  then show ?case
    using child.hyps child.prems extends_chain_not_Nil [OF child.hyps(4)]
    by (subst load_with_inheritance.simps) auto
qed

text \<open>C15: loading succeeds exactly when the extends chain from the file ends in a file without
  \<^verbatim>\<open>extends\<close> and repeats no path; the result is each file merged over its parent.  Loading
  always returns, and a chain that comes back to a path is an error.\<close>

theorem load_follows_chain:
  "(load_with_inheritance env cd p [] = Inr r) =
     (\<exists>ps cs. extends_chain env cd p ps cs \<and> distinct ps \<and> r = fold_chain cs)"
  using load_chain_sound [of env cd p "[]" r] load_chain_complete [of env cd p _ _ "[]"] by auto

lemma loaded_extends_empty:
  "load_with_inheritance env cd p [] = Inr r \<Longrightarrow> cfg_extends r = []"
proof -
  have "extends_chain env cd p ps cs \<Longrightarrow> cfg_extends (fold_chain cs) = []" for p ps cs
  proof (induction rule: extends_chain.induct)
    case (child p c q ps cs)
    then show ?case using extends_chain_not_Nil [OF child(4)] by (auto simp: merge_configs_def)
  qed simp
  then show "load_with_inheritance env cd p [] = Inr r \<Longrightarrow> cfg_extends r = []"
    using load_chain_sound by blast
qed

subsection \<open>What a configuration inherits\<close>

text \<open>A setting comes from the first file of the chain, child first, that sets it, and from the root
  when none does.  A name stands for the entry of the first file that has one.\<close>

definition inherited :: "('a \<Rightarrow> bool) \<Rightarrow> (config \<Rightarrow> 'a) \<Rightarrow> config list \<Rightarrow> 'a" where
  "inherited is_set field cs = (case List.find (\<lambda>c. is_set (field c)) cs of Some c \<Rightarrow> field c | None \<Rightarrow> field (last cs))"

definition string_settings :: "(config \<Rightarrow> string) list" where
  "string_settings =
     [cfg_context, cfg_namespace, cfg_listen, cfg_api_key, cfg_key_id, cfg_host, cfg_log_file, cfg_log_level,
      \<lambda>c. sup_health_check_interval (cfg_supervisor c), \<lambda>c. sup_ready_timeout (cfg_supervisor c),
      \<lambda>c. sup_backoff_initial (cfg_supervisor c), \<lambda>c. sup_backoff_max (cfg_supervisor c),
      \<lambda>c. sup_max_connection_age (cfg_supervisor c), \<lambda>c. sup_connection_mode (cfg_supervisor c),
      \<lambda>c. net_latency (cfg_network c), \<lambda>c. net_jitter (cfg_network c), \<lambda>c. net_bandwidth (cfg_network c)]"

definition number_settings :: "(config \<Rightarrow> int) list" where
  "number_settings = [\<lambda>c. sup_max_restarts (cfg_supervisor c), \<lambda>c. sup_health_check_threshold (cfg_supervisor c)]"

definition first_entry :: "('a \<Rightarrow> string option) \<Rightarrow> string \<Rightarrow> 'a list list \<Rightarrow> 'a option" where
  "first_entry key n xss = (case List.find (\<lambda>xs. lookup_key key xs n \<noteq> None) xss of
     Some xs \<Rightarrow> lookup_key key xs n | None \<Rightarrow> None)"

definition names_in_order :: "string list list \<Rightarrow> string list" where
  "names_in_order xss = foldl (\<lambda>acc ks. acc @ filter (\<lambda>k. k \<notin> set acc) ks) [] xss"

lemma inherited_chain:
  assumes "\<And>b c. field (merge_configs b c) = (if is_set (field c) then field c else field b)" "cs \<noteq> []"
  shows "field (fold_chain cs) = inherited is_set field cs"
  using assms(2)
proof (induction cs rule: fold_chain.induct)
  case (3 c d cs)
  then show ?case by (auto simp: inherited_def assms(1) split: option.split)
qed (simp_all add: inherited_def)

lemma merged_strings:
  "list_all (\<lambda>field. \<forall>b c. field (merge_configs b c) = (if field c \<noteq> [] then field c else field b)) string_settings"
  by (simp add: string_settings_def merge_configs_def merge_supervisor_def resolve_network_def or_string_def)

lemma merged_numbers:
  "list_all (\<lambda>field. \<forall>b c. field (merge_configs b c) = (if field c \<noteq> 0 then field c else field b)) number_settings"
  by (simp add: number_settings_def merge_configs_def merge_supervisor_def or_int_def)

lemma chain_lists:
  assumes "\<And>b c. field (merge_configs b c) = merge_keyed key (field b) (field c)"
    and "\<forall>c \<in> set cs. distinct (keys_of key (field c))" "cs \<noteq> []"
  shows "lookup_key key (field (fold_chain cs)) n = first_entry key n (map field cs)
    \<and> keys_of key (field (fold_chain cs)) = names_in_order (map (\<lambda>c. keys_of key (field c)) (rev cs))"
  using assms(2,3)
proof (induction cs rule: fold_chain.induct)
  case (3 c d cs)
  then show ?case
    by (simp add: assms(1) lookup_merge keys_of_merge first_entry_def names_in_order_def split: option.splits)
qed (auto simp: first_entry_def names_in_order_def split: option.splits)

lemma unnamed_kept:
  "filter (\<lambda>x. key x = None) (merge_keyed key base ov) = filter (\<lambda>x. key x = None) base @ filter (\<lambda>x. key x = None) ov"
  if "distinct (keys_of key ov)"
proof -
  have "filter (\<lambda>x. key x = None) (map (overridden key ov) base) = filter (\<lambda>x. key x = None) base"
    using that by (induction base) (auto simp: overridden_key, simp add: overridden_def)
  moreover have "filter (\<lambda>x. key x = None) (filter (unseen key base) ov) = filter (\<lambda>x. key x = None) ov"
    by (auto simp: unseen_def intro!: filter_cong)
  ultimately show ?thesis by (simp add: merge_keyed_def)
qed

lemma chain_unnamed:
  assumes "\<forall>c \<in> set cs. distinct (keys_of hook_key (cfg_hooks c))" "cs \<noteq> []"
  shows "filter (\<lambda>h. hk_name h = []) (cfg_hooks (fold_chain cs)) =
      concat (map (\<lambda>c. filter (\<lambda>h. hk_name h = []) (cfg_hooks c)) (rev cs))"
proof -
  have k: "(hk_name h = []) = (hook_key h = None)" for h by (simp add: hook_key_def)
  show ?thesis unfolding k using assms
  proof (induction cs rule: fold_chain.induct)
    case (3 c d cs)
    then show ?case by (simp add: merge_configs_def merge_hooks_def unnamed_kept)
  qed simp_all
qed

lemma chain_named:
  assumes d: "\<forall>c \<in> set cs. distinct (map svc_name (cfg_services c)) \<and> distinct (keys_of hook_key (cfg_hooks c))"
    and ne: "cs \<noteq> []"
  shows "(\<forall>n. service_named (cfg_services (fold_chain cs)) n = first_entry svc_key n (map cfg_services cs)
        \<and> lookup_key hook_key (cfg_hooks (fold_chain cs)) n = first_entry hook_key n (map cfg_hooks cs))
    \<and> map svc_name (cfg_services (fold_chain cs)) = names_in_order (map (\<lambda>c. map svc_name (cfg_services c)) (rev cs))
    \<and> keys_of hook_key (cfg_hooks (fold_chain cs)) = names_in_order (map (\<lambda>c. keys_of hook_key (cfg_hooks c)) (rev cs))
    \<and> filter (\<lambda>h. hk_name h = []) (cfg_hooks (fold_chain cs)) =
        concat (map (\<lambda>c. filter (\<lambda>h. hk_name h = []) (cfg_hooks c)) (rev cs))"
proof -
  have ks: "keys_of svc_key xs = map svc_name xs" for xs by (rule keys_of_services)
  have s: "lookup_key svc_key (cfg_services (fold_chain cs)) n = first_entry svc_key n (map cfg_services cs)
    \<and> keys_of svc_key (cfg_services (fold_chain cs)) = names_in_order (map (\<lambda>c. keys_of svc_key (cfg_services c)) (rev cs))" for n
    by (rule chain_lists [OF _ _ ne]) (use d in \<open>simp_all add: merge_configs_def merge_services_def ks\<close>)
  have h: "lookup_key hook_key (cfg_hooks (fold_chain cs)) n = first_entry hook_key n (map cfg_hooks cs)
    \<and> keys_of hook_key (cfg_hooks (fold_chain cs)) = names_in_order (map (\<lambda>c. keys_of hook_key (cfg_hooks c)) (rev cs))" for n
    by (rule chain_lists [OF _ _ ne]) (use d in \<open>simp_all add: merge_configs_def merge_hooks_def\<close>)
  have u: "filter (\<lambda>h. hk_name h = []) (cfg_hooks (fold_chain cs)) =
      concat (map (\<lambda>c. filter (\<lambda>h. hk_name h = []) (cfg_hooks c)) (rev cs))"
    by (rule chain_unnamed [OF _ ne]) (use d in simp)
  show ?thesis using s h u by (simp only: service_named_key ks simp_thms)
qed

text \<open>C16: a loaded configuration has every setting from the file nearest to it that sets it.  Along
  its extends chain, child first, each text and each number is the first one that is not empty or
  zero; the chaos settings and each proxy's settings are, as a whole, those of the first file that
  says whether they are enabled, and the root's when none does; the file's own path stays.  When no
  file of the chain repeats a name of a service or hook, a name stands for the entry of the first
  file that has it, the names come in the order of the files from the root on, and the hooks without
  a name are all kept.\<close>

theorem inherited_settings:
  assumes "load_with_inheritance env cd p [] = Inr r"
  shows "\<exists>ps cs. extends_chain env cd p ps cs
    \<and> (\<forall>field \<in> set string_settings. field r = inherited (\<lambda>x. x \<noteq> []) field cs)
    \<and> (\<forall>field \<in> set number_settings. field r = inherited (\<lambda>x. x \<noteq> 0) field cs)
    \<and> cfg_chaos r = inherited (\<lambda>x. chaos_enabled x \<noteq> None) cfg_chaos cs
    \<and> cfg_socks r = inherited (\<lambda>x. px_enabled x \<noteq> None) cfg_socks cs
    \<and> cfg_http_proxy r = inherited (\<lambda>x. px_enabled x \<noteq> None) cfg_http_proxy cs
    \<and> cfg_file_path r = cfg_file_path (hd cs) \<and> cfg_extends r = []
    \<and> ((\<forall>c \<in> set cs. distinct (map svc_name (cfg_services c)) \<and> distinct (keys_of hook_key (cfg_hooks c))) \<longrightarrow>
         (\<forall>n. service_named (cfg_services r) n = first_entry svc_key n (map cfg_services cs)
            \<and> lookup_key hook_key (cfg_hooks r) n = first_entry hook_key n (map cfg_hooks cs))
         \<and> map svc_name (cfg_services r) = names_in_order (map (\<lambda>c. map svc_name (cfg_services c)) (rev cs))
         \<and> keys_of hook_key (cfg_hooks r) = names_in_order (map (\<lambda>c. keys_of hook_key (cfg_hooks c)) (rev cs))
         \<and> filter (\<lambda>h. hk_name h = []) (cfg_hooks r) =
             concat (map (\<lambda>c. filter (\<lambda>h. hk_name h = []) (cfg_hooks c)) (rev cs)))"
proof -
  from load_chain_sound [OF assms] obtain ps cs where ch: "extends_chain env cd p ps cs" and r: "r = fold_chain cs"
    by blast
  have ne: "cs \<noteq> []" using extends_chain_not_Nil [OF ch] by auto
  have strings: "field r = inherited (\<lambda>x. x \<noteq> []) field cs" if "field \<in> set string_settings" for field
  proof -
    have "field (merge_configs b c) = (if field c \<noteq> [] then field c else field b)" for b c
      using merged_strings that by (simp add: list_all_iff)
    then show ?thesis unfolding r using ne by (rule inherited_chain)
  qed
  have numbers: "field r = inherited (\<lambda>x. x \<noteq> 0) field cs" if "field \<in> set number_settings" for field
  proof -
    have "field (merge_configs b c) = (if field c \<noteq> 0 then field c else field b)" for b c
      using merged_numbers that by (simp add: list_all_iff)
    then show ?thesis unfolding r using ne by (rule inherited_chain)
  qed
  have wholes: "cfg_chaos r = inherited (\<lambda>x. chaos_enabled x \<noteq> None) cfg_chaos cs"
    "cfg_socks r = inherited (\<lambda>x. px_enabled x \<noteq> None) cfg_socks cs"
    "cfg_http_proxy r = inherited (\<lambda>x. px_enabled x \<noteq> None) cfg_http_proxy cs"
    unfolding r by (rule inherited_chain [OF _ ne], simp add: merge_configs_def)+
  have path: "cfg_file_path r = cfg_file_path (hd cs)"
    unfolding r by (cases cs rule: fold_chain.cases) (use ne in \<open>auto simp: merge_configs_def\<close>)
  show ?thesis
    by (intro exI [of _ ps] exI [of _ cs] conjI ballI ch strings numbers wholes path
        loaded_extends_empty [OF assms]) (assumption, assumption, rule impI, unfold r, rule chain_named [OF _ ne])
qed

definition chain_env :: os_env where
  "chain_env = \<lparr>os_home = None, os_cwd = ''/w'', os_tmp = ''/tmp'',
     os_files = [(''/w/a.yaml'', ''a''), (''/w/b.yaml'', ''b'')], os_vars = [],
     os_writable = (\<lambda>_. True), os_cut = (\<lambda>_. None), os_path_max = 100\<rparr>"

definition chain_codecs :: codecs where
  "chain_codecs = \<lparr>dec_yaml = (\<lambda>d.
       if d = ''a'' then Some (zero_config\<lparr>cfg_extends := ''b.yaml'', cfg_namespace := ''dev''\<rparr>)
       else Some (zero_config\<lparr>cfg_context := ''prod'', cfg_namespace := ''main'',
         cfg_services := [zero_service\<lparr>svc_name := ''web''\<rparr>]\<rparr>)),
     dec_toml = (\<lambda>_. None)\<rparr>"

definition chain_loaded :: config where
  "chain_loaded = zero_config\<lparr>cfg_context := ''prod'', cfg_namespace := ''dev'',
     cfg_services := [zero_service\<lparr>svc_name := ''web''\<rparr>], cfg_file_path := ''/w/a.yaml''\<rparr>"

lemma chain_loads: "load_with_inheritance chain_env chain_codecs ''/w/a.yaml'' [] = Inr chain_loaded"
  by code_simp

theorem inherited_settings_witness:
  "\<exists>ps cs. extends_chain chain_env chain_codecs ''/w/a.yaml'' ps cs
     \<and> inherited (\<lambda>x. x \<noteq> []) cfg_namespace cs = ''dev'' \<and> inherited (\<lambda>x. x \<noteq> []) cfg_context cs = ''prod''"
proof -
  have set: "cfg_namespace \<in> set string_settings" "cfg_context \<in> set string_settings"
    by (simp_all add: string_settings_def)
  have loaded: "cfg_namespace chain_loaded = ''dev''" "cfg_context chain_loaded = ''prod''"
    by (simp_all add: chain_loaded_def)
  from inherited_settings [OF chain_loads] obtain ps cs where
      ch: "extends_chain chain_env chain_codecs ''/w/a.yaml'' ps cs"
    and f: "\<forall>field \<in> set string_settings. field chain_loaded = inherited (\<lambda>x. x \<noteq> []) field cs" by blast
  from f set have "cfg_namespace chain_loaded = inherited (\<lambda>x. x \<noteq> []) cfg_namespace cs"
    "cfg_context chain_loaded = inherited (\<lambda>x. x \<noteq> []) cfg_context cs" by blast+
  with ch loaded show ?thesis by (intro exI conjI) simp_all
qed

subsection \<open>Saving and editing\<close>

datatype save_err = NoFilePath | EncodeFailed | MkdirFailed string | WriteFailed string | ConfigExists string

record encoders =
  enc_yaml :: "config \<Rightarrow> string option"
  enc_toml :: "config_toml \<Rightarrow> string option"

definition encode_config :: "encoders \<Rightarrow> format \<Rightarrow> config \<Rightarrow> string option" where
  "encode_config en fmt c =
     (case fmt of FormatTOML \<Rightarrow> enc_toml en (marshal_toml c) | FormatYAML \<Rightarrow> enc_yaml en c)"

definition write_file :: "os_env \<Rightarrow> string \<Rightarrow> string \<Rightarrow> os_env" where
  "write_file env path data = env\<lparr>os_files := gset (path_abs (os_cwd env) path) data (os_files env)\<rparr>"

text \<open>\<^verbatim>\<open>os.WriteFile\<close> opens the file, which empties it, and then writes: when the write fails, what was in
  the file is gone and the data is in it as far as it got.\<close>

definition put_file :: "os_env \<Rightarrow> string \<Rightarrow> string \<Rightarrow> bool \<times> os_env" where
  "put_file env path data =
     (if \<not> os_writable env path then (False, env)
      else (case os_cut env path of
              None \<Rightarrow> (True, write_file env path data)
            | Some n \<Rightarrow> (False, write_file env path (take n data))))"

lemma put_file_done: "put_file env path data = (True, env1) \<Longrightarrow> env1 = write_file env path data"
  by (auto simp: put_file_def split: if_splits option.splits)

text \<open>
  \<^verbatim>\<open>SaveTo\<close> updates the configuration it is called on: the result is the error, the
  configuration afterwards and the store afterwards.  \<open>uuid\<close> is the generated identifier.
\<close>

definition save_to ::
    "os_env \<Rightarrow> encoders \<Rightarrow> string \<Rightarrow> string \<Rightarrow> format \<Rightarrow> config \<Rightarrow> save_err option \<times> config \<times> os_env" where
  "save_to env en uuid path fmt c0 =
     (let c = (if cfg_api_key c0 \<noteq> [] \<and> cfg_key_id c0 = [] then c0\<lparr>cfg_key_id := uuid\<rparr> else c0)
      in case encode_config en fmt c of
           None \<Rightarrow> (Some EncodeFailed, c, env)
         | Some data \<Rightarrow>
             if \<not> os_writable env (path_dir path) then (Some (MkdirFailed (path_dir path)), c, env)
             else (case put_file env path data of
                     (False, env1) \<Rightarrow> (Some (WriteFailed path), c, env1)
                   | (True, env1) \<Rightarrow> (None, c\<lparr>cfg_file_path := path, cfg_format := fmt\<rparr>, env1)))"

definition save :: "os_env \<Rightarrow> encoders \<Rightarrow> string \<Rightarrow> config \<Rightarrow> save_err option \<times> config \<times> os_env" where
  "save env en uuid c =
     (if cfg_file_path c = [] then (Some NoFilePath, c, env)
      else save_to env en uuid (cfg_file_path c) (cfg_format c) c)"

definition init_config ::
    "os_env \<Rightarrow> encoders \<Rightarrow> string \<Rightarrow> string \<Rightarrow> format \<Rightarrow> (save_err + config) \<times> os_env" where
  "init_config env en uuid path fmt =
     (if file_exists env path then (Inl (ConfigExists path), env)
      else (case save_to env en uuid path fmt
                   (zero_config\<lparr>cfg_namespace := ''default'', cfg_file_path := path, cfg_format := fmt\<rparr>) of
              (Some e, c, env') \<Rightarrow> (Inl e, env')
            | (None, c, env') \<Rightarrow> (Inr c, env')))"

datatype edit_err = ServiceExists string | ServiceNotFound string

definition add_service :: "service_config \<Rightarrow> config \<Rightarrow> edit_err + config" where
  "add_service svc c =
     (if list_ex (\<lambda>e. svc_name e = svc_name svc) (cfg_services c) then Inl (ServiceExists (svc_name svc))
      else Inr (c\<lparr>cfg_services := cfg_services c @ [svc]\<rparr>))"

text \<open>The first service of that name is cut out of the slice.\<close>

fun remove_first :: "string \<Rightarrow> service_config list \<Rightarrow> service_config list option" where
  "remove_first name [] = None"
| "remove_first name (s # ss) =
     (if svc_name s = name then Some ss else map_option (Cons s) (remove_first name ss))"

definition remove_service :: "string \<Rightarrow> config \<Rightarrow> edit_err + config" where
  "remove_service name c =
     (case remove_first name (cfg_services c) of
        None \<Rightarrow> Inl (ServiceNotFound name)
      | Some ss \<Rightarrow> Inr (c\<lparr>cfg_services := ss\<rparr>))"

lemma name_taken: "(\<exists>e \<in> set ss. svc_name e = n) = (n \<in> svc_name ` set ss)"
  by force

lemma add_service_alt:
  "add_service svc c =
     (if svc_name svc \<in> set (map svc_name (cfg_services c)) then Inl (ServiceExists (svc_name svc))
      else Inr (c\<lparr>cfg_services := cfg_services c @ [svc]\<rparr>))"
  using name_taken [of "cfg_services c" "svc_name svc"] by (simp add: add_service_def list_ex_iff)

lemma remove_first_None: "remove_first n ss = None \<longleftrightarrow> n \<notin> set (map svc_name ss)"
  by (induction ss) auto

lemma remove_first_Some:
  "remove_first n ss = Some ts \<Longrightarrow> distinct (map svc_name ss) \<Longrightarrow> ts = filter (\<lambda>s. svc_name s \<noteq> n) ss"
proof (induction ss arbitrary: ts)
  case (Cons s ss)
  have "svc_name s \<noteq> n \<or> filter (\<lambda>t. svc_name t \<noteq> n) ss = ss"
    using Cons.prems(2) name_taken [of ss n] by (auto simp: filter_id_conv)
  with Cons show ?case by (auto split: if_splits)
qed simp

lemma remove_first_append:
  "n \<notin> set (map svc_name ss) \<Longrightarrow> svc_name s = n \<Longrightarrow> remove_first n (ss @ [s]) = Some ss"
  by (induction ss) auto

text \<open>Names stay unique under editing: adding is refused exactly when the name is taken,
  removing what was added gives the configuration back, and removing takes out exactly the
  service of that name.\<close>

theorem edit_services:
  assumes "distinct (map svc_name (cfg_services c))"
  shows "(is_ok (add_service svc c) = (svc_name svc \<notin> set (map svc_name (cfg_services c))))
    \<and> (\<forall>c'. add_service svc c = Inr c' \<longrightarrow>
         distinct (map svc_name (cfg_services c')) \<and> remove_service (svc_name svc) c' = Inr c)
    \<and> (\<forall>c'. remove_service n c = Inr c' \<longrightarrow>
         n \<in> set (map svc_name (cfg_services c))
         \<and> cfg_services c' = filter (\<lambda>s. svc_name s \<noteq> n) (cfg_services c))"
proof -
  have "is_ok (add_service svc c) = (svc_name svc \<notin> set (map svc_name (cfg_services c)))"
    by (simp add: add_service_alt)
  moreover have "distinct (map svc_name (cfg_services c')) \<and> remove_service (svc_name svc) c' = Inr c"
    if "add_service svc c = Inr c'" for c'
    using that assms remove_first_append [of "svc_name svc" "cfg_services c" svc]
    by (auto simp: add_service_alt remove_service_def simp del: set_map split: if_splits)
  moreover have "n \<in> set (map svc_name (cfg_services c))
      \<and> cfg_services c' = filter (\<lambda>s. svc_name s \<noteq> n) (cfg_services c)"
    if "remove_service n c = Inr c'" for c'
    using that assms remove_first_None [of n "cfg_services c"]
    by (auto simp: remove_service_def dest: remove_first_Some split: option.splits)
  ultimately show ?thesis by blast
qed

theorem edit_services_witness:
  "add_service (zero_service\<lparr>svc_name := ''a''\<rparr>) zero_config =
     Inr (zero_config\<lparr>cfg_services := [zero_service\<lparr>svc_name := ''a''\<rparr>]\<rparr>)
   \<and> remove_service ''a'' (zero_config\<lparr>cfg_services := [zero_service\<lparr>svc_name := ''a''\<rparr>]\<rparr>) = Inr zero_config"
proof -
  have a: "add_service (zero_service\<lparr>svc_name := ''a''\<rparr>) zero_config =
     Inr (zero_config\<lparr>cfg_services := [zero_service\<lparr>svc_name := ''a''\<rparr>]\<rparr>)"
    by (simp add: add_service_def zero_config_def)
  moreover have "distinct (map svc_name (cfg_services zero_config))" by (simp add: zero_config_def)
  ultimately have "remove_service (svc_name (zero_service\<lparr>svc_name := ''a''\<rparr>))
      (zero_config\<lparr>cfg_services := [zero_service\<lparr>svc_name := ''a''\<rparr>]\<rparr>) = Inr zero_config"
    using edit_services [of zero_config "zero_service\<lparr>svc_name := ''a''\<rparr>"] by blast
  with a show ?thesis by simp
qed

end
