(* ===== verification/Ports.thy ===== *)
theory Ports
  imports Files
begin

text \<open>
  What the manager asks Kubernetes (\<^verbatim>\<open>internal/proxy/manager.go\<close>): the ports of a multi-port
  service or pod, and the pod and target port a forward connects to.  The answers of the API
  server are parameters; the records keep the fields of the API objects the code reads.
\<close>

subsection \<open>API objects\<close>

datatype int_or_string = IntPort int | NamedPort string

record service_port =
  sp_name :: string
  sp_port :: int
  sp_target :: int_or_string

record k8s_service =
  ks_ports :: "service_port list"
  ks_selector :: "(string, string) gomap"

record container_port =
  cp_name :: string
  cp_port :: int

record k8s_pod =
  pod_name :: string
  pod_running :: bool
  pod_deleting :: bool
  pod_conditions :: "(string \<times> string) list"
  pod_containers :: "container_port list list"

record resolved_port =
  rp_name :: string
  rp_remote_port :: int
  rp_local_port :: int

datatype resolve_err =
    NoClient
  | GetServiceFailed string string
  | GetPodFailed string string
  | PortNotFound string string
  | LocalPortOutOfRange string int int
  | NothingResolved string
  | NoSelector string
  | ListPodsFailed string
  | NoRunningPods string

text \<open>The API server: one namespace-and-name lookup for services and pods, and the pod list of a
  selector.\<close>

record k8s_api =
  api_service :: "string \<Rightarrow> string \<Rightarrow> k8s_service option"
  api_pod :: "string \<Rightarrow> string \<Rightarrow> k8s_pod option"
  api_pods :: "string \<Rightarrow> (string, string) gomap \<Rightarrow> k8s_pod list option"

subsection \<open>Multi-port resolution\<close>

definition exclude_set :: "service_config \<Rightarrow> string list" where
  "exclude_set svc = svc_exclude_ports svc"

text \<open>The overrides are keyed by port name: a selector without a name is not among them.\<close>

definition selector_overrides :: "service_config \<Rightarrow> (string, port_selector) gomap" where
  "selector_overrides svc =
     foldl (\<lambda>m sel. if sel_name sel \<noteq> [] then gset (sel_name sel) sel m else m) []
       (pc_selectors (svc_ports svc))"

definition compute_local_port :: "(string, port_selector) gomap \<Rightarrow> string \<Rightarrow> int \<Rightarrow> int \<Rightarrow> int" where
  "compute_local_port overrides port_name remote_port offset =
     (case gget overrides port_name of
        Some sel \<Rightarrow>
          if sel_local_port sel \<noteq> 0 then sel_local_port sel
          else if 0 < offset then wrap64 (remote_port + offset) else 0
      | None \<Rightarrow> if 0 < offset then wrap64 (remote_port + offset) else 0)"

definition matches_selector :: "string \<Rightarrow> int \<Rightarrow> port_selector \<Rightarrow> bool" where
  "matches_selector name port sel =
     ((sel_name sel \<noteq> [] \<and> name = sel_name sel) \<or> (sel_port sel \<noteq> 0 \<and> port = sel_port sel))"

text \<open>One service port per selector: the first that matches.\<close>

definition select_port :: "service_config \<Rightarrow> service_port list \<Rightarrow> port_selector \<Rightarrow> resolve_err + service_port" where
  "select_port svc ports sel =
     (case List.find (\<lambda>sp. matches_selector (sp_name sp) (sp_port sp) sel) ports of
        Some sp \<Rightarrow> Inr sp
      | None \<Rightarrow> Inl (PortNotFound (if sel_name sel = [] then itoa (sel_port sel) else sel_name sel) (target svc)))"

text \<open>The loop that leaves out the excluded ports and computes the local ports.\<close>

fun resolve_loop :: "service_config \<Rightarrow> (string \<times> int) list \<Rightarrow> resolve_err + resolved_port list" where
  "resolve_loop svc [] = Inr []"
| "resolve_loop svc ((name, port) # rest) =
     (if name \<in> set (exclude_set svc) then resolve_loop svc rest
      else (let lp = compute_local_port (selector_overrides svc) name port (svc_local_port_offset svc)
            in if lp < 0 \<or> 65535 < lp then Inl (LocalPortOutOfRange name lp port)
               else (case resolve_loop svc rest of
                       Inl e \<Rightarrow> Inl e
                     | Inr rs \<Rightarrow>
                         Inr (\<lparr>rp_name = name, rp_remote_port = port, rp_local_port = lp\<rparr> # rs))))"

definition non_empty :: "service_config \<Rightarrow> resolved_port list \<Rightarrow> resolve_err + resolved_port list" where
  "non_empty svc rs = (if rs = [] then Inl (NothingResolved (target svc)) else Inr rs)"

definition resolve_pod_ports :: "k8s_api \<Rightarrow> string \<Rightarrow> service_config \<Rightarrow> resolve_err + resolved_port list" where
  "resolve_pod_ports api namespace svc =
     (case api_pod api namespace (target svc) of
        None \<Rightarrow> Inl (GetPodFailed namespace (target svc))
      | Some pod \<Rightarrow>
          sbind (resolve_loop svc
                   (map (\<lambda>cp. (cp_name cp, cp_port cp))
                     (filter (\<lambda>cp. pc_all (svc_ports svc)
                                \<or> list_ex (matches_selector (cp_name cp) (cp_port cp))
                                     (pc_selectors (svc_ports svc)))
                       (concat (pod_containers pod)))))
            (non_empty svc))"

definition resolve_service_ports ::
    "k8s_api option \<Rightarrow> string \<Rightarrow> service_config \<Rightarrow> resolve_err + resolved_port list" where
  "resolve_service_ports clientset namespace svc =
     (case clientset of
        None \<Rightarrow> Inl NoClient
      | Some api \<Rightarrow>
          if is_pod svc then resolve_pod_ports api namespace svc
          else (case api_service api namespace (target svc) of
                  None \<Rightarrow> Inl (GetServiceFailed namespace (target svc))
                | Some service \<Rightarrow>
                    sbind (if pc_all (svc_ports svc) then Inr (ks_ports service)
                           else map_result (select_port svc (ks_ports service)) (pc_selectors (svc_ports svc)))
                      (\<lambda>ports.
                    sbind (resolve_loop svc (map (\<lambda>sp. (sp_name sp, sp_port sp)) ports))
                      (non_empty svc))))"

lemma resolve_loop_entries:
  "resolve_loop svc ps = Inr rs \<Longrightarrow>
   map (\<lambda>r. (rp_name r, rp_remote_port r)) rs = filter (\<lambda>(n, p). n \<notin> set (exclude_set svc)) ps"
proof (induction ps arbitrary: rs)
  case (Cons np ps)
  then show ?case by (cases np) (auto simp: Let_def split: if_splits sum.splits)
qed simp

lemma resolve_loop_ports:
  "resolve_loop svc ps = Inr rs \<Longrightarrow> r \<in> set rs \<Longrightarrow>
   rp_local_port r = compute_local_port (selector_overrides svc) (rp_name r) (rp_remote_port r)
       (svc_local_port_offset svc)
   \<and> 0 \<le> rp_local_port r \<and> rp_local_port r \<le> 65535"
proof (induction ps arbitrary: rs)
  case (Cons np ps)
  then show ?case by (cases np) (auto simp: Let_def split: if_splits sum.splits)
qed simp

lemma select_port_Inr:
  "select_port svc ports sel = Inr sp \<Longrightarrow>
   sp \<in> set ports \<and> matches_selector (sp_name sp) (sp_port sp) sel"
  by (auto simp: select_port_def find_Some_iff split: option.splits)

text \<open>The names and numbers of the ports that a service or a pod declares, and those among them that a
  configuration asks for.\<close>

definition declared_ports :: "k8s_api \<Rightarrow> string \<Rightarrow> service_config \<Rightarrow> (string \<times> int) list option" where
  "declared_ports api namespace svc =
     (if is_pod svc
      then map_option (\<lambda>pod. map (\<lambda>cp. (cp_name cp, cp_port cp)) (concat (pod_containers pod)))
             (api_pod api namespace (target svc))
      else map_option (\<lambda>service. map (\<lambda>sp. (sp_name sp, sp_port sp)) (ks_ports service))
             (api_service api namespace (target svc)))"

definition wanted :: "service_config \<Rightarrow> string \<times> int \<Rightarrow> bool" where
  "wanted svc np =
     (fst np \<notin> set (svc_exclude_ports svc)
      \<and> (pc_all (svc_ports svc)
         \<or> (\<exists>sel \<in> set (pc_selectors (svc_ports svc)).
              (sel_name sel \<noteq> [] \<and> fst np = sel_name sel) \<or> (sel_port sel \<noteq> 0 \<and> snd np = sel_port sel))))"

lemma wanted_alt:
  "wanted svc (n, p) = (n \<notin> set (exclude_set svc)
     \<and> (pc_all (svc_ports svc) \<or> list_ex (matches_selector n p) (pc_selectors (svc_ports svc))))"
  by (simp add: wanted_def exclude_set_def list_ex_iff matches_selector_def)

lemma find_mapped: "List.find P (map f xs) = map_option f (List.find (\<lambda>x. P (f x)) xs)"
  by (induction xs) auto

lemma map_result_all: "map_result f xs = Inr ys \<Longrightarrow> x \<in> set xs \<Longrightarrow> \<exists>y \<in> set ys. f x = Inr y"
  by (induction xs arbitrary: ys) (auto split: sum.splits)

text \<open>The entries that go into the loop: all wanted ones in their order, or one for each selector.\<close>

lemma resolved_from_declared:
  assumes "resolve_service_ports (Some api) ns svc = Inr rs"
  obtains ds ps where "declared_ports api ns svc = Some ds" "resolve_loop svc ps = Inr rs" "rs \<noteq> []"
    "set ps \<subseteq> set ds" "filter (\<lambda>(n, p). n \<notin> set (exclude_set svc)) ps = filter (wanted svc) ps"
    "is_pod svc \<or> pc_all (svc_ports svc) \<Longrightarrow> filter (wanted svc) ps = filter (wanted svc) ds"
    "\<And>sel. \<not> is_pod svc \<Longrightarrow> \<not> pc_all (svc_ports svc) \<Longrightarrow> sel \<in> set (pc_selectors (svc_ports svc)) \<Longrightarrow>
       \<exists>np. List.find (\<lambda>(n, p). matches_selector n p sel) ds = Some np \<and> np \<in> set ps"
proof (cases "is_pod svc")
  case True
  with assms obtain pod where pod: "api_pod api ns (target svc) = Some pod"
    and loop: "resolve_loop svc (map (\<lambda>cp. (cp_name cp, cp_port cp))
        (filter (\<lambda>cp. pc_all (svc_ports svc) \<or> list_ex (matches_selector (cp_name cp) (cp_port cp))
            (pc_selectors (svc_ports svc))) (concat (pod_containers pod)))) = Inr rs" and ne: "rs \<noteq> []"
    by (auto simp: resolve_service_ports_def resolve_pod_ports_def non_empty_def sbind_Inr_iff
        split: option.splits if_splits)
  let ?ds = "map (\<lambda>cp. (cp_name cp, cp_port cp)) (concat (pod_containers pod))"
  let ?P = "\<lambda>(n, p). pc_all (svc_ports svc) \<or> list_ex (matches_selector n p) (pc_selectors (svc_ports svc))"
  have ps: "map (\<lambda>cp. (cp_name cp, cp_port cp))
        (filter (\<lambda>cp. pc_all (svc_ports svc) \<or> list_ex (matches_selector (cp_name cp) (cp_port cp))
            (pc_selectors (svc_ports svc))) (concat (pod_containers pod))) = filter ?P ?ds"
    by (simp add: filter_map comp_def)
  show thesis
  proof (rule that)
    show "declared_ports api ns svc = Some ?ds" using True pod by (simp add: declared_ports_def)
    show "resolve_loop svc (filter ?P ?ds) = Inr rs" using loop unfolding ps .
    show "filter (\<lambda>(n, p). n \<notin> set (exclude_set svc)) (filter ?P ?ds) = filter (wanted svc) (filter ?P ?ds)"
      by (auto simp: wanted_alt intro!: filter_cong)
    show "filter (wanted svc) (filter ?P ?ds) = filter (wanted svc) ?ds"
      by (auto simp: wanted_alt intro!: filter_cong)
  qed (use ne True in auto)
next
  case False
  with assms obtain service ports where service: "api_service api ns (target svc) = Some service"
    and ports: "(if pc_all (svc_ports svc) then Inr (ks_ports service)
        else map_result (select_port svc (ks_ports service)) (pc_selectors (svc_ports svc))) = Inr ports"
    and loop: "resolve_loop svc (map (\<lambda>sp. (sp_name sp, sp_port sp)) ports) = Inr rs" and ne: "rs \<noteq> []"
    by (auto simp: resolve_service_ports_def non_empty_def sbind_Inr_iff split: option.splits if_splits)
  let ?ds = "map (\<lambda>sp. (sp_name sp, sp_port sp)) (ks_ports service)"
  let ?ps = "map (\<lambda>sp. (sp_name sp, sp_port sp)) ports"
  have sel: "sp \<in> set (ks_ports service) \<and> (pc_all (svc_ports svc)
      \<or> list_ex (matches_selector (sp_name sp) (sp_port sp)) (pc_selectors (svc_ports svc)))"
    if "sp \<in> set ports" for sp
  proof (cases "pc_all (svc_ports svc)")
    case True
    with ports that show ?thesis by simp
  next
    case not_all: False
    with ports that obtain s where "s \<in> set (pc_selectors (svc_ports svc))"
      "select_port svc (ks_ports service) s = Inr sp"
      using map_result_mem by fastforce
    then show ?thesis using select_port_Inr by (fastforce simp: list_ex_iff)
  qed
  show thesis
  proof (rule that)
    show "declared_ports api ns svc = Some ?ds" using False service by (simp add: declared_ports_def)
    show "resolve_loop svc ?ps = Inr rs" by (rule loop)
    show "set ?ps \<subseteq> set ?ds" using sel by auto
    show "filter (\<lambda>(n, p). n \<notin> set (exclude_set svc)) ?ps = filter (wanted svc) ?ps"
    proof (rule filter_cong [OF refl])
      fix np assume "np \<in> set ?ps"
      then obtain sp where "sp \<in> set ports" "np = (sp_name sp, sp_port sp)" by auto
      then show "(case np of (n, p) \<Rightarrow> n \<notin> set (exclude_set svc)) = wanted svc np"
        using sel [of sp] by (simp add: wanted_alt)
    qed
    show "filter (wanted svc) ?ps = filter (wanted svc) ?ds" if "is_pod svc \<or> pc_all (svc_ports svc)"
      using that False ports by simp
    show "\<exists>np. List.find (\<lambda>(n, p). matches_selector n p sel) ?ds = Some np \<and> np \<in> set ?ps"
      if "\<not> pc_all (svc_ports svc)" "sel \<in> set (pc_selectors (svc_ports svc))" for sel
    proof -
      have "map_result (select_port svc (ks_ports service)) (pc_selectors (svc_ports svc)) = Inr ports"
        using ports that(1) by simp
      from map_result_all [OF this that(2)] obtain sp where sp: "sp \<in> set ports"
        "select_port svc (ks_ports service) sel = Inr sp" by blast
      then have "List.find (\<lambda>sp. matches_selector (sp_name sp) (sp_port sp) sel) (ks_ports service) = Some sp"
        by (simp add: select_port_def split: option.splits)
      then have "List.find (\<lambda>(n, p). matches_selector n p sel) ?ds = Some (sp_name sp, sp_port sp)"
        by (simp add: find_mapped)
      then show ?thesis using sp(1) by auto
    qed
  qed (use ne in auto)
qed

text \<open>C37: what a multi-port service or pod resolves to.  The result is not empty, its local ports are from
  0 to 65535, and each of its ports is one that the service or the pod declares, that the
  configuration selects by name or number, and that it does not exclude.  With \<^verbatim>\<open>ports: all\<close>, and for a
  pod always, the result is all of these ports, in the order in which they are declared; for a service
  with selectors, every selector matches a declared port, and the first one it matches is in the
  result unless it is excluded.\<close>

theorem resolved_ports_sound:
  assumes "resolve_service_ports (Some api) ns svc = Inr rs"
  shows "\<exists>ds. declared_ports api ns svc = Some ds \<and> rs \<noteq> []
    \<and> list_all (\<lambda>r. 0 \<le> rp_local_port r \<and> rp_local_port r \<le> 65535
        \<and> (rp_name r, rp_remote_port r) \<in> set ds \<and> wanted svc (rp_name r, rp_remote_port r)) rs
    \<and> (is_pod svc \<or> pc_all (svc_ports svc) \<longrightarrow>
        map (\<lambda>r. (rp_name r, rp_remote_port r)) rs = filter (wanted svc) ds)
    \<and> (\<forall>sel \<in> set (pc_selectors (svc_ports svc)). \<not> is_pod svc \<and> \<not> pc_all (svc_ports svc) \<longrightarrow>
        (\<exists>n p. List.find (\<lambda>(n, p). (sel_name sel \<noteq> [] \<and> n = sel_name sel) \<or> (sel_port sel \<noteq> 0 \<and> p = sel_port sel)) ds
              = Some (n, p)
            \<and> (n \<notin> set (svc_exclude_ports svc) \<longrightarrow> (n, p) \<in> (\<lambda>r. (rp_name r, rp_remote_port r)) ` set rs)))"
proof -
  let ?np = "\<lambda>r. (rp_name r, rp_remote_port r)"
  have m: "matches_selector n p sel = ((sel_name sel \<noteq> [] \<and> n = sel_name sel) \<or> (sel_port sel \<noteq> 0 \<and> p = sel_port sel))"
    for n p sel by (simp add: matches_selector_def)
  show ?thesis
  proof (rule resolved_from_declared [OF assms], goal_cases)
    case (1 ds ps)
    note d = 1(1-4) and f = 1(5) and all = 1(6) and sels = 1(7)
    have e: "map ?np rs = filter (wanted svc) ps" using resolve_loop_entries [OF d(2)] f by simp
    have in_rs: "?np ` set rs = set (filter (wanted svc) ps)" using e by (metis set_map)
    have each: "0 \<le> rp_local_port r \<and> rp_local_port r \<le> 65535 \<and> ?np r \<in> set ds \<and> wanted svc (?np r)" if "r \<in> set rs" for r
    proof -
      have "?np r \<in> set (filter (wanted svc) ps)" using that in_rs by blast
      then show ?thesis using resolve_loop_ports [OF d(2) that] d(4) by auto
    qed
    have first: "\<exists>n p. List.find (\<lambda>(n, p). matches_selector n p sel) ds = Some (n, p)
        \<and> (n \<notin> set (svc_exclude_ports svc) \<longrightarrow> (n, p) \<in> ?np ` set rs)"
      if "\<not> is_pod svc" "\<not> pc_all (svc_ports svc)" "sel \<in> set (pc_selectors (svc_ports svc))" for sel
    proof -
      from sels [OF that] obtain n p where np: "List.find (\<lambda>(n, p). matches_selector n p sel) ds = Some (n, p)" "(n, p) \<in> set ps"
        by auto
      have "(n, p) \<in> ?np ` set rs" if "n \<notin> set (svc_exclude_ports svc)"
      proof -
        have "(n, p) \<in> set (filter (\<lambda>(n, p). n \<notin> set (exclude_set svc)) ps)"
          using np(2) that by (simp add: exclude_set_def)
        then show ?thesis unfolding f in_rs .
      qed
      with np show ?thesis by blast
    qed
    have "\<forall>r \<in> set rs. 0 \<le> rp_local_port r \<and> rp_local_port r \<le> 65535 \<and> ?np r \<in> set ds \<and> wanted svc (?np r)"
      using each by blast
    moreover have "is_pod svc \<or> pc_all (svc_ports svc) \<longrightarrow> map ?np rs = filter (wanted svc) ds" using all e by simp
    moreover have "\<forall>sel \<in> set (pc_selectors (svc_ports svc)). \<not> is_pod svc \<and> \<not> pc_all (svc_ports svc) \<longrightarrow>
        (\<exists>n p. List.find (\<lambda>(n, p). matches_selector n p sel) ds = Some (n, p)
            \<and> (n \<notin> set (svc_exclude_ports svc) \<longrightarrow> (n, p) \<in> ?np ` set rs))" using first by simp
    ultimately show ?case
      using d(1,3) unfolding m list_all_iff by (intro exI [of _ ds] conjI)
  qed
qed

definition web_pod :: k8s_pod where
  "web_pod = \<lparr>pod_name = ''web'', pod_running = True, pod_deleting = False, pod_conditions = [],
     pod_containers = [[\<lparr>cp_name = ''http'', cp_port = 80\<rparr>], [\<lparr>cp_name = ''admin'', cp_port = 81\<rparr>, \<lparr>cp_name = [], cp_port = 82\<rparr>]]\<rparr>"

definition web_pod_api :: k8s_api where
  "web_pod_api = \<lparr>api_service = (\<lambda>_ _. None), api_pod = (\<lambda>_ _. Some web_pod), api_pods = (\<lambda>_ _. None)\<rparr>"

definition web_pod_service :: service_config where
  "web_pod_service = zero_service\<lparr>svc_pod := ''web'', svc_ports := \<lparr>pc_all = True, pc_selectors = []\<rparr>,
     svc_exclude_ports := [''admin'']\<rparr>"

theorem resolved_ports_sound_witness:
  "\<exists>rs. resolve_service_ports (Some web_pod_api) ''default'' web_pod_service = Inr rs
     \<and> map (\<lambda>r. (rp_name r, rp_remote_port r)) rs = [(''http'', 80), ([], 82)]"
proof -
  have pod: "is_pod web_pod_service"
    "declared_ports web_pod_api ''default'' web_pod_service = Some [(''http'', 80), (''admin'', 81), ([], 82)]"
    by (simp_all add: is_pod_def zero_service_def declared_ports_def web_pod_def web_pod_api_def web_pod_service_def)
  have w: "filter (wanted web_pod_service) [(''http'', 80), (''admin'', 81), ([], 82)] = [(''http'', 80), ([], 82)]"
    by (simp add: wanted_def zero_service_def web_pod_service_def)
  have "is_ok (resolve_service_ports (Some web_pod_api) ''default'' web_pod_service)" by code_simp
  then obtain rs where rs: "resolve_service_ports (Some web_pod_api) ''default'' web_pod_service = Inr rs"
    by (cases "resolve_service_ports (Some web_pod_api) ''default'' web_pod_service") auto
  from resolved_ports_sound [OF rs] show ?thesis
  proof (elim exE conjE)
    fix ds assume ds: "declared_ports web_pod_api ''default'' web_pod_service = Some ds"
      "is_pod web_pod_service \<or> pc_all (svc_ports web_pod_service) \<longrightarrow>
        map (\<lambda>r. (rp_name r, rp_remote_port r)) rs = filter (wanted web_pod_service) ds"
    have "ds = [(''http'', 80), (''admin'', 81), ([], 82)]" using ds(1) pod(2) by (simp only: option.inject)
    moreover have "map (\<lambda>r. (rp_name r, rp_remote_port r)) rs = filter (wanted web_pod_service) ds"
      using ds(2) pod(1) by (simp only: simp_thms)
    ultimately have "map (\<lambda>r. (rp_name r, rp_remote_port r)) rs = [(''http'', 80), ([], 82)]"
      using w by (simp only:)
    with rs show ?thesis by (intro exI [of _ rs] conjI)
  qed
qed

text \<open>The local port of a selector that names its port by number is ignored: such a port
  gets the offset or a dynamic local port, whatever \<^verbatim>\<open>local_port\<close> says.\<close>

theorem numbered_selector_loses_local_port:
  assumes "list_all (\<lambda>sel. sel_name sel = []) (pc_selectors (svc_ports svc))"
    and "svc_local_port_offset svc = 0"
    and "resolve_service_ports (Some api) ns svc = Inr rs"
  shows "list_all (\<lambda>r. rp_local_port r = 0) rs"
proof -
  have none: "selector_overrides svc = []"
  proof -
    have "foldl (\<lambda>m sel. if sel_name sel \<noteq> [] then gset (sel_name sel) sel m else m) m sels = m"
      if "list_all (\<lambda>sel. sel_name sel = []) sels" for m :: "(string, port_selector) gomap" and sels
      using that by (induction sels) auto
    then show ?thesis using assms(1) by (simp add: selector_overrides_def)
  qed
  obtain ps where "resolve_loop svc ps = Inr rs"
    using assms(3)
    by (auto simp: resolve_service_ports_def resolve_pod_ports_def non_empty_def sbind_Inr_iff
        split: option.splits if_splits)
  from resolve_loop_ports [OF this] show ?thesis
    using none assms(2) by (auto simp: list_all_iff compute_local_port_def)
qed

theorem numbered_selector_loses_local_port_witness:
  "list_all (\<lambda>r. rp_local_port r = 0) [\<lparr>rp_name = ''http'', rp_remote_port = 80, rp_local_port = 0\<rparr>]
   \<and> resolve_service_ports (Some
      \<lparr>api_service = (\<lambda>_ _. Some \<lparr>ks_ports = [\<lparr>sp_name = ''http'', sp_port = 80, sp_target = IntPort 8080\<rparr>],
          ks_selector = []\<rparr>), api_pod = (\<lambda>_ _. None), api_pods = (\<lambda>_ _. None)\<rparr>) ''default''
      (zero_service\<lparr>svc_service := ''web'', svc_ports := \<lparr>pc_all = False,
         pc_selectors = [\<lparr>sel_name = [], sel_port = 80, sel_local_port = 8080\<rparr>]\<rparr>\<rparr>) =
      Inr [\<lparr>rp_name = ''http'', rp_remote_port = 80, rp_local_port = 0\<rparr>]" (is "?P \<and> ?R")
proof -
  have r: ?R
    by (simp add: resolve_service_ports_def is_pod_def zero_service_def exclude_set_def select_port_def
      matches_selector_def compute_local_port_def selector_overrides_def non_empty_def)
  show ?thesis
    using numbered_selector_loses_local_port [OF _ _ r] r by (simp add: zero_service_def)
qed

subsection \<open>The pod of a forward\<close>

definition resolve_named_port :: "k8s_pod \<Rightarrow> string \<Rightarrow> int" where
  "resolve_named_port pod name =
     (case List.find (\<lambda>cp. cp_name cp = name) (concat (pod_containers pod)) of
        Some cp \<Rightarrow> cp_port cp | None \<Rightarrow> 0)"

definition is_pod_ready :: "k8s_pod \<Rightarrow> bool" where
  "is_pod_ready pod =
     (case List.find (\<lambda>(t, _). t = ''Ready'') (pod_conditions pod) of
        Some (_, status) \<Rightarrow> status = ''True'' | None \<Rightarrow> False)"

text \<open>\<^verbatim>\<open>IntOrString.IntValue\<close> of a name is what \<^verbatim>\<open>Atoi\<close> makes of it, 0 when it is no number.\<close>

fun int_value :: "int_or_string \<Rightarrow> int" where
  "int_value (IntPort n) = n"
| "int_value (NamedPort s) = (case atoi s of None \<Rightarrow> 0 | Some n \<Rightarrow> n)"

fun target_string :: "int_or_string \<Rightarrow> string" where
  "target_string (IntPort n) = itoa n"
| "target_string (NamedPort s) = s"

text \<open>The target port of the matching service port: a number, or a name to look up in the pod.\<close>

definition target_of_port :: "service_port list \<Rightarrow> int \<Rightarrow> int \<times> string" where
  "target_of_port ports remote =
     (case List.find (\<lambda>p. sp_port p = remote) ports of
        None \<Rightarrow> (remote, [])
      | Some p \<Rightarrow>
          if int_value (sp_target p) \<noteq> 0 then (int_value (sp_target p), [])
          else if target_string (sp_target p) \<noteq> [] \<and> target_string (sp_target p) \<noteq> ''0''
          then (remote, target_string (sp_target p))
          else (remote, []))"

definition port_on_pod :: "k8s_pod \<Rightarrow> int \<times> string \<Rightarrow> int" where
  "port_on_pod pod tp =
     (if snd tp \<noteq> [] \<and> resolve_named_port pod (snd tp) \<noteq> 0 then resolve_named_port pod (snd tp) else fst tp)"

text \<open>The loop over the pods, with the first running pod that is not ready as fallback.\<close>

fun choose_pod :: "k8s_pod option \<Rightarrow> k8s_pod list \<Rightarrow> k8s_pod option" where
  "choose_pod fallback [] = fallback"
| "choose_pod fallback (pod # rest) =
     (if \<not> pod_running pod then choose_pod fallback rest
      else if pod_deleting pod then choose_pod fallback rest
      else if is_pod_ready pod then Some pod
      else choose_pod (if fallback = None then Some pod else fallback) rest)"

definition resolve_pod :: "k8s_api option \<Rightarrow> string \<Rightarrow> service_config \<Rightarrow> resolve_err + string \<times> int" where
  "resolve_pod clientset namespace svc =
     (if is_pod svc then Inr (target svc, svc_remote_port svc)
      else (case clientset of
              None \<Rightarrow> Inl NoClient
            | Some api \<Rightarrow>
                (case api_service api namespace (target svc) of
                   None \<Rightarrow> Inl (GetServiceFailed namespace (target svc))
                 | Some service \<Rightarrow>
                     if ks_selector service = [] then Inl (NoSelector (target svc))
                     else (case api_pods api namespace (ks_selector service) of
                             None \<Rightarrow> Inl (ListPodsFailed (target svc))
                           | Some pods \<Rightarrow>
                               (case choose_pod None pods of
                                  None \<Rightarrow> Inl (NoRunningPods (target svc))
                                | Some pod \<Rightarrow>
                                    Inr (pod_name pod,
                                         port_on_pod pod (target_of_port (ks_ports service) (svc_remote_port svc))))))))"

definition get_service_selector :: "k8s_api \<Rightarrow> string \<Rightarrow> service_config \<Rightarrow> resolve_err + (string, string) gomap" where
  "get_service_selector api namespace svc =
     (case api_service api namespace (target svc) of
        None \<Rightarrow> Inl (GetServiceFailed namespace (target svc))
      | Some service \<Rightarrow>
          if ks_selector service = [] then Inl (NoSelector (target svc)) else Inr (ks_selector service))"

definition usable :: "k8s_pod \<Rightarrow> bool" where
  "usable pod = (pod_running pod \<and> \<not> pod_deleting pod)"

lemma choose_pod_spec:
  "choose_pod fb pods =
     (case List.find (\<lambda>p. usable p \<and> is_pod_ready p) pods of
        Some p \<Rightarrow> Some p
      | None \<Rightarrow> (case fb of Some p \<Rightarrow> Some p | None \<Rightarrow> List.find usable pods))"
  by (induction fb pods rule: choose_pod.induct) (auto simp: usable_def split: option.splits)

text \<open>A forward to a service goes to the first running, non-terminating pod that is ready;
  only when none is ready to the first one that is not; and it fails exactly when no pod is
  running.\<close>

theorem resolve_pod_prefers_ready:
  assumes "\<not> is_pod svc" "api_service api ns (target svc) = Some service" "ks_selector service \<noteq> []"
    and "api_pods api ns (ks_selector service) = Some pods"
  shows "map_sum id fst (resolve_pod (Some api) ns svc) =
      (case List.find (\<lambda>p. usable p \<and> is_pod_ready p) pods of
         Some p \<Rightarrow> Inr (pod_name p)
       | None \<Rightarrow> (case List.find usable pods of
                    Some p \<Rightarrow> Inr (pod_name p) | None \<Rightarrow> Inl (NoRunningPods (target svc))))"
  using assms by (simp add: resolve_pod_def choose_pod_spec split: option.split)

theorem resolve_pod_prefers_ready_witness:
  "map_sum id fst (resolve_pod (Some
      \<lparr>api_service = (\<lambda>_ _. Some \<lparr>ks_ports = [], ks_selector = [(''app'', ''web'')]\<rparr>), api_pod = (\<lambda>_ _. None),
       api_pods = (\<lambda>_ _. Some
         [\<lparr>pod_name = ''a'', pod_running = True, pod_deleting = False, pod_conditions = [], pod_containers = []\<rparr>,
          \<lparr>pod_name = ''b'', pod_running = True, pod_deleting = False,
             pod_conditions = [(''Ready'', ''True'')], pod_containers = []\<rparr>])\<rparr>)
      ''default'' (zero_service\<lparr>svc_service := ''web''\<rparr>)) = Inr ''b''"
  by (subst resolve_pod_prefers_ready [where service = "\<lparr>ks_ports = [], ks_selector = [(''app'', ''web'')]\<rparr>"
        and pods = "[\<lparr>pod_name = ''a'', pod_running = True, pod_deleting = False, pod_conditions = [],
             pod_containers = []\<rparr>,
          \<lparr>pod_name = ''b'', pod_running = True, pod_deleting = False,
             pod_conditions = [(''Ready'', ''True'')], pod_containers = []\<rparr>]"])
    (auto simp: is_pod_def zero_service_def usable_def is_pod_ready_def)

end
