(* ===== verification/Floats.thy ===== *)
theory Floats
  imports Numbers
begin

text \<open>
  Facts about rounding to \<^verbatim>\<open>float64\<close>: the exponent, monotonicity, and the numbers that are
  represented exactly.  The bounds on jittered delays rest on them.
\<close>

subsection \<open>Powers of two and the exponent\<close>

lemma pow2_powi: "pow2 e = 2 powi e"
  unfolding pow2_def power_int_def inverse_eq_divide power_one_over ..

lemma pow2_add: "pow2 (a + b) = pow2 a * pow2 b"
  by (simp add: pow2_powi power_int_add)

lemma pow2_nat: "pow2 (int n) = 2 ^ n"
  by (simp add: pow2_def)

lemma pow2_strict: "a < b \<Longrightarrow> pow2 a < pow2 b"
  unfolding pow2_powi by (rule power_int_strict_increasing) simp_all

lemma pow2_less [simp]: "pow2 a < pow2 b \<longleftrightarrow> a < b"
  using pow2_strict [of a b] pow2_strict [of b a] by (cases a b rule: linorder_cases) auto

lemma pow2_le [simp]: "pow2 a \<le> pow2 b \<longleftrightarrow> a \<le> b"
  using pow2_less [of b a] by (simp add: not_less [symmetric])

lemma bit_count_pow2:
  assumes "0 < n"
  shows "pow2 (int (bit_count (nat n)) - 1) \<le> of_int n" "of_int n < pow2 (int (bit_count (nat n)))"
proof -
  define k where "k = bit_count (nat n)"
  have b: "2 ^ (k - 1) \<le> nat n" "nat n < 2 ^ k" "0 < k"
    using bit_count_bounds [of "nat n"] assms by (auto simp: k_def)
  have "2 ^ (k - 1) \<le> n" "n < 2 ^ k"
    using b assms by (simp_all add: le_nat_iff nat_less_iff)
  then have "of_int (2 ^ (k - 1)) \<le> (of_int n :: rat)" "(of_int n :: rat) < of_int (2 ^ k)"
    by (simp_all only: of_int_le_iff of_int_less_iff)
  moreover have "int k - 1 = int (k - 1)" using b(3) by simp
  ultimately show "pow2 (int (bit_count (nat n)) - 1) \<le> of_int n"
      "of_int n < pow2 (int (bit_count (nat n)))"
    unfolding k_def [symmetric] by (simp_all add: pow2_nat del: of_nat_diff)
qed

lemma ilog2_spec:
  assumes "0 < r"
  shows "pow2 (ilog2 r) \<le> r" "r < pow2 (ilog2 r + 1)"
proof -
  obtain p q where pq: "quotient_of r = (p, q)" by (cases "quotient_of r")
  have q: "0 < q" using quotient_of_denom_pos [OF pq] .
  have r: "r = of_int p / of_int q" using quotient_of_div [OF pq] .
  have p: "0 < p" using assms q by (simp add: r zero_less_divide_iff)
  define a b where "a = int (bit_count (nat p))" and "b = int (bit_count (nat q))"
  note A = bit_count_pow2 [OF p, folded a_def] and B = bit_count_pow2 [OF q, folded b_def]
  have q0: "(0::rat) < of_int q" using q by simp
  have s1: "pow2 (a - 1) = pow2 (a - b - 1) * pow2 b"
    using pow2_add [of "a - b - 1" b] by simp
  have "pow2 (a - b - 1) * of_int q \<le> pow2 (a - b - 1) * pow2 b"
    using B(2) by (intro mult_left_mono) (simp_all add: less_imp_le)
  also have "\<dots> \<le> of_int p" using A(1) s1 by simp
  finally have "pow2 (a - b - 1) * of_int q \<le> of_int p" .
  then have lo: "pow2 (a - b - 1) \<le> r" using q0 by (simp add: r le_divide_eq)
  have s2: "pow2 a = pow2 (a - b + 1) * pow2 (b - 1)"
    using pow2_add [of "a - b + 1" "b - 1"] by simp
  have "of_int p < pow2 (a - b + 1) * pow2 (b - 1)" using A(2) s2 by simp
  also have "\<dots> \<le> pow2 (a - b + 1) * of_int q"
    using B(1) by (intro mult_left_mono) (simp_all add: less_imp_le)
  finally have "of_int p < pow2 (a - b + 1) * of_int q" .
  then have hi: "r < pow2 (a - b + 1)" using q0 by (simp add: r divide_less_eq)
  have e: "ilog2 r = (if pow2 (a - b) \<le> r then a - b else a - b - 1)"
    by (simp add: ilog2_def pq Let_def a_def b_def)
  show "pow2 (ilog2 r) \<le> r" using lo by (simp add: e)
  show "r < pow2 (ilog2 r + 1)" using hi by (simp add: e)
qed

lemma ilog2_mono: "0 < a \<Longrightarrow> a \<le> b \<Longrightarrow> ilog2 a \<le> ilog2 b"
proof -
  assume "0 < a" "a \<le> b"
  then have "pow2 (ilog2 a) < pow2 (ilog2 b + 1)"
    using ilog2_spec(1) [of a] ilog2_spec(2) [of b] by linarith
  then show ?thesis by simp
qed

subsection \<open>Rounding is monotone\<close>

lemma round_even_bounds: "of_int (round_even x) \<le> x + 1 / 2" "x - 1 / 2 \<le> of_int (round_even x)"
  unfolding round_even_def Let_def using floor_correct [of x] by (simp; linarith)+

lemma round_even_mono: "x \<le> y \<Longrightarrow> round_even x \<le> round_even y"
proof -
  assume xy: "x \<le> y"
  consider "\<lfloor>x\<rfloor> < \<lfloor>y\<rfloor>" | "\<lfloor>x\<rfloor> = \<lfloor>y\<rfloor>" using floor_mono [OF xy] by linarith
  then show ?thesis
  proof cases
    case 1
    have "round_even x \<le> \<lfloor>x\<rfloor> + 1" "\<lfloor>y\<rfloor> \<le> round_even y" by (auto simp: round_even_def Let_def)
    with 1 show ?thesis by linarith
  next
    case 2
    with xy show ?thesis by (auto simp: round_even_def Let_def)
  qed
qed

definition exponent :: "rat \<Rightarrow> int" where
  "exponent a = max (ilog2 a) (- 1022)"

definition mantissa :: "rat \<Rightarrow> int" where
  "mantissa a = round_even (a / pow2 (exponent a - 52))"

lemma fround_pos:
  "0 < r \<Longrightarrow> fround r =
     (if 1023 < exponent r \<or> (exponent r = 1023 \<and> mantissa r = 2 ^ 53) then PInf
      else Fin (of_int (mantissa r) * pow2 (exponent r - 52)))"
  by (simp add: fround_def exponent_def mantissa_def Let_def cong: conj_cong)

lemma exponent_mono: "0 < a \<Longrightarrow> a \<le> b \<Longrightarrow> exponent a \<le> exponent b"
  using ilog2_mono [of a b] by (simp add: exponent_def max_def)

lemma exponent_upper: "0 < a \<Longrightarrow> a < pow2 (exponent a + 1)"
proof -
  assume "0 < a"
  then have "a < pow2 (ilog2 a + 1)" by (rule ilog2_spec)
  also have "\<dots> \<le> pow2 (exponent a + 1)" by (simp add: exponent_def)
  finally show ?thesis .
qed

lemma pow2_shift: "pow2 (e + 1) / pow2 (e - 52) = 2 ^ 53" "pow2 e / pow2 (e - 52) = 2 ^ 52"
proof -
  have nz: "pow2 (e - 52) \<noteq> 0" using pow2_pos [of "e - 52"] by linarith
  show "pow2 (e + 1) / pow2 (e - 52) = 2 ^ 53"
    using pow2_add [of "e - 52" 53] pow2_nat [of 53] nz by (simp add: add.commute)
  show "pow2 e / pow2 (e - 52) = 2 ^ 52"
    using pow2_add [of "e - 52" 52] pow2_nat [of 52] nz by simp
qed

lemma mantissa_le: "0 < a \<Longrightarrow> mantissa a \<le> 2 ^ 53"
proof -
  assume "0 < a"
  then have "a / pow2 (exponent a - 52) \<le> pow2 (exponent a + 1) / pow2 (exponent a - 52)"
    using exponent_upper [of a] by (intro divide_right_mono) (simp_all add: less_imp_le)
  then have "a / pow2 (exponent a - 52) \<le> of_int (2 ^ 53)" by (simp only: pow2_shift) simp
  then show ?thesis unfolding mantissa_def by (metis round_even_int round_even_mono)
qed

lemma mantissa_ge: "0 < a \<Longrightarrow> exponent a = ilog2 a \<Longrightarrow> 2 ^ 52 \<le> mantissa a"
proof -
  assume "0 < a" "exponent a = ilog2 a"
  then have "pow2 (exponent a) / pow2 (exponent a - 52) \<le> a / pow2 (exponent a - 52)"
    using ilog2_spec(1) [of a] by (intro divide_right_mono) (simp_all add: less_imp_le)
  then have "of_int (2 ^ 52) \<le> a / pow2 (exponent a - 52)" by (simp only: pow2_shift) simp
  then show ?thesis unfolding mantissa_def by (metis round_even_int round_even_mono)
qed

lemma rounded_mono:
  assumes "0 < a" "a \<le> b"
  shows "of_int (mantissa a) * pow2 (exponent a - 52) \<le> of_int (mantissa b) * pow2 (exponent b - 52)"
proof (cases "exponent a = exponent b")
  case True
  have "mantissa a \<le> mantissa b"
    unfolding mantissa_def True using assms
    by (intro round_even_mono divide_right_mono) (simp_all add: less_imp_le)
  then show ?thesis unfolding True by (intro mult_right_mono) (simp_all add: less_imp_le)
next
  case False
  then have lt: "exponent a < exponent b" using exponent_mono [OF assms] by simp
  then have "exponent b = ilog2 b" by (auto simp: exponent_def max_def split: if_splits)
  then have "2 ^ 52 \<le> mantissa b" using mantissa_ge [of b] assms by simp
  then have lo: "of_int (2 ^ 52) \<le> (of_int (mantissa b) :: rat)" by (simp only: of_int_le_iff)
  have hi: "(of_int (mantissa a) :: rat) \<le> of_int (2 ^ 53)"
    using mantissa_le [OF assms(1)] by (simp only: of_int_le_iff)
  have "of_int (mantissa a) * pow2 (exponent a - 52) \<le> of_int (2 ^ 53) * pow2 (exponent a - 52)"
    using hi by (intro mult_right_mono) (simp_all add: less_imp_le)
  also have "\<dots> = pow2 (exponent a + 1)"
    using pow2_add [of 53 "exponent a - 52"] pow2_nat [of 53] by (simp add: algebra_simps)
  also have "\<dots> \<le> pow2 (exponent b)" using lt by simp
  also have "\<dots> = of_int (2 ^ 52) * pow2 (exponent b - 52)"
    using pow2_add [of 52 "exponent b - 52"] pow2_nat [of 52] by simp
  also have "\<dots> \<le> of_int (mantissa b) * pow2 (exponent b - 52)"
    using lo by (intro mult_right_mono) (simp_all add: less_imp_le)
  finally show ?thesis .
qed

lemma fround_mono_fin:
  assumes "0 < r" "r \<le> s" "fround s = Fin s'"
  shows "\<exists>r'. fround r = Fin r' \<and> 0 \<le> r' \<and> r' \<le> s'"
proof -
  have s: "0 < s" using assms by simp
  have b: "\<not> (1023 < exponent s \<or> (exponent s = 1023 \<and> mantissa s = 2 ^ 53))"
    and s': "s' = of_int (mantissa s) * pow2 (exponent s - 52)"
    using assms(3) by (auto simp: fround_pos [OF s] split: if_splits)
  have e: "exponent r \<le> exponent s" using exponent_mono assms(1,2) .
  have "\<not> (1023 < exponent r \<or> (exponent r = 1023 \<and> mantissa r = 2 ^ 53))"
  proof
    assume o: "1023 < exponent r \<or> (exponent r = 1023 \<and> mantissa r = 2 ^ 53)"
    with b e have x: "exponent r = 1023" "exponent s = 1023" "mantissa r = 2 ^ 53" by auto
    have "mantissa r \<le> mantissa s"
      unfolding mantissa_def x using assms(2) by (intro round_even_mono divide_right_mono) (simp_all add: less_imp_le)
    with x b mantissa_le [OF s] show False by simp
  qed
  then have f: "fround r = Fin (of_int (mantissa r) * pow2 (exponent r - 52))"
    by (simp only: fround_pos [OF assms(1)] if_False)
  with rounded_mono [OF assms(1,2)] s' fround_nonneg [OF assms(1) f] show ?thesis by blast
qed

lemma fround_neg: "fround (- r) = (case fround r of Fin x \<Rightarrow> Fin (- x) | PInf \<Rightarrow> NInf | NInf \<Rightarrow> PInf | NaN \<Rightarrow> NaN)"
proof (cases "r = 0 \<or> 0 < r")
  case True
  then show ?thesis by (auto simp: fround_def Let_def)
next
  case False
  then show ?thesis by (auto simp: fround_def Let_def)
qed

subsection \<open>Exact values\<close>

lemma fround_dyadic:
  assumes "0 < n" "n < 2 ^ 53" "- 1074 \<le> k" "k \<le> 900"
  shows "fround (of_int n * pow2 k) = Fin (of_int n * pow2 k)"
proof -
  let ?r = "of_int n * pow2 k"
  have r: "0 < ?r" using assms(1) by simp
  have n53: "(of_int n :: rat) < 2 ^ 53"
    using assms(2) of_int_less_iff [of n "2 ^ 53", where ?'a = rat] by simp
  have "?r < 2 ^ 53 * pow2 k" using n53 by (intro mult_strict_right_mono) simp_all
  also have "\<dots> = pow2 (53 + k)" using pow2_add [of 53 k] pow2_nat [of 53] by simp
  finally have "pow2 (ilog2 ?r) < pow2 (53 + k)" using ilog2_spec(1) [OF r] by (rule le_less_trans [rotated])
  then have il: "ilog2 ?r \<le> 52 + k" by simp
  define e where "e = exponent ?r"
  have ek: "e - 52 \<le> k" using il assms(3) by (simp add: e_def exponent_def)
  have e1023: "\<not> 1023 < e" "e \<noteq> 1023" using il assms(4) by (auto simp: e_def exponent_def)
  define j where "j = nat (k - (e - 52))"
  have "pow2 k = pow2 (e - 52) * pow2 (int j)"
    using pow2_add [of "e - 52" "int j"] ek by (simp add: j_def)
  then have pk: "pow2 k = pow2 (e - 52) * 2 ^ j" by (simp only: pow2_nat)
  have nz: "pow2 (e - 52) \<noteq> 0" using pow2_pos [of "e - 52"] by linarith
  have "?r / pow2 (e - 52) = of_int (n * 2 ^ j)" using nz by (simp add: pk)
  then have m: "mantissa ?r = n * 2 ^ j" by (simp only: mantissa_def e_def [symmetric] round_even_int)
  have "of_int (n * 2 ^ j) * pow2 (e - 52) = ?r" by (simp add: pk)
  then show ?thesis
    by (simp only: fround_pos [OF r] m e_def [symmetric] e1023 simp_thms if_False)
qed

lemma fround_dyadic0:
  assumes "0 \<le> n" "n < 2 ^ 53" "- 1074 \<le> k" "k \<le> 900"
  shows "fround (of_int n * pow2 k) = Fin (of_int n * pow2 k)"
  using fround_dyadic [of n k] assms by (cases "n = 0") (simp_all add: fround_def)

lemma f_to_int_bound:
  assumes "\<bar>x\<bar> \<le> y" "\<lfloor>y\<rfloor> < 2 ^ 63"
  shows "\<bar>f_to_int (Fin x)\<bar> \<le> \<lfloor>y\<rfloor>"
proof -
  have "\<bar>trunc x\<bar> \<le> \<lfloor>y\<rfloor>"
  proof (cases "0 \<le> x")
    case True
    then have "\<lfloor>x\<rfloor> \<le> \<lfloor>y\<rfloor>" using assms(1) by (intro floor_mono) simp
    with True show ?thesis by (simp add: trunc_def)
  next
    case False
    then have "\<lfloor>- x\<rfloor> \<le> \<lfloor>y\<rfloor>" using assms(1) by (intro floor_mono) simp
    with False show ?thesis by (simp add: trunc_def)
  qed
  moreover from this assms(2) have "- (2 ^ 63) \<le> trunc x" "trunc x < 2 ^ 63" by linarith+
  ultimately show ?thesis by (simp add: f_to_int_def)
qed

lemma fround_bound:
  assumes "0 \<le> x" "x \<le> b" "fround b = Fin b"
  shows "\<exists>y. fround x = Fin y \<and> 0 \<le> y \<and> y \<le> b"
proof (cases "x = 0")
  case True
  then show ?thesis using assms by (simp add: fround_def)
next
  case False
  then show ?thesis using fround_mono_fin [of x b b] assms by auto
qed

lemma fround_abs_bound:
  assumes "\<bar>x\<bar> \<le> b" "fround b = Fin b"
  shows "\<exists>y. fround x = Fin y \<and> \<bar>y\<bar> \<le> b"
proof (cases "0 \<le> x")
  case True
  then show ?thesis using fround_bound [of x b] assms by force
next
  case False
  then obtain y where "fround (- x) = Fin y" "0 \<le> y" "y \<le> b"
    using fround_bound [of "- x" b] assms by auto
  then show ?thesis using fround_neg [of "- x"] by force
qed

subsection \<open>Arithmetic\<close>

text \<open>Go's operations on \<^verbatim>\<open>float64\<close>, each rounded once, as on amd64 (other processors may fuse a product
  and a sum).  A zero has no sign here; the code divides by none.\<close>

definition f_of_int :: "int \<Rightarrow> f64" where
  "f_of_int n = fround (of_int n)"

fun f_neg :: "f64 \<Rightarrow> f64" where
  "f_neg (Fin a) = Fin (- a)"
| "f_neg PInf = NInf"
| "f_neg NInf = PInf"
| "f_neg NaN = NaN"

fun f_add :: "f64 \<Rightarrow> f64 \<Rightarrow> f64" where
  "f_add (Fin a) (Fin b) = fround (a + b)"
| "f_add (Fin a) y = y"
| "f_add PInf y = (if y = NInf \<or> y = NaN then NaN else PInf)"
| "f_add NInf y = (if y = PInf \<or> y = NaN then NaN else NInf)"
| "f_add NaN y = NaN"

definition f_sub :: "f64 \<Rightarrow> f64 \<Rightarrow> f64" where
  "f_sub x y = f_add x (f_neg y)"

definition f_signed_inf :: "rat \<Rightarrow> f64" where
  "f_signed_inf s = (if 0 < s then PInf else if s < 0 then NInf else NaN)"

fun f_sign :: "f64 \<Rightarrow> rat" where
  "f_sign (Fin a) = sgn a"
| "f_sign PInf = 1"
| "f_sign NInf = -1"
| "f_sign NaN = 0"

definition f_mul :: "f64 \<Rightarrow> f64 \<Rightarrow> f64" where
  "f_mul x y =
     (case (x, y) of (Fin a, Fin b) \<Rightarrow> fround (a * b)
      | _ \<Rightarrow> if x = NaN \<or> y = NaN then NaN else f_signed_inf (f_sign x * f_sign y))"

definition f_div :: "f64 \<Rightarrow> f64 \<Rightarrow> f64" where
  "f_div x y =
     (case (x, y) of
        (Fin a, Fin b) \<Rightarrow> if b = 0 then f_signed_inf (sgn a) else fround (a / b)
      | (Fin a, NaN) \<Rightarrow> NaN
      | (Fin a, _) \<Rightarrow> Fin 0
      | (_, Fin b) \<Rightarrow> if x = NaN then NaN else f_signed_inf (f_sign x * (if b < 0 then -1 else 1))
      | _ \<Rightarrow> NaN)"

text \<open>How far a rounded value is from the exact one.\<close>

lemma fround_error:
  assumes "0 < x" "fround x = Fin y"
  shows "\<bar>y - x\<bar> \<le> pow2 (exponent x - 53)"
proof -
  let ?u = "pow2 (exponent x - 52)"
  have u: "0 < ?u" by simp
  have y: "y = of_int (mantissa x) * ?u"
    using assms by (auto simp: fround_pos [OF assms(1)] split: if_splits)
  have m: "of_int (mantissa x) \<le> x / ?u + 1 / 2" "x / ?u - 1 / 2 \<le> of_int (mantissa x)"
    unfolding mantissa_def by (rule round_even_bounds)+
  have "of_int (mantissa x) * ?u \<le> (x / ?u + 1 / 2) * ?u" "(x / ?u - 1 / 2) * ?u \<le> of_int (mantissa x) * ?u"
    using m u by (intro mult_right_mono; simp add: less_imp_le)+
  moreover have "(x / ?u + 1 / 2) * ?u = x + ?u / 2" "(x / ?u - 1 / 2) * ?u = x - ?u / 2"
    using u less_imp_neq [OF u] by (simp_all add: distrib_right left_diff_distrib)
  moreover have "?u / 2 = pow2 (exponent x - 53)"
    using pow2_add [of "exponent x - 53" 1] pow2_nat [of 1] by simp
  ultimately show ?thesis unfolding y by linarith
qed

lemma fround_absolute:
  assumes "\<bar>x\<bar> \<le> pow2 k" "fround x = Fin y" "- 1022 \<le> k"
  shows "\<bar>y - x\<bar> \<le> pow2 (k - 53)"
proof -
  have pos: "\<bar>y - x\<bar> \<le> pow2 (k - 53)" if "0 < x" "x \<le> pow2 k" "fround x = Fin y" for x y
  proof -
    have "pow2 (ilog2 x) \<le> pow2 k" using ilog2_spec(1) [OF that(1)] that(2) by linarith
    then have "exponent x \<le> k" using assms(3) by (simp add: exponent_def)
    then have "pow2 (exponent x - 53) \<le> pow2 (k - 53)" by simp
    then show ?thesis using fround_error [OF that(1,3)] by linarith
  qed
  consider "x = 0" | "0 < x" | "x < 0" by linarith
  then show ?thesis
  proof cases
    case 1
    then show ?thesis using assms(2) by (simp add: fround_def less_imp_le)
  next
    case 2
    then show ?thesis using pos assms by simp
  next
    case 3
    have "fround (- x) = Fin (- y)" using fround_neg [of x] assms(2) by simp
    then show ?thesis using pos [of "- x" "- y"] 3 assms(1) by simp
  qed
qed

lemma relative_bounds: "\<bar>y - x\<bar> \<le> x * d \<Longrightarrow> y \<le> x * (1 + d) \<and> x * (1 - d) \<le> y" for x y d :: rat
  by (simp add: algebra_simps abs_le_iff)

lemma fround_relative:
  assumes "x = 0 \<or> 1 / 2 ^ 100 \<le> x" "fround x = Fin y"
  shows "y \<le> x * (1 + 1 / 2 ^ 53)" "x * (1 - 1 / 2 ^ 53) \<le> y"
proof -
  have "y \<le> x * (1 + 1 / 2 ^ 53) \<and> x * (1 - 1 / 2 ^ 53) \<le> y"
  proof (cases "x = 0")
    case True
    then show ?thesis using assms(2) by (simp add: fround_def)
  next
    case False
    then have x: "1 / 2 ^ 100 \<le> x" using assms(1) by simp
    moreover have "(0 :: rat) < 1 / 2 ^ 100" by simp
    ultimately have x0: "0 < x" by linarith
    have "pow2 (- 100) \<le> x" using x by (simp add: pow2_def)
    also have "x < pow2 (ilog2 x + 1)" using ilog2_spec [OF x0] by simp
    finally have "exponent x = ilog2 x" by (simp add: exponent_def)
    then have "pow2 (exponent x - 53) = pow2 (ilog2 x) * pow2 (- 53)"
      using pow2_add [of "ilog2 x" "- 53"] by simp
    also have "\<dots> \<le> x * pow2 (- 53)" using ilog2_spec(1) [OF x0] by (intro mult_right_mono) (simp_all add: less_imp_le)
    also have "pow2 (- 53) = 1 / 2 ^ 53" by (simp add: pow2_def)
    finally have "\<bar>y - x\<bar> \<le> x * (1 / 2 ^ 53)" using fround_error [OF x0 assms(2)] by linarith
    then show ?thesis by (rule relative_bounds)
  qed
  then show "y \<le> x * (1 + 1 / 2 ^ 53)" "x * (1 - 1 / 2 ^ 53) \<le> y" by simp_all
qed

lemma fround_exact_int:
  assumes "\<bar>n\<bar> < 2 ^ 53" shows "fround (of_int n) = Fin (of_int n)"
proof -
  consider "n = 0" | "0 < n" | "n < 0" by linarith
  then show ?thesis
  proof cases
    case 3
    then show ?thesis using fround_int [of "- n"] fround_neg [of "of_int (- n)"] assms by simp
  qed (use assms fround_int [of n] in \<open>auto simp: fround_def\<close>)
qed

text \<open>Rounding keeps order with respect to values that are represented exactly.\<close>

lemma fround_between:
  assumes "a \<le> x" "x \<le> b" "fround a = Fin a" "fround b = Fin b"
  shows "\<exists>y. fround x = Fin y \<and> a \<le> y \<and> y \<le> b"
proof -
  have pos: "\<exists>y. fround x = Fin y \<and> a \<le> y \<and> y \<le> b"
    if h: "0 \<le> x" "a \<le> x" "x \<le> b" "fround a = Fin a" "fround b = Fin b" for a b x
  proof (cases "x = 0 \<or> a \<le> 0")
    case True
    obtain y where y: "fround x = Fin y" "0 \<le> y" "y \<le> b" using fround_bound [of x b] h by auto
    moreover have "x = 0 \<Longrightarrow> y = 0" using y(1) by (simp add: fround_def)
    ultimately show ?thesis using True h(2) by fastforce
  next
    case False
    obtain y where y: "fround x = Fin y" "0 \<le> y" "y \<le> b" using fround_bound [of x b] h by auto
    then have "a \<le> y" using fround_mono_fin [of a x y] h False by auto
    with y show ?thesis by auto
  qed
  show ?thesis
  proof (cases "0 \<le> x")
    case True
    then show ?thesis using pos assms by blast
  next
    case False
    have "fround (- a) = Fin (- a)" "fround (- b) = Fin (- b)" using assms fround_neg by simp_all
    then obtain y where "fround (- x) = Fin y" "- b \<le> y" "y \<le> - a"
      using pos [of "- x" "- b" "- a"] False assms by auto
    then show ?thesis using fround_neg [of "- x"] by (intro exI [of _ "- y"]) simp
  qed
qed

end
