(* ===== verification/Streams.thy ===== *)
theory Streams
  imports Validate Floats
begin

text \<open>
  The stream wrappers of a forward: byte counting (\<^verbatim>\<open>internal/proxy/counting.go\<close>), chaos
  injection (\<^verbatim>\<open>chaos.go\<close>) and network simulation (\<^verbatim>\<open>throttle.go\<close>), and the cache of SPDY
  transports (\<^verbatim>\<open>transport_cache.go\<close>).  The SPDY stream is third-party code: a function from the
  number of bytes offered to the number transferred and an error, over a state \<open>'w\<close>.  Random draws and the
  clock are arguments.
\<close>

subsection \<open>Counters\<close>

record chaos_counters =
  errors_injected :: int
  spikes_injected :: int

record byte_counter =
  bytes_in :: int
  bytes_out :: int
  conn_bytes_in :: int
  conn_bytes_out :: int
  stream_errors :: int
  counter_chaos :: chaos_counters

definition zero_counter :: byte_counter where
  "zero_counter = \<lparr>bytes_in = 0, bytes_out = 0, conn_bytes_in = 0, conn_bytes_out = 0,
     stream_errors = 0, counter_chaos = \<lparr>errors_injected = 0, spikes_injected = 0\<rparr>\<rparr>"

datatype io_err = ChaosInjected | ContextDone | StreamFailed string

type_synonym io_result = "int \<times> io_err option"

definition count_read :: "io_result \<Rightarrow> byte_counter \<Rightarrow> byte_counter" where
  "count_read r c =
     (if 0 < fst r then c\<lparr>bytes_in := wrap64 (bytes_in c + fst r), conn_bytes_in := wrap64 (conn_bytes_in c + fst r)\<rparr>
      else c)"

definition count_write :: "io_result \<Rightarrow> byte_counter \<Rightarrow> byte_counter" where
  "count_write r c =
     (if 0 < fst r then c\<lparr>bytes_out := wrap64 (bytes_out c + fst r), conn_bytes_out := wrap64 (conn_bytes_out c + fst r)\<rparr>
      else c)"

text \<open>\<^verbatim>\<open>countingDialer.Dial\<close> on success, and \<^verbatim>\<open>CreateStream\<close> on failure.\<close>

definition count_dial :: "bool \<Rightarrow> byte_counter \<Rightarrow> byte_counter" where
  "count_dial skip_conn_reset c =
     (if skip_conn_reset then c else c\<lparr>stream_errors := 0, conn_bytes_in := 0, conn_bytes_out := 0\<rparr>)"

definition count_stream_error :: "byte_counter \<Rightarrow> byte_counter" where
  "count_stream_error c = c\<lparr>stream_errors := wrap64 (stream_errors c + 1)\<rparr>"

subsection \<open>The token bucket\<close>

record rate_limiter =
  rl_bytes_per_sec :: int
  rl_tokens :: f64
  rl_last_refill :: int

definition new_rate_limiter :: "int \<Rightarrow> int \<Rightarrow> rate_limiter" where
  "new_rate_limiter now rate =
     \<lparr>rl_bytes_per_sec = rate, rl_tokens = f_of_int rate, rl_last_refill = now\<rparr>"

text \<open>The difference of two times, which saturates, and its \<^verbatim>\<open>Seconds()\<close>.\<close>

definition time_sub :: "int \<Rightarrow> int \<Rightarrow> int" where
  "time_sub t u = max (- (2 ^ 63)) (min (2 ^ 63 - 1) (t - u))"

definition duration_seconds :: "int \<Rightarrow> f64" where
  "duration_seconds d =
     (let whole = (if 0 \<le> d then d div 1000000000 else - ((- d) div 1000000000));
          rest = d - whole * 1000000000
      in f_add (f_of_int whole) (f_div (f_of_int rest) (f_of_int 1000000000)))"

text \<open>\<^verbatim>\<open>Wait\<close>: the bucket afterwards, and how long the caller sleeps.\<close>

definition limiter_wait :: "int \<Rightarrow> int \<Rightarrow> rate_limiter \<Rightarrow> rate_limiter \<times> int" where
  "limiter_wait now n r =
     (let elapsed = duration_seconds (time_sub now (rl_last_refill r));
          refilled = f_add (rl_tokens r) (f_mul elapsed (f_of_int (rl_bytes_per_sec r)));
          limit = f_of_int (rl_bytes_per_sec r);
          capped = (if f_less limit refilled then limit else refilled);
          tokens = f_sub capped (f_of_int n);
          r' = r\<lparr>rl_tokens := tokens, rl_last_refill := now\<rparr>
      in if f_leq (Fin 0) tokens then (r', 0)
         else (let deficit = f_neg tokens
               in (r', f_to_int (f_mul (f_div deficit (f_of_int (rl_bytes_per_sec r))) (f_of_int 1000000000)))))"

text \<open>A run of calls \<open>(now, n)\<close>, and that its clock does not go back.\<close>

fun limiter_run :: "rate_limiter \<Rightarrow> (int \<times> int) list \<Rightarrow> rate_limiter" where
  "limiter_run r [] = r"
| "limiter_run r ((now, n) # calls) = limiter_run (fst (limiter_wait now n r)) calls"

fun run_forward :: "int \<Rightarrow> (int \<times> int) list \<Rightarrow> bool" where
  "run_forward t [] = True"
| "run_forward t ((now, n) # calls) = (t \<le> now \<and> now - t < 2 ^ 62 \<and> 0 \<le> n \<and> run_forward now calls)"

lemma limiter_wait_rate [simp]: "rl_bytes_per_sec (fst (limiter_wait now n r)) = rl_bytes_per_sec r"
  by (simp add: limiter_wait_def Let_def)

lemma limiter_wait_last [simp]: "rl_last_refill (fst (limiter_wait now n r)) = now"
  by (simp add: limiter_wait_def Let_def)

lemma limiter_run_rate [simp]: "rl_bytes_per_sec (limiter_run r calls) = rl_bytes_per_sec r"
  by (induction r calls rule: limiter_run.induct) auto

subsection \<open>The rounding errors of a call\<close>

text \<open>The elapsed seconds are exact up to two roundings.\<close>

lemma duration_seconds_bounds:
  assumes "0 \<le> d" "d < 2 ^ 62"
  shows "\<exists>e. duration_seconds d = Fin e \<and> (e = 0 \<or> 1 / 2 ^ 40 \<le> e) \<and> e \<le> 2 ^ 34
    \<and> e \<le> of_int d / 1000000000 * (1 + 1 / 2 ^ 53) * (1 + 1 / 2 ^ 53)"
proof -
  let ?u = "1 / 2 ^ 53 :: rat"
  define w where "w = d div 1000000000"
  define m where "m = d mod 1000000000"
  have w: "0 \<le> w" "w < 2 ^ 33" and m: "0 \<le> m" "m < 1000000000"
    using assms by (simp_all add: w_def m_def pos_imp_zdiv_nonneg_iff)
  have dm: "d - w * 1000000000 = m" by (simp add: w_def m_def minus_div_mult_eq_mod)
  have exact: "f_of_int w = Fin (of_int w)" "f_of_int m = Fin (of_int m)" "f_of_int 1000000000 = Fin 1000000000"
    using w m fround_exact_int [of w] fround_exact_int [of m] fround_exact_int [of 1000000000]
    by (simp_all add: f_of_int_def)
  have one: "fround 1 = Fin 1" using fround_exact_int [of 1] by simp
  define q0 where "q0 = (of_int m :: rat) / 1000000000"
  have q0: "0 \<le> q0" "q0 \<le> 1" "q0 = 0 \<or> 1 / 1000000000 \<le> q0"
  proof -
    show "0 \<le> q0" "q0 \<le> 1" using m by (simp_all add: q0_def)
    show "q0 = 0 \<or> 1 / 1000000000 \<le> q0"
    proof (cases "m = 0")
      case False
      then have "(1 :: rat) \<le> of_int m" using m(1) by simp
      then show ?thesis by (simp add: q0_def)
    qed (simp add: q0_def)
  qed
  from fround_bound [OF q0(1,2) one] obtain q where q: "fround q0 = Fin q" "0 \<le> q" "q \<le> 1" by blast
  have small: "x = 0 \<or> 1 / 1000000000 \<le> x \<Longrightarrow> x = 0 \<or> 1 / 2 ^ 100 \<le> x" for x :: rat
  proof -
    have "(1 / 2 ^ 100 :: rat) \<le> 1 / 1000000000" by simp
    then show "x = 0 \<or> 1 / 1000000000 \<le> x \<Longrightarrow> x = 0 \<or> 1 / 2 ^ 100 \<le> x" by linarith
  qed
  note rq = fround_relative [OF small [OF q0(3)] q(1)]
  have q_small: "q = 0 \<or> 1 / 2 ^ 39 \<le> q"
  proof (cases "q0 = 0")
    case True
    then show ?thesis using q(1) by (simp add: fround_def)
  next
    case False
    then have "1 / 1000000000 * (1 - ?u) \<le> q0 * (1 - ?u)" using q0(3) by (intro mult_right_mono) auto
    moreover have "1 / 2 ^ 39 \<le> 1 / 1000000000 * (1 - ?u)" by simp
    ultimately show ?thesis using rq(2) by linarith
  qed
  define e0 where "e0 = of_int w + q"
  have e0: "0 \<le> e0" "e0 \<le> 2 ^ 34" "e0 = 0 \<or> 1 / 2 ^ 39 \<le> e0"
  proof -
    have w1: "w = 0 \<or> (1 :: rat) \<le> of_int w" using w(1) by (cases "w = 0") auto
    have "(of_int w :: rat) \<le> of_int (2 ^ 33)" using w(2) by (simp only: of_int_le_iff)
    then have wb: "(of_int w :: rat) \<le> 2 ^ 33" by simp
    show "0 \<le> e0" using w(1) q(2) by (simp add: e0_def)
    show "e0 \<le> 2 ^ 34" using wb q(3) by (simp add: e0_def)
    show "e0 = 0 \<or> 1 / 2 ^ 39 \<le> e0"
    proof (cases "w = 0")
      case True
      then show ?thesis using q_small by (simp add: e0_def)
    next
      case False
      have "(1 / 2 ^ 39 :: rat) \<le> 1" by simp
      then show ?thesis using False w1 q(2) unfolding e0_def by auto
    qed
  qed
  have b34: "fround (2 ^ 34) = Fin (2 ^ 34)" using fround_exact_int [of "2 ^ 34"] by simp
  from fround_bound [OF e0(1,2) b34] obtain e where e: "fround e0 = Fin e" "0 \<le> e" "e \<le> 2 ^ 34" by blast
  have small39: "e0 = 0 \<or> 1 / 2 ^ 100 \<le> e0"
  proof -
    have "(1 / 2 ^ 100 :: rat) \<le> 1 / 2 ^ 39" by simp
    then show ?thesis using e0(3) by linarith
  qed
  note re = fround_relative [OF small39 e(1)]
  have "e = 0 \<or> 1 / 2 ^ 40 \<le> e"
  proof (cases "e0 = 0")
    case True
    then show ?thesis using e(1) by (simp add: fround_def)
  next
    case False
    then have "1 / 2 ^ 39 * (1 - ?u) \<le> e0 * (1 - ?u)" using e0(3) by (intro mult_right_mono) auto
    moreover have "1 / 2 ^ 40 \<le> 1 / 2 ^ 39 * (1 - ?u)" by simp
    ultimately show ?thesis using re(2) by linarith
  qed
  moreover have "e \<le> of_int d / 1000000000 * (1 + ?u) * (1 + ?u)"
  proof -
    have "of_int w \<le> of_int w * (1 + ?u)" using w(1) mult_left_mono [of 1 "1 + ?u" "of_int w :: rat"] by simp
    then have "e0 \<le> (of_int w + q0) * (1 + ?u)" using rq(1) unfolding e0_def distrib_right by linarith
    also have "of_int w + q0 = of_int d / 1000000000"
    proof -
      have "(of_int d :: rat) = of_int (w * 1000000000 + m)" using dm by simp
      then show ?thesis by (simp add: q0_def)
    qed
    finally have "e0 * (1 + ?u) \<le> of_int d / 1000000000 * (1 + ?u) * (1 + ?u)" by (intro mult_right_mono) simp_all
    then show ?thesis using re(1) by linarith
  qed
  moreover have "duration_seconds d = Fin e"
    using assms(1) dm exact q(1) e(1)
    by (simp add: duration_seconds_def Let_def w_def [symmetric] f_div_def q0_def [symmetric] e0_def [symmetric])
  ultimately show ?thesis using e(3) by blast
qed

text \<open>One call.  Before it the bucket has not given more than \<open>M\<close> bytes of credit; after it the
  bucket is at most what the exact arithmetic gives, up to half a byte and a relative error of
  \<open>2^-51\<close> in the refill.\<close>

lemma limiter_step:
  assumes t: "rl_tokens r = Fin t" "- of_int M \<le> t" "t \<le> of_int rate"
    and r: "rl_bytes_per_sec r = rate" "0 < rate" "rate \<le> 2 ^ 50"
    and n: "0 \<le> n" "0 \<le> M" "M + n \<le> 2 ^ 50"
    and c: "rl_last_refill r \<le> now" "now - rl_last_refill r < 2 ^ 62"
  shows "\<exists>t'. rl_tokens (fst (limiter_wait now n r)) = Fin t' \<and> - of_int (M + n) \<le> t' \<and> t' \<le> of_int rate
    \<and> t' \<le> t + of_int (now - rl_last_refill r) / 1000000000 * of_int rate * (1 + 1 / 2 ^ 51) - of_int n + 1 / 2"
proof -
  let ?u = "1 / 2 ^ 53 :: rat" and ?R = "of_int rate :: rat" and ?d = "now - rl_last_refill r"
  have R: "1 \<le> ?R" "?R \<le> 2 ^ 50"
  proof -
    show "1 \<le> ?R" using r(2) by simp
    have "?R \<le> of_int (2 ^ 50)" using r(3) by (simp only: of_int_le_iff)
    then show "?R \<le> 2 ^ 50" by simp
  qed
  have exact: "f_of_int rate = Fin ?R" "f_of_int n = Fin (of_int n)" "fround ?R = Fin ?R"
    "fround (- of_int M) = Fin (- of_int M)" "fround (- of_int (M + n)) = Fin (- of_int (M + n))"
    using r n fround_exact_int [of rate] fround_exact_int [of n] fround_exact_int [of "- M"]
      fround_exact_int [of "- (M + n)"] by (simp_all add: f_of_int_def)
  have Mn: "(of_int (M + n) :: rat) \<le> 2 ^ 50"
  proof -
    have "(of_int (M + n) :: rat) \<le> of_int (2 ^ 50)" using n(3) by (simp only: of_int_le_iff)
    then show ?thesis by simp
  qed
  have n0: "(0 :: rat) \<le> of_int n" "(0 :: rat) \<le> of_int M" using n by simp_all
  have sub: "time_sub now (rl_last_refill r) = ?d" using c by (simp add: time_sub_def)
  obtain e where e: "duration_seconds ?d = Fin e" "e = 0 \<or> 1 / 2 ^ 40 \<le> e" "e \<le> 2 ^ 34"
    "e \<le> of_int ?d / 1000000000 * (1 + ?u) * (1 + ?u)"
    using duration_seconds_bounds [of ?d] c by auto
  have e0: "0 \<le> e"
  proof -
    have "(0 :: rat) \<le> 1 / 2 ^ 40" by simp
    then show ?thesis using e(2) by linarith
  qed
  have "e * ?R \<le> 2 ^ 34 * 2 ^ 50" using e(3) R e0 by (intro mult_mono) simp_all
  then have b84: "e * ?R \<le> 2 ^ 84" by simp
  have eR0: "0 \<le> e * ?R" using e0 R by simp
  have big: "fround (2 ^ 84) = Fin (2 ^ 84)" "fround (2 ^ 85) = Fin (2 ^ 85)"
    using fround_dyadic0 [of 1 84] fround_dyadic0 [of 1 85] by (simp_all add: pow2_def)
  from fround_bound [OF eR0 b84 big(1)] obtain p where p: "fround (e * ?R) = Fin p" "0 \<le> p" "p \<le> 2 ^ 84" by blast
  have small: "e * ?R = 0 \<or> 1 / 2 ^ 100 \<le> e * ?R"
  proof (cases "e = 0")
    case False
    then have "1 / 2 ^ 40 * 1 \<le> e * ?R" using e(2) R by (intro mult_mono) simp_all
    moreover have "(1 / 2 ^ 100 :: rat) \<le> 1 / 2 ^ 40 * 1" by simp
    ultimately show ?thesis by linarith
  qed simp
  have pd: "p \<le> of_int ?d / 1000000000 * ?R * (1 + 1 / 2 ^ 51)"
  proof -
    have "p \<le> e * ?R * (1 + ?u)" by (rule fround_relative [OF small p(1)])
    also have "\<dots> \<le> of_int ?d / 1000000000 * (1 + ?u) * (1 + ?u) * ?R * (1 + ?u)"
      using e(4) R by (intro mult_right_mono) simp_all
    also have "\<dots> = of_int ?d / 1000000000 * ?R * ((1 + ?u) * (1 + ?u) * (1 + ?u))" by (simp only: ac_simps)
    also have "\<dots> \<le> of_int ?d / 1000000000 * ?R * (1 + 1 / 2 ^ 51)"
      using c(1) R by (intro mult_left_mono) simp_all
    finally show ?thesis .
  qed
  have x: "- of_int M \<le> t + p" "t + p \<le> 2 ^ 85"
  proof -
    have "(2 ^ 50 + 2 ^ 84 :: rat) \<le> 2 ^ 85" by simp
    then show "t + p \<le> 2 ^ 85" using t(3) p(3) R(2) by linarith
  qed (use t(2) p(2) in linarith)
  from fround_between [OF x exact(4) big(2)] obtain s where s: "fround (t + p) = Fin s" "- of_int M \<le> s" by blast
  define k where "k = (if ?R < s then ?R else s)"
  have k: "- of_int M \<le> k" "k \<le> ?R" using s(2) n0(2) R by (auto simp: k_def)
  have p4: "pow2 (51 - 53) = 1 / 4" by (simp add: pow2_def)
  have kp: "k \<le> t + p + 1 / 4"
  proof (cases "t + p \<le> 2 ^ 51")
    case True
    have "(2 ^ 50 :: rat) \<le> 2 ^ 51" by simp
    then have "\<bar>t + p\<bar> \<le> pow2 51" using True x(1) Mn n0 by (simp add: pow2_def abs_le_iff)
    then have "\<bar>s - (t + p)\<bar> \<le> pow2 (51 - 53)" by (intro fround_absolute [OF _ s(1)]) simp_all
    then have "s \<le> t + p + 1 / 4" unfolding p4 by linarith
    then show ?thesis by (simp add: k_def)
  next
    case False
    have "(2 ^ 50 :: rat) \<le> 2 ^ 51" by simp
    then show ?thesis using False k(2) R(2) by linarith
  qed
  have y: "- of_int (M + n) \<le> k + - of_int n" "k + - of_int n \<le> ?R" using k n0 by simp_all
  from fround_between [OF y exact(5,3)] obtain t' where t': "fround (k + - of_int n) = Fin t'"
    "- of_int (M + n) \<le> t'" "t' \<le> ?R" by blast
  have "\<bar>k + - of_int n\<bar> \<le> pow2 51"
  proof -
    have "(2 ^ 50 :: rat) \<le> 2 ^ 51" by simp
    then show ?thesis using y R(2) Mn by (simp add: pow2_def abs_le_iff)
  qed
  then have "\<bar>t' - (k + - of_int n)\<bar> \<le> pow2 (51 - 53)" by (intro fround_absolute [OF _ t'(1)]) simp_all
  then have "t' \<le> k - of_int n + 1 / 4" unfolding p4 by linarith
  then have upper: "t' \<le> t + of_int ?d / 1000000000 * ?R * (1 + 1 / 2 ^ 51) - of_int n + 1 / 2" using kp pd by linarith
  have "rl_tokens (fst (limiter_wait now n r)) = Fin t'"
    using t(1) r(1) e(1) exact p(1) s(1) t'(1) sub
    by (simp add: limiter_wait_def Let_def f_mul_def f_sub_def k_def split: if_splits)
  with t' upper show ?thesis by blast
qed

lemma limiter_run_bounds:
  assumes "rl_tokens r = Fin t" "- of_int M \<le> t" "t \<le> of_int rate" "rl_bytes_per_sec r = rate" "0 < rate" "rate \<le> 2 ^ 50"
    and "0 \<le> M" "M + sum_list (map snd calls) \<le> 2 ^ 50" "run_forward (rl_last_refill r) calls"
  shows "\<exists>t'. rl_tokens (limiter_run r calls) = Fin t' \<and> - of_int (M + sum_list (map snd calls)) \<le> t' \<and> t' \<le> of_int rate
    \<and> t' \<le> t + of_int (rl_last_refill (limiter_run r calls) - rl_last_refill r) / 1000000000 * of_int rate * (1 + 1 / 2 ^ 51)
         - of_int (sum_list (map snd calls)) + of_nat (length calls) / 2"
  using assms
proof (induction r calls arbitrary: t M rule: limiter_run.induct)
  case (2 r now n calls)
  let ?r = "fst (limiter_wait now n r)" and ?R = "of_int rate :: rat"
  have f: "rl_last_refill r \<le> now" "now - rl_last_refill r < 2 ^ 62" "0 \<le> n" "run_forward now calls"
    using 2(10) by simp_all
  have pos: "run_forward u cs \<Longrightarrow> 0 \<le> sum_list (map snd cs)" for u cs
    by (induction u cs rule: run_forward.induct) auto
  have total: "M + n \<le> 2 ^ 50" "M + n + sum_list (map snd calls) \<le> 2 ^ 50"
    using 2(9) pos [OF f(4)] by simp_all
  obtain t1 where t1: "rl_tokens ?r = Fin t1" "- of_int (M + n) \<le> t1" "t1 \<le> ?R"
    "t1 \<le> t + of_int (now - rl_last_refill r) / 1000000000 * ?R * (1 + 1 / 2 ^ 51) - of_int n + 1 / 2"
    using limiter_step [OF 2(2-7) f(3) 2(8) total(1) f(1,2)] by blast
  have "0 \<le> M + n" using 2(8) f(3) by simp
  then obtain t2 where t2: "rl_tokens (limiter_run ?r calls) = Fin t2"
    "- of_int (M + n + sum_list (map snd calls)) \<le> t2" "t2 \<le> ?R"
    "t2 \<le> t1 + of_int (rl_last_refill (limiter_run ?r calls) - now) / 1000000000 * ?R * (1 + 1 / 2 ^ 51)
         - of_int (sum_list (map snd calls)) + of_nat (length calls) / 2"
    using 2(1) [OF t1(1-3) _ 2(6,7) _ total(2)] f(4) 2(5) by auto
  define G where "G = ?R * (1 + 1 / 2 ^ 51) / 1000000000"
  have g: "of_int z / 1000000000 * ?R * (1 + 1 / 2 ^ 51) = of_int z * G" for z by (simp add: G_def)
  have "of_int (rl_last_refill (limiter_run ?r calls) - rl_last_refill r) * G =
      of_int (rl_last_refill (limiter_run ?r calls) - now) * G + of_int (now - rl_last_refill r) * G"
    by (simp add: algebra_simps)
  then have "t2 \<le> t + of_int (rl_last_refill (limiter_run ?r calls) - rl_last_refill r) * G
         - of_int (sum_list (map snd ((now, n) # calls))) + of_nat (length ((now, n) # calls)) / 2"
    using t1(4) t2(4) unfolding g by (simp add: add_divide_distrib)
  then show ?case using t2(1-3) unfolding g by (simp add: add.assoc)
qed simp

text \<open>The sleep pays for the deficit, to the nanosecond that it is truncated by.\<close>

lemma limiter_sleep:
  assumes "rl_tokens (fst (limiter_wait now n r)) = Fin t" "rl_bytes_per_sec r = rate" "0 < rate" "rate \<le> 2 ^ 50"
    and "- t \<le> 2 ^ 33 * of_int rate"
  shows "0 \<le> snd (limiter_wait now n r)
    \<and> - t \<le> of_int (snd (limiter_wait now n r) + 1) / 1000000000 * of_int rate * (1 + 1 / 2 ^ 51)"
proof -
  let ?u = "1 / 2 ^ 53 :: rat" and ?R = "of_int rate :: rat"
  have exact: "f_of_int rate = Fin ?R" "f_of_int 1000000000 = Fin 1000000000"
    using assms(3,4) fround_exact_int [of rate] fround_exact_int [of 1000000000] by (simp_all add: f_of_int_def)
  have R: "0 < ?R" using assms(3) by simp
  have sleep: "snd (limiter_wait now n r) =
      (if 0 \<le> t then 0 else f_to_int (f_mul (f_div (Fin (- t)) (Fin ?R)) (Fin 1000000000)))"
  proof -
    define tk where "tk = rl_tokens (fst (limiter_wait now n r))"
    have "snd (limiter_wait now n r) = (if f_leq (Fin 0) tk then 0
        else f_to_int (f_mul (f_div (f_neg tk) (f_of_int (rl_bytes_per_sec r))) (f_of_int 1000000000)))"
      unfolding tk_def limiter_wait_def Let_def by (simp split: if_splits)
    moreover have "tk = Fin t" by (simp only: tk_def assms(1))
    ultimately show ?thesis by (simp only: f_neg.simps assms(2) exact) auto
  qed
  show ?thesis
  proof (cases "0 \<le> t")
    case True
    have "0 \<le> of_int (0 + 1) / 1000000000 * ?R * (1 + 1 / 2 ^ 51)" using R by simp
    then show ?thesis unfolding sleep using True by simp
  next
    case False
    define q where "q = - t / ?R"
    have q: "0 \<le> q" "q \<le> 2 ^ 33"
    proof -
      show "0 \<le> q" using False R by (simp add: q_def divide_le_0_iff)
      show "q \<le> 2 ^ 33" unfolding q_def pos_divide_le_eq [OF R] by (rule assms(5))
    qed
    have b33: "fround (2 ^ 33) = Fin (2 ^ 33)" using fround_exact_int [of "2 ^ 33"] by simp
    from fround_bound [OF q b33] obtain g where g: "fround q = Fin g" "0 \<le> g" "g \<le> 2 ^ 33" by blast
    have gb: "0 \<le> g * 1000000000" "g * 1000000000 \<le> 1000000000 * 2 ^ 33" using g by simp_all
    have top: "fround (1000000000 * 2 ^ 33) = Fin (1000000000 * 2 ^ 33)"
      using fround_dyadic0 [of 1000000000 33] by (simp add: pow2_def)
    from fround_bound [OF gb top] obtain h where h: "fround (g * 1000000000) = Fin h" "0 \<le> h" "h \<le> 1000000000 * 2 ^ 33" by blast
    define d where "d = \<lfloor>h\<rfloor>"
    have d0: "0 \<le> d" "h \<le> of_int (d + 1)" using h(2) by (simp_all add: d_def) linarith
    have "d \<le> \<lfloor>1000000000 * 2 ^ 33 :: rat\<rfloor>" unfolding d_def using h(3) by (rule floor_mono)
    then have "d < 2 ^ 63" by simp
    then have "f_to_int (Fin h) = d" using h(2) d0(1) by (simp add: f_to_int_def trunc_def d_def)
    moreover have "f_mul (f_div (Fin (- t)) (Fin ?R)) (Fin 1000000000) = Fin h"
      using R g(1) h(1) by (simp add: f_mul_def f_div_def q_def)
    ultimately have sd: "snd (limiter_wait now n r) = d" using False by (simp only: sleep if_False)
    have "q \<le> of_int (d + 1) / 1000000000 * (1 + 1 / 2 ^ 51)"
    proof (cases "1 / 2 ^ 99 \<le> q")
      case True
      have l: "(1 / 2 ^ 100 :: rat) \<le> 1 / 2 ^ 99" "(1 / 2 ^ 100 :: rat) \<le> 1 / 2 ^ 99 * (1 - ?u) * 1000000000" by simp_all
      have "q = 0 \<or> 1 / 2 ^ 100 \<le> q" using True l(1) by linarith
      from fround_relative(2) [OF this g(1)] have g1: "q * (1 - ?u) \<le> g" .
      have "1 / 2 ^ 99 * (1 - ?u) \<le> q * (1 - ?u)" using True by (intro mult_right_mono) simp_all
      then have "1 / 2 ^ 99 * (1 - ?u) * 1000000000 \<le> g * 1000000000" using g1 by (intro mult_right_mono) simp_all
      then have "g * 1000000000 = 0 \<or> 1 / 2 ^ 100 \<le> g * 1000000000" using l(2) by linarith
      from fround_relative(2) [OF this h(1)] have h1: "g * 1000000000 * (1 - ?u) \<le> h" .
      have "q * ((1 - ?u) * (1 - ?u)) * 1000000000 = q * (1 - ?u) * 1000000000 * (1 - ?u)" by (simp only: ac_simps)
      also have "\<dots> \<le> g * 1000000000 * (1 - ?u)" using g1 by (intro mult_right_mono) simp_all
      also have "\<dots> \<le> of_int (d + 1)" using h1 d0(2) by linarith
      finally have "q * ((1 - ?u) * (1 - ?u)) \<le> of_int (d + 1) / 1000000000" by simp
      then have "q * ((1 - ?u) * (1 - ?u)) * (1 + 1 / 2 ^ 51) \<le> of_int (d + 1) / 1000000000 * (1 + 1 / 2 ^ 51)"
        by (intro mult_right_mono) simp_all
      moreover have "q * 1 \<le> q * ((1 - ?u) * (1 - ?u) * (1 + 1 / 2 ^ 51))" using q(1) by (intro mult_left_mono) simp_all
      ultimately show ?thesis by (simp only: mult.assoc mult_1_right)
    next
      case small: False
      have "(1 / 2 ^ 99 :: rat) \<le> 1 / 1000000000 * (1 + 1 / 2 ^ 51)" by simp
      also have "\<dots> \<le> of_int (d + 1) / 1000000000 * (1 + 1 / 2 ^ 51)"
        using d0(1) by (intro mult_right_mono divide_right_mono) simp_all
      finally show ?thesis using small by linarith
    qed
    then have "q * ?R \<le> of_int (d + 1) / 1000000000 * (1 + 1 / 2 ^ 51) * ?R" using R by (intro mult_right_mono) simp_all
    moreover have "q * ?R = - t" using R by (simp add: q_def)
    ultimately show ?thesis unfolding sd using d0(1) by (simp only: ac_simps)
  qed
qed

text \<open>C39: the bandwidth cap holds in the arithmetic of the code.  Over any run of calls whose clock
  does not go back, the bytes let through when the last call's sleep is over are at most one second's
  burst plus the rate times the time that has passed, up to half a byte for each call, a relative
  error of \<open>2^-51\<close>, and the nanosecond the sleep is truncated by.  Every operation is the \<^verbatim>\<open>float64\<close> one, with
  its rounding, and the sleep is converted to an \<^verbatim>\<open>int64\<close>; the rate and the bytes in all are at most
  \<open>2^50\<close>, and the bytes are worth at most \<open>2^33\<close> seconds, beyond which the conversion overflows.\<close>

theorem limiter_conforms:
  assumes "0 < rate" "rate \<le> 2 ^ 50" "run_forward start (calls @ [(now, n)])"
    and "bytes = sum_list (map snd calls) + n" "bytes \<le> 2 ^ 50" "bytes \<le> 2 ^ 33 * rate"
    and "limiter_wait now n (limiter_run (new_rate_limiter start rate) calls) = (r', d)"
  shows "0 \<le> d \<and> of_int bytes \<le> of_int rate + of_int (now + d + 1 - start) / 1000000000 * of_int rate * (1 + 1 / 2 ^ 51)
    + (of_nat (length calls) + 1) / (2 :: rat)"
proof -
  let ?init = "new_rate_limiter start rate" and ?R = "of_int rate :: rat"
  define runs where "runs = calls @ [(now, n)]"
  have app: "limiter_run r (cs @ [(now, n)]) = fst (limiter_wait now n (limiter_run r cs))" for r cs
    by (induction r cs rule: limiter_run.induct) auto
  have last: "rl_last_refill (limiter_run r (cs @ [(now, n)])) = now" for r cs by (simp add: app)
  have init: "rl_tokens ?init = Fin ?R" "rl_bytes_per_sec ?init = rate" "rl_last_refill ?init = start"
    using assms(1,2) fround_exact_int [of rate] by (simp_all add: new_rate_limiter_def f_of_int_def)
  have tot: "sum_list (map snd runs) = bytes" using assms(4) by (simp add: runs_def)
  have z: "- of_int 0 \<le> ?R" using assms(1) by simp
  obtain t where t: "rl_tokens (limiter_run ?init runs) = Fin t" "- of_int bytes \<le> t"
    "t \<le> ?R + of_int (now - start) / 1000000000 * ?R * (1 + 1 / 2 ^ 51) - of_int bytes + of_nat (length runs) / 2"
    using limiter_run_bounds [OF init(1) z order_refl init(2) assms(1,2), of runs] tot assms(3,5) init(3)
      last [of ?init calls] by (auto simp: runs_def)
  have r': "rl_tokens (fst (limiter_wait now n (limiter_run ?init calls))) = Fin t"
    using t(1) by (simp add: runs_def app)
  have "- t \<le> 2 ^ 33 * ?R"
  proof -
    have "(of_int bytes :: rat) \<le> of_int (2 ^ 33 * rate)" using assms(6) by (simp only: of_int_le_iff)
    then show ?thesis using t(2) by simp
  qed
  from limiter_sleep [OF r' _ assms(1,2) this] init(2) assms(7)
  have s: "0 \<le> d" "- t \<le> of_int (d + 1) / 1000000000 * ?R * (1 + 1 / 2 ^ 51)" by simp_all
  define G where "G = ?R * (1 + 1 / 2 ^ 51) / 1000000000"
  have g: "of_int z / 1000000000 * ?R * (1 + 1 / 2 ^ 51) = of_int z * G" for z by (simp add: G_def)
  have "of_int (now + d + 1 - start) * G = of_int (now - start) * G + of_int (d + 1) * G" by (simp add: algebra_simps)
  moreover have "of_nat (length runs) = (of_nat (length calls) + 1 :: rat)" by (simp add: runs_def)
  ultimately show ?thesis using s t(3) unfolding g by simp
qed

theorem limiter_conforms_witness:
  "\<exists>r' d. limiter_wait 500000000 3000 (limiter_run (new_rate_limiter 0 1000) [(0, 1000)]) = (r', d)
     \<and> (4000 :: rat) \<le> 1000 + of_int (500000000 + d + 1) / 1000000000 * 1000 * (1 + 1 / 2 ^ 51) + 1"
proof -
  obtain r' d where w: "limiter_wait 500000000 3000 (limiter_run (new_rate_limiter 0 1000) [(0, 1000)]) = (r', d)"
    by fastforce
  show ?thesis
    using limiter_conforms [of 1000 0 "[(0, 1000)]" 500000000 3000 4000 r' d] w by simp
qed

subsection \<open>Latency and chaos\<close>

text \<open>
  \<^verbatim>\<open>randJitter\<close>: \<open>draw n\<close> is the result of \<^verbatim>\<open>rand.Int64N(n)\<close>, which panics unless \<open>n\<close> is positive
  (\<open>None\<close>).
\<close>

definition rand_jitter :: "(int \<Rightarrow> int) \<Rightarrow> int \<Rightarrow> int option" where
  "rand_jitter draw jitter =
     (if jitter = 0 then Some 0
      else (let n = wrap64 (2 * jitter + 1)
            in if n \<le> 0 then None else Some (wrap64 (draw n - jitter))))"

lemma rand_jitter_bounds:
  assumes "0 \<le> jitter" "jitter < 2 ^ 62" "\<And>n. 0 < n \<Longrightarrow> 0 \<le> draw n \<and> draw n < n"
  shows "\<exists>d. rand_jitter draw jitter = Some d \<and> - jitter \<le> d \<and> d \<le> jitter"
proof (cases "jitter = 0")
  case False
  then have n: "wrap64 (2 * jitter + 1) = 2 * jitter + 1" using assms by simp
  have "0 \<le> draw (2 * jitter + 1) \<and> draw (2 * jitter + 1) < 2 * jitter + 1"
    using assms(1) assms(3) [of "2 * jitter + 1"] by simp
  then have "wrap64 (draw (2 * jitter + 1) - jitter) = draw (2 * jitter + 1) - jitter
      \<and> - jitter \<le> draw (2 * jitter + 1) - jitter \<and> draw (2 * jitter + 1) - jitter \<le> jitter"
    using assms(1,2) by (intro conjI wrap64_id) auto
  then show ?thesis using False n assms(1) by (simp add: rand_jitter_def Let_def)
qed (simp add: rand_jitter_def)

lemma rand_jitter_panics:
  assumes "2 ^ 62 \<le> jitter" "jitter < 2 ^ 63"
  shows "rand_jitter draw jitter = None"
proof -
  have "wrap64 (2 * jitter + 1) = 2 * jitter + 1 - 2 ^ 64"
  proof -
    have "(2 * jitter + 1 + 2 ^ 63) mod 2 ^ 64 = (2 * jitter + 1 + 2 ^ 63 - 2 ^ 64) mod (2 ^ 64 :: int)"
      by (metis minus_mod_self2)
    also have "\<dots> = 2 * jitter + 1 + 2 ^ 63 - 2 ^ 64" using assms by (intro mod_pos_pos_trivial) auto
    finally show ?thesis by (simp add: wrap64_def)
  qed
  then show ?thesis using assms by (auto simp: rand_jitter_def Let_def)
qed

text \<open>The delay before a throttled write; \<open>None\<close> when the draw panics.\<close>

definition write_delay :: "(int \<Rightarrow> int) \<Rightarrow> parsed_network \<Rightarrow> int option" where
  "write_delay draw n =
     (if 0 < pn_latency n
      then map_option (\<lambda>j. max 0 (wrap64 (pn_latency n + j))) (rand_jitter draw (pn_jitter n))
      else Some 0)"

text \<open>
  A throttled write: sleep for the latency, then for the bucket, then write.  \<open>awake\<close> says of
  each sleep whether it ran to its end (the context was not cancelled).
\<close>

definition throttled_write ::
    "(int \<Rightarrow> int) \<Rightarrow> (int \<Rightarrow> bool) \<Rightarrow> int \<Rightarrow> parsed_network \<Rightarrow> (int \<Rightarrow> 'w \<Rightarrow> io_result \<times> 'w)
       \<Rightarrow> int \<Rightarrow> rate_limiter option \<times> 'w \<Rightarrow> (io_result \<times> rate_limiter option \<times> 'w) option" where
  "throttled_write draw awake now net inner len s =
     (case write_delay draw net of
        None \<Rightarrow> None
      | Some delay \<Rightarrow>
          if 0 < delay \<and> \<not> awake delay then Some ((0, Some ContextDone), s)
          else (case fst s of
                  None \<Rightarrow> (case inner len (snd s) of (r, w) \<Rightarrow> Some (r, None, w))
                | Some bkt \<Rightarrow>
                    (case limiter_wait (now + delay) len bkt of
                       (bkt', d) \<Rightarrow>
                         if 0 < d \<and> \<not> awake d then Some ((0, Some ContextDone), Some bkt', snd s)
                         else (case inner len (snd s) of (r, w) \<Rightarrow> Some (r, Some bkt', w)))))"

definition throttled_read ::
    "(int \<Rightarrow> bool) \<Rightarrow> int \<Rightarrow> (int \<Rightarrow> 'w \<Rightarrow> io_result \<times> 'w) \<Rightarrow> int \<Rightarrow> rate_limiter option \<times> 'w
       \<Rightarrow> io_result \<times> rate_limiter option \<times> 'w" where
  "throttled_read awake now inner len s =
     (case inner len (snd s) of
        ((n, err), w) \<Rightarrow>
          (case fst s of
             None \<Rightarrow> ((n, err), None, w)
           | Some bkt \<Rightarrow>
               if 0 < n then
                 (case limiter_wait now n bkt of
                    (bkt', d) \<Rightarrow>
                      ((n, if 0 < d \<and> \<not> awake d \<and> err = None then Some ContextDone else err), Some bkt', w))
               else ((n, err), Some bkt, w)))"

text \<open>A chaos write: the configuration is read from the live pointer on every call; \<open>u1\<close> and
  \<open>u2\<close> are the uniform draws.\<close>

definition chaos_write ::
    "parsed_chaos option \<Rightarrow> rat \<Rightarrow> rat \<Rightarrow> (int \<Rightarrow> bool) \<Rightarrow> (int \<Rightarrow> 'w \<Rightarrow> io_result \<times> 'w) \<Rightarrow> int
       \<Rightarrow> chaos_counters \<times> 'w \<Rightarrow> io_result \<times> chaos_counters \<times> 'w" where
  "chaos_write cfg u1 u2 awake inner len s =
     (case cfg of
        None \<Rightarrow> (case inner len (snd s) of (r, w) \<Rightarrow> (r, fst s, w))
      | Some c \<Rightarrow>
          if \<not> pch_enabled c then (case inner len (snd s) of (r, w) \<Rightarrow> (r, fst s, w))
          else if f_less f_zero (pch_error_rate c) \<and> f_less (Fin u1) (pch_error_rate c)
          then ((0, Some ChaosInjected), (fst s)\<lparr>errors_injected := wrap64 (errors_injected (fst s) + 1)\<rparr>, snd s)
          else (let spike = (f_less f_zero (pch_spike_probability c) \<and> f_less (Fin u2) (pch_spike_probability c));
                    k = (if spike then (fst s)\<lparr>spikes_injected := wrap64 (spikes_injected (fst s) + 1)\<rparr> else fst s)
                in if spike \<and> 0 < pch_spike_duration c \<and> \<not> awake (pch_spike_duration c)
                   then ((0, Some ContextDone), k, snd s)
                   else (case inner len (snd s) of (r, w) \<Rightarrow> (r, k, w))))"

text \<open>Chaos never loses bytes silently: a write either reaches the stream once, with the
  stream's own answer, or reports an error with no byte written; with chaos off or rates zero it
  is the stream's write.\<close>

theorem chaos_write_sound:
  "(\<exists>k. chaos_write cfg u1 u2 awake inner len s = (fst (inner len (snd s)), k, snd (inner len (snd s))))
   \<or> (\<exists>e k. chaos_write cfg u1 u2 awake inner len s = ((0, Some e), k, snd s)
        \<and> e \<in> {ChaosInjected, ContextDone} \<and> (\<exists>c. cfg = Some c \<and> parsed_chaos_enabled c))"
  by (cases cfg) (auto simp: chaos_write_def Let_def parsed_chaos_enabled_def split: prod.splits)

subsection \<open>Transport cache\<close>

record 't transport_entry =
  te_transport :: 't
  te_created_at :: int

record 't transport_cache =
  tc_entries :: "(string, 't transport_entry) gomap"
  tc_max_age :: int

definition get_or_create ::
    "int \<Rightarrow> string \<Rightarrow> 'e + 't \<Rightarrow> 't transport_cache \<Rightarrow> ('e + 't transport_entry) \<times> 't transport_cache" where
  "get_or_create now key made c =
     (let fresh = (\<lambda>c'. case made of
                     Inl e \<Rightarrow> (Inl e, c')
                   | Inr t \<Rightarrow> (let en = \<lparr>te_transport = t, te_created_at = now\<rparr>
                              in (Inr en, c'\<lparr>tc_entries := gset key en (tc_entries c')\<rparr>)))
      in case gget (tc_entries c) key of
           Some en \<Rightarrow>
             if tc_max_age c \<le> 0 \<or> now - te_created_at en < tc_max_age c then (Inr en, c)
             else fresh (c\<lparr>tc_entries := gdel key (tc_entries c)\<rparr>)
         | None \<Rightarrow> fresh c)"

definition evict :: "string \<Rightarrow> 't transport_cache \<Rightarrow> 't transport_cache" where
  "evict key c = c\<lparr>tc_entries := gdel key (tc_entries c)\<rparr>"

definition close_cache :: "'t transport_cache \<Rightarrow> 't transport_cache" where
  "close_cache c = c\<lparr>tc_entries := []\<rparr>"

text \<open>What a caller gets is never expired, and another key is never touched.\<close>

lemma get_or_create_fresh:
  assumes "get_or_create now key made c = (Inr en, c')" "0 < tc_max_age c" "te_created_at en \<le> now"
  shows "now - te_created_at en < tc_max_age c \<and> gget (tc_entries c') key = Some en
    \<and> (\<forall>k. k \<noteq> key \<longrightarrow> gget (tc_entries c') k = gget (tc_entries c) k)"
  using assms by (auto simp: get_or_create_def Let_def split: option.splits if_splits sum.splits)

end
