(* ===== verification/Hook.thy ===== *)
theory Hook
  imports Files
begin

text \<open>
  Lifecycle hooks (\<^verbatim>\<open>internal/hook\<close>): event names, filters, the three kinds of hook, their
  construction from a configuration, and the dispatcher with its gate.  Running a command and
  posting a request are effects; what comes back from the outside is the parameter \<open>outcome\<close>,
  which gives the error of an effect, if any.
\<close>

subsection \<open>Events\<close>

datatype event_type =
    EventManagerStarting
  | EventManagerStopped
  | EventForwardConnected
  | EventForwardDisconnected
  | EventForwardFailed
  | EventForwardStopped
  | EventHealthCheckFailed
  | EventServiceAdded
  | EventServiceRemoved
  | EventPodTerminating

fun event_string :: "event_type \<Rightarrow> string" where
  "event_string EventManagerStarting = ''manager:starting''"
| "event_string EventManagerStopped = ''manager:stopped''"
| "event_string EventForwardConnected = ''forward:connected''"
| "event_string EventForwardDisconnected = ''forward:disconnected''"
| "event_string EventForwardFailed = ''forward:failed''"
| "event_string EventForwardStopped = ''forward:stopped''"
| "event_string EventHealthCheckFailed = ''health:check_failed''"
| "event_string EventServiceAdded = ''service:added''"
| "event_string EventServiceRemoved = ''service:removed''"
| "event_string EventPodTerminating = ''pod:terminating''"

definition event_names :: "(string \<times> event_type) list" where
  "event_names =
     [(''manager:starting'', EventManagerStarting), (''manager:stopped'', EventManagerStopped),
      (''forward:connected'', EventForwardConnected),
      (''forward:disconnected'', EventForwardDisconnected), (''forward:failed'', EventForwardFailed),
      (''forward:stopped'', EventForwardStopped), (''health:check_failed'', EventHealthCheckFailed),
      (''service:added'', EventServiceAdded), (''service:removed'', EventServiceRemoved),
      (''pod:terminating'', EventPodTerminating),
      (''manager_starting'', EventManagerStarting), (''manager_stopped'', EventManagerStopped),
      (''forward_connected'', EventForwardConnected),
      (''forward_disconnected'', EventForwardDisconnected), (''forward_failed'', EventForwardFailed),
      (''forward_stopped'', EventForwardStopped), (''health_check_failed'', EventHealthCheckFailed),
      (''service_added'', EventServiceAdded), (''service_removed'', EventServiceRemoved),
      (''pod_terminating'', EventPodTerminating)]"

definition parse_event_type :: "string \<Rightarrow> event_type option" where
  "parse_event_type s = map_of event_names s"

text \<open>The time is kept as the string its RFC 3339 formatting gives.\<close>

record event =
  ev_type :: event_type
  ev_time :: string
  ev_service :: string
  ev_parent_name :: string
  ev_port_name :: string
  ev_local_port :: int
  ev_remote_port :: int
  ev_pod_name :: string
  ev_restarts :: int
  ev_error :: "string option"

lemma parse_event_string: "parse_event_type (event_string e) = Some e"
  by (induction e; code_simp)

lemma event_string_inj: "event_string a = event_string b \<Longrightarrow> a = b"
  by (metis option.inject parse_event_string)

lemma parse_new_event_name: "parse_event_type (new_event_name n) = parse_event_type n"
proof (cases "map_of legacy_event_names n")
  case (Some m)
  then have "(n, m) \<in> set legacy_event_names" by (rule map_of_SomeD)
  moreover have "list_all (\<lambda>(n, m). parse_event_type m = parse_event_type n) legacy_event_names"
    by code_simp
  ultimately have "parse_event_type m = parse_event_type n" by (auto simp: list_all_iff)
  then show ?thesis by (simp add: new_event_name_def Some)
qed (simp add: new_event_name_def)

text \<open>Event names round-trip, and the migration of legacy names keeps the event each name
  of a hook stands for.\<close>

theorem event_names_sound:
  "parse_event_type (event_string e) = Some e
   \<and> map parse_event_type (hk_events (migrate_hook_event_names h)) = map parse_event_type (hk_events h)"
  by (simp add: parse_event_string migrate_hook_event_names_def parse_new_event_name comp_def)

subsection \<open>Filters\<close>

text \<open>A filter is \<open>None\<close> (all services) or the set of names, as \<^verbatim>\<open>map[string]bool\<close>.\<close>

definition build_filter :: "string list \<Rightarrow> string list option" where
  "build_filter services = (if services = [] then None else Some services)"

definition matches_filter :: "string list option \<Rightarrow> event \<Rightarrow> bool" where
  "matches_filter filt e =
     (case filt of
        None \<Rightarrow> True
      | Some fs \<Rightarrow>
          if ev_service e = [] then True
          else if ev_service e \<in> set fs then True
          else ev_parent_name e \<noteq> [] \<and> ev_parent_name e \<in> set fs)"

subsection \<open>Environment variables and templates\<close>

definition sanitize_env_value :: "string \<Rightarrow> string" where
  "sanitize_env_value s =
     (let s1 = map (\<lambda>c. if char_val c = 10 then CHR '' '' else c) s;
          s2 = map (\<lambda>c. if char_val c = 13 then CHR '' '' else c) s1
      in filter (\<lambda>c. char_val c \<noteq> 0) s2)"

definition event_env :: "event \<Rightarrow> string list" where
  "event_env e =
     [''KUBEPORT_EVENT='' @ event_string (ev_type e),
      ''KUBEPORT_SERVICE='' @ sanitize_env_value (ev_service e),
      ''KUBEPORT_PARENT_NAME='' @ sanitize_env_value (ev_parent_name e),
      ''KUBEPORT_PORT_NAME='' @ sanitize_env_value (ev_port_name e),
      ''KUBEPORT_LOCAL_PORT='' @ itoa (ev_local_port e),
      ''KUBEPORT_REMOTE_PORT='' @ itoa (ev_remote_port e),
      ''KUBEPORT_POD='' @ sanitize_env_value (ev_pod_name e),
      ''KUBEPORT_RESTARTS='' @ itoa (ev_restarts e)] @
     (case ev_error e of None \<Rightarrow> [] | Some err \<Rightarrow> [''KUBEPORT_ERROR='' @ sanitize_env_value err])"

definition shell_metachars :: "nat list" where
  "shell_metachars = [96, 36, 40, 41, 123, 125, 91, 93, 124, 38, 59, 60, 62, 10, 13, 0]"

definition sanitize_shell_value :: "string \<Rightarrow> string" where
  "sanitize_shell_value s = filter (\<lambda>c. char_val c \<notin> set shell_metachars) s"

text \<open>\<^verbatim>\<open>e.Error.Error()\<close>, empty without an error.\<close>

definition err_string :: "event \<Rightarrow> string" where
  "err_string e = (case ev_error e of None \<Rightarrow> [] | Some s \<Rightarrow> s)"

definition template_vars :: "(string \<Rightarrow> string) \<Rightarrow> (string \<Rightarrow> string) \<Rightarrow> event \<Rightarrow> (string \<times> string) list" where
  "template_vars enc_event enc e =
     [(''EVENT'', enc_event (event_string (ev_type e))), (''SERVICE'', enc (ev_service e)),
      (''PARENT_NAME'', enc (ev_parent_name e)), (''PORT_NAME'', enc (ev_port_name e)),
      (''PORT'', itoa (ev_local_port e)), (''REMOTE_PORT'', itoa (ev_remote_port e)),
      (''POD'', enc (ev_pod_name e)), (''RESTARTS'', itoa (ev_restarts e)),
      (''ERROR'', enc (err_string e)), (''TIME'', ev_time e)]"

definition placeholder :: "string \<Rightarrow> string" where
  "placeholder v = ''${'' @ v @ ''}''"

definition replace_vars :: "(string \<times> string) list \<Rightarrow> string \<Rightarrow> string" where
  "replace_vars vars s = foldl (\<lambda>s (v, val). replace_all s (placeholder v) val) s vars"

definition expand_vars :: "string \<Rightarrow> event \<Rightarrow> string" where
  "expand_vars s e = replace_vars (template_vars (\<lambda>x. x) sanitize_shell_value e) s"

text \<open>
  \<^verbatim>\<open>jsonEncodeString\<close>: the escapes of \<^verbatim>\<open>encoding/json\<close> for a valid UTF-8 string of characters up
  to U+2027; the two separators U+2028 and U+2029 are escaped too by the library.
\<close>

definition json_encode_char :: "char \<Rightarrow> string" where
  "json_encode_char c =
     (let n = char_val c
      in if n = 34 \<or> n = 92 then [CHR 0x5C, c]
         else if n = 8 then [CHR 0x5C, CHR ''b'']
         else if n = 12 then [CHR 0x5C, CHR ''f'']
         else if n = 10 then [CHR 0x5C, CHR ''n'']
         else if n = 13 then [CHR 0x5C, CHR ''r'']
         else if n = 9 then [CHR 0x5C, CHR ''t'']
         else if n < 32 \<or> n = 60 \<or> n = 62 \<or> n = 38
         then [CHR 0x5C, CHR ''u'', CHR ''0'', CHR ''0'', hex_digit (n div 16), hex_digit (n mod 16)]
         else [c])"

definition json_encode_string :: "string \<Rightarrow> string" where
  "json_encode_string s = concat (map json_encode_char s)"

definition expand_vars_json :: "string \<Rightarrow> event \<Rightarrow> string" where
  "expand_vars_json s e = replace_vars (template_vars json_encode_string json_encode_string e) s"

text \<open>A template as the text between its placeholders and the names in them.\<close>

datatype piece = Lit string | Hole string

fun render :: "piece list \<Rightarrow> string" where
  "render [] = []"
| "render (Lit s # ps) = s @ render ps"
| "render (Hole v # ps) = placeholder v @ render ps"

fun fill_piece :: "string \<Rightarrow> string \<Rightarrow> piece \<Rightarrow> piece" where
  "fill_piece v val (Lit s) = Lit s"
| "fill_piece v val (Hole w) = (if w = v then Lit val else Hole w)"

fun piece_plain :: "piece \<Rightarrow> bool" where
  "piece_plain (Lit s) = (CHR ''$'' \<notin> set s)"
| "piece_plain (Hole v) = (CHR ''$'' \<notin> set v \<and> CHR ''}'' \<notin> set v)"

fun piece_text :: "(string \<Rightarrow> string option) \<Rightarrow> piece \<Rightarrow> string" where
  "piece_text val (Lit s) = s"
| "piece_text val (Hole v) = (case val v of None \<Rightarrow> placeholder v | Some t \<Rightarrow> t)"

lemma replace_all_skip:
  "CHR ''$'' \<notin> set s \<Longrightarrow> replace_all (s @ r) (placeholder v) val = s @ replace_all r (placeholder v) val"
  by (induction s) (auto simp: replace_all.simps placeholder_def)

lemma replace_all_hit:
  "replace_all (placeholder v @ r) (placeholder v) val = val @ replace_all r (placeholder v) val"
proof -
  obtain c p where p: "placeholder v = c # p" by (simp add: placeholder_def)
  have "has_prefix (placeholder v @ r) (placeholder v)" by (rule has_prefix_append)
  then show ?thesis by (simp add: p replace_all.simps)
qed

lemma brace_prefix:
  "CHR ''}'' \<notin> set v \<Longrightarrow> CHR ''}'' \<notin> set w \<Longrightarrow>
   has_prefix (w @ CHR ''}'' # r) (v @ ''}'') \<Longrightarrow> w = v"
proof (induction v arbitrary: w)
  case Nil
  then show ?case by (cases w) auto
next
  case (Cons a v)
  then show ?case by (cases w) auto
qed

lemma replace_all_miss:
  assumes "CHR ''$'' \<notin> set w" "CHR ''}'' \<notin> set w" "CHR ''}'' \<notin> set v" "w \<noteq> v"
  shows "replace_all (placeholder w @ r) (placeholder v) val = placeholder w @ replace_all r (placeholder v) val"
proof -
  have n: "\<not> has_prefix (placeholder w @ r) (placeholder v)"
    using assms(2-4) brace_prefix [of v w r] by (auto simp: placeholder_def)
  have "replace_all ((CHR ''{'' # w @ ''}'') @ r) (placeholder v) val
      = (CHR ''{'' # w @ ''}'') @ replace_all r (placeholder v) val"
    using assms(1) by (intro replace_all_skip) auto
  with n show ?thesis by (simp add: placeholder_def replace_all.simps)
qed

lemma replace_all_render:
  "list_all piece_plain ps \<Longrightarrow> CHR ''}'' \<notin> set v \<Longrightarrow>
   replace_all (render ps) (placeholder v) val = render (map (fill_piece v val) ps)"
proof (induction ps)
  case Nil
  then show ?case by (simp add: replace_all.simps)
next
  case (Cons p ps)
  then show ?case by (cases p) (auto simp: replace_all_skip replace_all_hit replace_all_miss)
qed

lemma fill_plain:
  "list_all piece_plain ps \<Longrightarrow> CHR ''$'' \<notin> set val \<Longrightarrow> list_all piece_plain (map (fill_piece v val) ps)"
proof (induction ps)
  case (Cons p ps)
  then show ?case by (cases p) auto
qed simp

lemma render_text:
  "render ps = concat (map (piece_text (\<lambda>_. None)) ps)"
  by (induction ps rule: render.induct) auto

lemma fill_text:
  "map (piece_text val) (map (fill_piece v t) ps) = map (piece_text (\<lambda>w. if w = v then Some t else val w)) ps"
proof (induction ps)
  case (Cons p ps)
  then show ?case by (cases p) auto
qed simp

lemma replace_vars_render:
  assumes "list_all piece_plain ps" "\<And>v t. (v, t) \<in> set vars \<Longrightarrow> CHR ''$'' \<notin> set t \<and> CHR ''}'' \<notin> set v"
  shows "replace_vars vars (render ps) = concat (map (piece_text (map_of vars)) ps)"
  using assms
proof (induction vars arbitrary: ps)
  case Nil
  then show ?case by (simp add: replace_vars_def render_text)
next
  case (Cons a vars)
  obtain v t where a: "a = (v, t)" by (cases a)
  have v: "CHR ''$'' \<notin> set t" "CHR ''}'' \<notin> set v" using Cons.prems(2) [of v t] a by auto
  have "replace_vars (a # vars) (render ps) = replace_vars vars (render (map (fill_piece v t) ps))"
    using Cons.prems(1) v(2) by (simp add: replace_vars_def a replace_all_render)
  also have "\<dots> = concat (map (piece_text (map_of vars)) (map (fill_piece v t) ps))"
    using Cons.prems fill_plain [OF Cons.prems(1) v(1)] by (intro Cons.IH) auto
  also have "\<dots> = concat (map (piece_text (map_of (a # vars))) ps)"
    by (simp only: fill_text) (simp add: a fun_upd_def)
  finally show ?case .
qed

lemma sanitize_shell_clean: "c \<in> set (sanitize_shell_value s) \<Longrightarrow> char_val c \<notin> set shell_metachars"
  by (auto simp: sanitize_shell_value_def)

lemma sanitize_no_dollar: "CHR ''$'' \<notin> set (sanitize_shell_value s)"
  using sanitize_shell_clean [of "CHR ''$''" s] by (auto simp: shell_metachars_def char_val_def)

lemma itoa_no_dollar: "CHR ''$'' \<notin> set (itoa n)"
proof -
  have "CHR ''$'' \<notin> set (nat_digits k)" for k
  proof
    assume "CHR ''$'' \<in> set (nat_digits k)"
    with nat_digits_all [of k] have "is_digit CHR ''$''" by (simp add: list_all_iff)
    then show False by (simp add: is_digit_def char_val_def)
  qed
  then show ?thesis by (simp add: itoa_def)
qed

lemma event_string_no_dollar: "CHR ''$'' \<notin> set (event_string t)"
  by (induction t) auto

text \<open>Expanding a template is simultaneous substitution.  Although the code replaces one
  variable after the other in the whole string, no value is ever expanded again: every
  placeholder is replaced by its own value, and the text in between is kept.\<close>

theorem expand_vars_simultaneous:
  assumes "list_all piece_plain ps" "CHR ''$'' \<notin> set (ev_time e)"
  shows "expand_vars (render ps) e =
    concat (map (piece_text (map_of (template_vars (\<lambda>x. x) sanitize_shell_value e))) ps)"
  unfolding expand_vars_def
proof (rule replace_vars_render [OF assms(1)])
  fix v t assume "(v, t) \<in> set (template_vars (\<lambda>x. x) sanitize_shell_value e)"
  then show "CHR ''$'' \<notin> set t \<and> CHR ''}'' \<notin> set v"
    using assms(2) sanitize_no_dollar itoa_no_dollar event_string_no_dollar
    by (auto simp: template_vars_def)
qed

theorem expand_vars_simultaneous_witness:
  "expand_vars (render [Lit ''notify '', Hole ''SERVICE'', Lit '' '', Hole ''ERROR''])
     \<lparr>ev_type = EventForwardFailed, ev_time = ''t'', ev_service = ''web'', ev_parent_name = [],
      ev_port_name = [], ev_local_port = 80, ev_remote_port = 80, ev_pod_name = [], ev_restarts = 0,
      ev_error = Some ''${POD}''\<rparr> = ''notify web POD''"
  using expand_vars_simultaneous [of "[Lit ''notify '', Hole ''SERVICE'', Lit '' '', Hole ''ERROR'']"
     "\<lparr>ev_type = EventForwardFailed, ev_time = ''t'', ev_service = ''web'', ev_parent_name = [],
      ev_port_name = [], ev_local_port = 80, ev_remote_port = 80, ev_pod_name = [], ev_restarts = 0,
      ev_error = Some ''${POD}''\<rparr>"]
  by (simp add: template_vars_def sanitize_shell_value_def shell_metachars_def char_val_def err_string_def)

end
