(* ===== verification/Dispatcher.thy ===== *)
theory Dispatcher
  imports Hook
begin

text \<open>
  The hooks themselves and the dispatcher (\<^verbatim>\<open>internal/hook/{shell,exec,webhook,build,hook}.go\<close>).
  A hook turns an event into at most one effect; \<open>outcome\<close> says what the outside answers.
  Notifications run in goroutines of their own: the dispatcher's result is the list of what it
  starts (\<open>Async\<close>) or runs to its end (\<open>Gate\<close>), in order.
\<close>

subsection \<open>Hooks and their effects\<close>

datatype hook_kind =
    ShellHook "(event_type, string) gomap"
  | ExecHook "string list"
  | WebhookHook string "(string, string) gomap" string

record hook =
  h_name :: string
  h_kind :: hook_kind
  h_filter :: "string list option"

datatype effect =
    RunShell string "string list"
  | RunExec "string list" "string list"
  | Post string "(string, string) gomap" string

datatype answer = Failed string | Status int | Succeeded

datatype hook_run_err =
    ShellFailed string string
  | ExecFailed string string
  | WebhookBlocked string
  | WebhookFailed string
  | WebhookStatus string int

subsection \<open>Webhook addresses\<close>

text \<open>\<^verbatim>\<open>net.IP\<close>: 4 or 16 bytes; \<^verbatim>\<open>To4\<close> strips the prefix of a mapped address.\<close>

definition to4 :: "nat list \<Rightarrow> nat list" where
  "to4 ip = (if length ip = 16 \<and> take 12 ip = replicate 10 0 @ [255, 255] then drop 12 ip else ip)"

fun bytes_val :: "nat \<Rightarrow> nat list \<Rightarrow> nat" where
  "bytes_val a [] = a"
| "bytes_val a (b # bs) = bytes_val (256 * a + b) bs"

definition metadata_ranges :: "(nat list \<times> nat) list" where
  "metadata_ranges = [([169, 254, 0, 0], 16), ([100, 64, 0, 0], 10)]"

definition net_contains :: "nat list \<times> nat \<Rightarrow> nat list \<Rightarrow> bool" where
  "net_contains r ip =
     (length (to4 ip) = 4
      \<and> bytes_val 0 (to4 ip) div 2 ^ (32 - snd r) = bytes_val 0 (fst r) div 2 ^ (32 - snd r))"

definition is_metadata_ip :: "nat list \<Rightarrow> bool" where
  "is_metadata_ip ip = list_ex (\<lambda>r. net_contains r ip) metadata_ranges"

text \<open>
  \<open>url_parse\<close> gives scheme and host name, \<open>lookup_host\<close> the resolver's answer and \<open>parse_ip\<close> the
  bytes of an address.
\<close>

record net_env =
  url_parse :: "string \<Rightarrow> (string \<times> string) option"
  lookup_host :: "string \<Rightarrow> string list option"
  parse_ip :: "string \<Rightarrow> nat list option"

definition webhook_url_ok :: "net_env \<Rightarrow> string \<Rightarrow> bool" where
  "webhook_url_ok net raw_url =
     (case url_parse net raw_url of
        None \<Rightarrow> False
      | Some (scheme, host) \<Rightarrow>
          (to_lower scheme = ''http'' \<or> to_lower scheme = ''https'')
          \<and> (case lookup_host net host of
               None \<Rightarrow> True
             | Some ips \<Rightarrow>
                 \<not> list_ex (\<lambda>s. case parse_ip net s of None \<Rightarrow> False | Some ip \<Rightarrow> is_metadata_ip ip) ips))"

subsection \<open>Running a hook\<close>

definition json_field :: "string \<Rightarrow> string \<Rightarrow> string" where
  "json_field k v = ''\"'' @ k @ ''\":'' @ v"

definition json_quoted :: "string \<Rightarrow> string" where
  "json_quoted s = ''\"'' @ json_encode_string s @ ''\"''"

text \<open>\<^verbatim>\<open>json.Marshal\<close> of a map writes the keys in sorted order.\<close>

definition default_payload :: "event \<Rightarrow> string" where
  "default_payload e =
     ''{'' @ join '','' (
       (case ev_error e of None \<Rightarrow> [] | Some s \<Rightarrow> [json_field ''error'' (json_quoted s)]) @
       [json_field ''event'' (json_quoted (event_string (ev_type e))),
        json_field ''local_port'' (itoa (ev_local_port e)),
        json_field ''parent_name'' (json_quoted (ev_parent_name e)),
        json_field ''pod'' (json_quoted (ev_pod_name e)),
        json_field ''port_name'' (json_quoted (ev_port_name e)),
        json_field ''remote_port'' (itoa (ev_remote_port e)),
        json_field ''restarts'' (itoa (ev_restarts e)),
        json_field ''service'' (json_quoted (ev_service e)),
        json_field ''time'' (json_quoted (ev_time e))]) @ ''}''"

definition has_content_type :: "(string, string) gomap \<Rightarrow> bool" where
  "has_content_type hs = list_ex (\<lambda>(k, v). equal_fold k ''Content-Type'' \<and> v \<noteq> []) hs"

definition request_headers :: "(string, string) gomap \<Rightarrow> (string, string) gomap" where
  "request_headers hs =
     (if has_content_type hs then hs
      else filter (\<lambda>(k, v). \<not> equal_fold k ''Content-Type'') hs @ [(''Content-Type'', ''application/json'')])"

text \<open>The effect an event has on a hook: none when filtered out or without a command for it.\<close>

definition hook_effect :: "hook \<Rightarrow> event \<Rightarrow> effect option" where
  "hook_effect h e =
     (if \<not> matches_filter (h_filter h) e then None
      else (case h_kind h of
              ShellHook cmds \<Rightarrow> map_option (\<lambda>cmd. RunShell cmd (event_env e)) (gget cmds (ev_type e))
            | ExecHook command \<Rightarrow> Some (RunExec (map (\<lambda>t. expand_vars t e) command) (event_env e))
            | WebhookHook url hs body \<Rightarrow>
                Some (Post url (request_headers hs)
                  (if body \<noteq> [] then expand_vars_json body e else default_payload e))))"

definition run_effect :: "net_env \<Rightarrow> (effect \<Rightarrow> answer) \<Rightarrow> string \<Rightarrow> effect \<Rightarrow> hook_run_err option" where
  "run_effect net outcome name ef =
     (case ef of
        RunShell cmd env \<Rightarrow> (case outcome ef of Failed s \<Rightarrow> Some (ShellFailed name s) | _ \<Rightarrow> None)
      | RunExec args env \<Rightarrow> (case outcome ef of Failed s \<Rightarrow> Some (ExecFailed name s) | _ \<Rightarrow> None)
      | Post url hs body \<Rightarrow>
          if \<not> webhook_url_ok net url then Some (WebhookBlocked name)
          else (case outcome ef of
                  Failed s \<Rightarrow> Some (WebhookFailed url)
                | Status n \<Rightarrow> if 400 \<le> n then Some (WebhookStatus url n) else None
                | Succeeded \<Rightarrow> None))"

definition on_event :: "net_env \<Rightarrow> (effect \<Rightarrow> answer) \<Rightarrow> hook \<Rightarrow> event \<Rightarrow> hook_run_err option" where
  "on_event net outcome h e =
     (case hook_effect h e of None \<Rightarrow> None | Some ef \<Rightarrow> run_effect net outcome (h_name h) ef)"

subsection \<open>Building a hook from its configuration\<close>

datatype fail_mode = FailOpen | FailClosed

record registration =
  reg_hook :: hook
  reg_events :: "event_type list"
  reg_fail_mode :: fail_mode
  reg_timeout :: int

datatype build_err =
    HookTimeout string string
  | UnknownEvent string string
  | ShellNeedsCommands string
  | ShellUnknownEvent string
  | WebhookNeedsURL string
  | ExecNeedsCommand string
  | UnknownHookType string string

definition parse_events :: "string \<Rightarrow> string list \<Rightarrow> build_err + event_type list" where
  "parse_events hook_name names =
     map_result (\<lambda>n. case parse_event_type n of None \<Rightarrow> Inl (UnknownEvent hook_name n) | Some t \<Rightarrow> Inr t) names"

text \<open>The loops over the shell commands follow the order of the list.\<close>

fun shell_commands :: "(event_type, string) gomap \<Rightarrow> (string, string) gomap \<Rightarrow> build_err + (event_type, string) gomap" where
  "shell_commands cmds [] = Inr cmds"
| "shell_commands cmds ((n, cmd) # rest) =
     (case parse_event_type n of
        None \<Rightarrow> Inl (ShellUnknownEvent n)
      | Some t \<Rightarrow> shell_commands (gset t cmd cmds) rest)"

definition new_shell_hook :: "string \<Rightarrow> (string, string) gomap \<Rightarrow> string list \<Rightarrow> build_err + hook" where
  "new_shell_hook name commands services =
     sbind (shell_commands [] commands) (\<lambda>cmds.
       Inr \<lparr>h_name = name, h_kind = ShellHook cmds, h_filter = build_filter services\<rparr>)"

definition new_exec_hook :: "string \<Rightarrow> string list \<Rightarrow> string list \<Rightarrow> build_err + hook" where
  "new_exec_hook name command services =
     (if command = [] then Inl (ExecNeedsCommand name)
      else Inr \<lparr>h_name = name, h_kind = ExecHook command, h_filter = build_filter services\<rparr>)"

definition new_webhook_hook ::
    "string \<Rightarrow> string \<Rightarrow> (string, string) gomap \<Rightarrow> string \<Rightarrow> string list \<Rightarrow> hook" where
  "new_webhook_hook name raw_url hs body services =
     \<lparr>h_name = name, h_kind = WebhookHook raw_url hs body, h_filter = build_filter services\<rparr>"

definition inferred_events :: "(string, string) gomap \<Rightarrow> event_type list" where
  "inferred_events shell = List.map_filter (\<lambda>(n, cmd). parse_event_type n) shell"

definition build_hook :: "hook_config \<Rightarrow> event_type list \<Rightarrow> build_err + hook \<times> event_type list" where
  "build_hook hc events =
     (if hk_type hc = ''shell'' then
        (if hk_shell hc = [] then Inl (ShellNeedsCommands (hk_name hc))
         else sbind (new_shell_hook (hk_name hc) (hk_shell hc) (hk_filter_services hc)) (\<lambda>h.
           Inr (h, if events = [] then inferred_events (hk_shell hc) else events)))
      else if hk_type hc = ''webhook'' then
        (case hk_webhook hc of
           None \<Rightarrow> Inl (WebhookNeedsURL (hk_name hc))
         | Some w \<Rightarrow>
             if wh_url w = [] then Inl (WebhookNeedsURL (hk_name hc))
             else Inr (new_webhook_hook (hk_name hc) (wh_url w) (wh_headers w) (wh_body_template w)
                         (hk_filter_services hc), events))
      else if hk_type hc = ''exec'' then
        (case hk_exec hc of
           None \<Rightarrow> Inl (ExecNeedsCommand (hk_name hc))
         | Some command \<Rightarrow>
             if command = [] then Inl (ExecNeedsCommand (hk_name hc))
             else sbind (new_exec_hook (hk_name hc) command (hk_filter_services hc)) (\<lambda>h. Inr (h, events)))
      else Inl (UnknownHookType (hk_name hc) (hk_type hc)))"

definition build_from_config :: "hook_config \<Rightarrow> build_err + registration" where
  "build_from_config hc =
     (case (if hk_timeout hc = [] then Some (10 * sec) else parse_duration (hk_timeout hc)) of
        None \<Rightarrow> Inl (HookTimeout (hk_name hc) (hk_timeout hc))
      | Some timeout \<Rightarrow>
          sbind (parse_events (hk_name hc) (hk_events hc)) (\<lambda>events.
          sbind (build_hook hc events) (\<lambda>(h, evs).
          Inr \<lparr>reg_hook = h, reg_events = evs,
               reg_fail_mode = (if hk_fail_mode hc = ''closed'' then FailClosed else FailOpen),
               reg_timeout = timeout\<rparr>)))"

subsection \<open>The dispatcher\<close>

record registered_hook =
  rh_hook :: hook
  rh_events :: "event_type list option"
  rh_fail_mode :: fail_mode
  rh_timeout :: int

type_synonym dispatcher = "registered_hook list"

definition register :: "registration \<Rightarrow> dispatcher \<Rightarrow> dispatcher" where
  "register reg d =
     d @ [\<lparr>rh_hook = reg_hook reg,
           rh_events = (if 0 < length (reg_events reg) then Some (reg_events reg) else None),
           rh_fail_mode = reg_fail_mode reg,
           rh_timeout = (if reg_timeout reg = 0 then 10 * sec else reg_timeout reg)\<rparr>]"

datatype activity = Async registered_hook | Gate registered_hook

datatype fire_err = Blocked string hook_run_err

definition interested :: "event \<Rightarrow> registered_hook \<Rightarrow> bool" where
  "interested e rh = (case rh_events rh of None \<Rightarrow> True | Some evs \<Rightarrow> ev_type e \<in> set evs)"

text \<open>Only the shell hook implements \<^verbatim>\<open>GateHook\<close>.\<close>

definition is_gate_hook :: "registered_hook \<Rightarrow> bool" where
  "is_gate_hook rh = (case h_kind (rh_hook rh) of ShellHook _ \<Rightarrow> True | _ \<Rightarrow> False)"

definition fire_gate ::
    "net_env \<Rightarrow> (effect \<Rightarrow> answer) \<Rightarrow> registered_hook \<Rightarrow> event \<Rightarrow> activity \<times> fire_err option" where
  "fire_gate net outcome rh e =
     (if \<not> is_gate_hook rh then (Async rh, None)
      else (Gate rh,
            case on_event net outcome (rh_hook rh) e of
              None \<Rightarrow> None
            | Some err \<Rightarrow>
                if rh_fail_mode rh = FailClosed then Some (Blocked (h_name (rh_hook rh)) err) else None))"

fun fire_loop ::
    "net_env \<Rightarrow> (effect \<Rightarrow> answer) \<Rightarrow> event \<Rightarrow> registered_hook list \<Rightarrow> activity list \<times> fire_err option" where
  "fire_loop net outcome e [] = ([], None)"
| "fire_loop net outcome e (rh # rest) =
     (if \<not> interested e rh then fire_loop net outcome e rest
      else if ev_type e = EventManagerStarting then
        (case fire_gate net outcome rh e of
           (act, Some err) \<Rightarrow> ([act], Some err)
         | (act, None) \<Rightarrow> (case fire_loop net outcome e rest of (acts, r) \<Rightarrow> (act # acts, r)))
      else (case fire_loop net outcome e rest of (acts, r) \<Rightarrow> (Async rh # acts, r)))"

text \<open>A nil dispatcher is \<open>None\<close>.\<close>

definition fire ::
    "net_env \<Rightarrow> (effect \<Rightarrow> answer) \<Rightarrow> dispatcher option \<Rightarrow> event \<Rightarrow> activity list \<times> fire_err option" where
  "fire net outcome d e = (case d of None \<Rightarrow> ([], None) | Some hooks \<Rightarrow> fire_loop net outcome e hooks)"

subsection \<open>Properties\<close>

definition blocks :: "net_env \<Rightarrow> (effect \<Rightarrow> answer) \<Rightarrow> event \<Rightarrow> registered_hook \<Rightarrow> bool" where
  "blocks net outcome e rh =
     (interested e rh \<and> ev_type e = EventManagerStarting \<and> is_gate_hook rh
      \<and> rh_fail_mode rh = FailClosed \<and> on_event net outcome (rh_hook rh) e \<noteq> None)"

definition activity_of :: "event \<Rightarrow> registered_hook \<Rightarrow> activity" where
  "activity_of e rh =
     (if ev_type e = EventManagerStarting \<and> is_gate_hook rh then Gate rh else Async rh)"

definition reached :: "('a \<Rightarrow> bool) \<Rightarrow> 'a list \<Rightarrow> 'a list" where
  "reached P xs = takeWhile (\<lambda>x. \<not> P x) xs @ take 1 (dropWhile (\<lambda>x. \<not> P x) xs)"

lemma reached_simps [simp]:
  "reached P [] = []" "reached P (x # xs) = (if P x then [x] else x # reached P xs)"
  by (auto simp: reached_def)

text \<open>C25: firing aborts exactly when a subscribed fail-closed shell hook fails on the starting
  event, the hooks before it and it alone have been started, and no hook after it; any other
  event never fails and reaches every subscribed hook.\<close>

theorem fire_correct:
  "(snd (fire_loop net outcome e hooks) \<noteq> None) = list_ex (blocks net outcome e) hooks
   \<and> fst (fire_loop net outcome e hooks) =
       map (activity_of e) (filter (interested e) (reached (blocks net outcome e) hooks))"
proof (induction hooks)
  case (Cons rh rest)
  then show ?case
    by (cases "fire_loop net outcome e rest")
      (auto simp: fire_gate_def blocks_def activity_of_def split: option.splits)
qed simp

text \<open>\<^verbatim>\<open>fail_mode: closed\<close> on an exec or webhook hook never aborts: however the hooks
  answer, a dispatcher without shell hooks lets the manager start.\<close>

theorem only_shell_hooks_gate:
  assumes "list_all (\<lambda>rh. \<not> is_gate_hook rh) hooks"
  shows "snd (fire_loop net outcome e hooks) = None"
  using assms
  by (induction hooks) (auto simp: fire_gate_def split: prod.splits option.splits)

theorem only_shell_hooks_gate_witness:
  "\<forall>net. snd (fire_loop net (\<lambda>_. Failed ''exit 1'')
     \<lparr>ev_type = EventManagerStarting, ev_time = [], ev_service = [], ev_parent_name = [],
      ev_port_name = [], ev_local_port = 0, ev_remote_port = 0, ev_pod_name = [], ev_restarts = 0,
      ev_error = None\<rparr>
     [\<lparr>rh_hook = \<lparr>h_name = ''vpn'', h_kind = ExecHook [''vpn-up''], h_filter = None\<rparr>,
       rh_events = None, rh_fail_mode = FailClosed, rh_timeout = 10 * sec\<rparr>]) = None"
  by (intro allI only_shell_hooks_gate) (simp add: is_gate_hook_def)

end
