(* ===== verification/Manager.thy ===== *)
theory Manager
  imports Ports Streams Dispatcher
begin

text \<open>
  The port-forward manager (\<^verbatim>\<open>internal/proxy/manager.go\<close>): its state, the reservation and removal
  of forwards, the expansion of multi-port services, reload, apply, release and the
  externally-owned overlay.

  A \<^verbatim>\<open>*portForward\<close> is an address into a heap of forwards, because a supervising goroutine keeps
  its pointer after the forward has left the map.  \<open>mg_tasks\<close> lists the goroutines that run
  \<^verbatim>\<open>superviseMulti\<close> (while it resolves) and \<^verbatim>\<open>superviseSingle\<close>; \<open>mg_fired\<close> lists the events
  handed to the dispatcher.  Commands run one at a time in the event loop, so each is a function
  on the state; where the code ranges over a map the order of the list stands for the order of
  the iteration, or is a parameter \<open>ord\<close>.
\<close>

subsection \<open>State\<close>

datatype forward_state =
    StateStarting | StateRunning | StateFailed | StateStopped | StateWaiting | StateExternal

fun state_string :: "forward_state \<Rightarrow> string" where
  "state_string StateStarting = ''starting''"
| "state_string StateRunning = ''running''"
| "state_string StateFailed = ''failed''"
| "state_string StateStopped = ''stopped''"
| "state_string StateWaiting = ''waiting''"
| "state_string StateExternal = ''external''"

text \<open>Why an attempt, or the resolution of a multi-port service, ended.\<close>

datatype run_err =
    Preempted
  | RunResolve resolve_err
  | DialFailed string
  | ForwarderFailed string
  | StartupFailed string
  | ClosedBeforeReady
  | AttemptCancelled
  | ReadyTimedOut
  | ForwardFailed string
  | ForwardClosed
  | MaxAgeReached int
  | Degraded int
  | Unhealthy int
  | ListenFailed string
  | AcceptFailed string
  | TransportFailed string

record forward =
  fw_svc :: service_config
  fw_namespace :: string
  fw_state :: forward_state
  fw_err :: "run_err option"
  fw_restarts :: int
  fw_last_start :: int
  fw_next_retry :: "int option"
  fw_actual_port :: int
  fw_counter :: byte_counter
  fw_current_pod :: string
  fw_target_port :: int
  fw_preempt :: "string option"
  fw_tunnel_open :: bool
  fw_source_config :: string
  fw_chaos_override :: "parsed_chaos option"
  fw_has_override :: bool

record external_forward =
  ef_service :: service_config
  ef_instance :: string
  ef_pid :: int
  ef_config_file :: string
  ef_actual_port :: int

datatype task = Resolving service_config | Supervising nat

record manager =
  mg_cfg :: config
  mg_heap :: "nat \<Rightarrow> forward"
  mg_next :: nat
  mg_forwards :: "(string, nat) gomap"
  mg_order :: "string list"
  mg_children :: "(string, string list) gomap"
  mg_external :: "(string, external_forward) gomap"
  mg_detector :: "(config \<Rightarrow> external_forward list) option"
  mg_started :: bool
  mg_stopped :: bool
  mg_tasks :: "task list"
  mg_cancelled :: "nat list"
  mg_fired :: "event list"

datatype mgr_err =
    AlreadyExists string
  | LocalPortInUse int string
  | NotFound string
  | NotStarted
  | ManagerStopped
  | InvalidService svc_err

definition new_forward :: "service_config \<Rightarrow> string \<Rightarrow> forward" where
  "new_forward svc namespace =
     \<lparr>fw_svc = svc, fw_namespace = namespace, fw_state = StateStarting, fw_err = None, fw_restarts = 0,
      fw_last_start = 0, fw_next_retry = None, fw_actual_port = 0, fw_counter = zero_counter,
      fw_current_pod = [], fw_target_port = 0, fw_preempt = None, fw_tunnel_open = False,
      fw_source_config = svc_source_config svc, fw_chaos_override = None, fw_has_override = False\<rparr>"

definition new_manager :: "config \<Rightarrow> manager" where
  "new_manager cfg =
     \<lparr>mg_cfg = cfg, mg_heap = (\<lambda>_. new_forward zero_service []), mg_next = 0, mg_forwards = [],
      mg_order = [], mg_children = [], mg_external = [], mg_detector = None, mg_started = False,
      mg_stopped = False, mg_tasks = [], mg_cancelled = [], mg_fired = []\<rparr>"

text \<open>The forward a name stands for.\<close>

definition forward_at :: "manager \<Rightarrow> string \<Rightarrow> forward option" where
  "forward_at m name = map_option (mg_heap m) (gget (mg_forwards m) name)"

definition service_event :: "event_type \<Rightarrow> string \<Rightarrow> service_config \<Rightarrow> event" where
  "service_event t name svc =
     \<lparr>ev_type = t, ev_time = [], ev_service = name, ev_parent_name = svc_parent_name svc,
      ev_port_name = svc_port_name svc, ev_local_port = 0, ev_remote_port = svc_remote_port svc,
      ev_pod_name = [], ev_restarts = 0, ev_error = None\<rparr>"

definition fire_event :: "event \<Rightarrow> manager \<Rightarrow> manager" where
  "fire_event e m = m\<lparr>mg_fired := mg_fired m @ [e]\<rparr>"

subsection \<open>Reserving a name\<close>

definition effective_namespace :: "manager \<Rightarrow> service_config \<Rightarrow> string" where
  "effective_namespace m svc =
     (if svc_namespace svc = [] then cfg_namespace (mg_cfg m) else svc_namespace svc)"

text \<open>The local port a registered forward holds.\<close>

definition held_port :: "forward \<Rightarrow> int" where
  "held_port pf = (if svc_local_port (fw_svc pf) = 0 then fw_actual_port pf else svc_local_port (fw_svc pf))"

definition port_holder :: "manager \<Rightarrow> service_config \<Rightarrow> (string \<times> nat) option" where
  "port_holder m svc =
     (if \<not> is_multi_port svc \<and> svc_local_port svc \<noteq> 0
      then List.find (\<lambda>(n, i). held_port (mg_heap m i) = svc_local_port svc) (mg_forwards m)
      else None)"

text \<open>Allocation of a forward under its name.\<close>

definition register_forward :: "string \<Rightarrow> forward \<Rightarrow> manager \<Rightarrow> manager" where
  "register_forward name pf m =
     m\<lparr>mg_heap := (mg_heap m)(mg_next m := pf), mg_next := Suc (mg_next m),
       mg_forwards := gset name (mg_next m) (mg_forwards m), mg_order := mg_order m @ [name]\<rparr>"

definition reserve_forward :: "service_config \<Rightarrow> manager \<Rightarrow> mgr_err + (nat option \<times> manager)" where
  "reserve_forward svc m =
     (if gget (mg_forwards m) (svc_name svc) \<noteq> None then Inl (AlreadyExists (svc_name svc))
      else if gget (mg_children m) (svc_name svc) \<noteq> None then Inl (AlreadyExists (svc_name svc))
      else (case port_holder m svc of
              Some (n, i) \<Rightarrow> Inl (LocalPortInUse (svc_local_port svc) (svc_name (fw_svc (mg_heap m i))))
            | None \<Rightarrow>
                if is_multi_port svc
                then Inr (None, m\<lparr>mg_children := gset (svc_name svc) [] (mg_children m)\<rparr>)
                else Inr (Some (mg_next m),
                       register_forward (svc_name svc) (new_forward svc (effective_namespace m svc)) m)))"

definition spawn :: "task \<Rightarrow> manager \<Rightarrow> manager" where
  "spawn t m = m\<lparr>mg_tasks := mg_tasks m @ [t]\<rparr>"

definition task_of :: "service_config \<Rightarrow> nat option \<Rightarrow> task" where
  "task_of svc p = (case p of None \<Rightarrow> Resolving svc | Some i \<Rightarrow> Supervising i)"

subsection \<open>Starting, adding and removing\<close>

text \<open>The add branch of the event loop.\<close>

definition add_cmd :: "service_config \<Rightarrow> manager \<Rightarrow> mgr_err option \<times> manager" where
  "add_cmd svc m =
     (case reserve_forward svc m of
        Inl e \<Rightarrow> (Some e, m)
      | Inr (p, m1) \<Rightarrow>
          (None, fire_event (service_event EventServiceAdded (svc_name svc) svc) (spawn (task_of svc p) m1)))"

definition start_service :: "manager \<Rightarrow> service_config \<Rightarrow> manager" where
  "start_service m svc =
     (if gget (mg_external m) (svc_name svc) \<noteq> None then m
      else (case reserve_forward svc m of Inl e \<Rightarrow> m | Inr (p, m1) \<Rightarrow> spawn (task_of svc p) m1))"

definition start :: "manager \<Rightarrow> manager" where
  "start m = foldl start_service (m\<lparr>mg_started := True, mg_stopped := False\<rparr>) (cfg_services (mg_cfg m))"

definition add_service_mgr :: "service_config \<Rightarrow> manager \<Rightarrow> mgr_err option \<times> manager" where
  "add_service_mgr svc m =
     (case validate_service svc of
        Inl e \<Rightarrow> (Some (InvalidService e), m)
      | Inr _ \<Rightarrow>
          if \<not> mg_started m then (Some NotStarted, m)
          else if mg_stopped m then (Some ManagerStopped, m)
          else add_cmd svc m)"

definition unregister :: "string \<Rightarrow> manager \<Rightarrow> manager" where
  "unregister name m =
     m\<lparr>mg_forwards := gdel name (mg_forwards m), mg_order := remove1 name (mg_order m)\<rparr>"

text \<open>\<^verbatim>\<open>removeSingle\<close>: cancelling ends the attempt that is under way, not the goroutine.\<close>

definition remove_single :: "string \<Rightarrow> manager \<Rightarrow> mgr_err option \<times> manager" where
  "remove_single name m =
     (case gget (mg_forwards m) name of
        None \<Rightarrow> (Some (NotFound name), m)
      | Some i \<Rightarrow>
          (let m1 = unregister name m;
               m2 = m1\<lparr>mg_heap := (mg_heap m1)(i := (mg_heap m1 i)\<lparr>fw_state := StateStopped\<rparr>),
                       mg_cancelled := i # mg_cancelled m1\<rparr>
           in (None, fire_event (service_event EventServiceRemoved name (fw_svc (mg_heap m i))) m2)))"

fun remove_children :: "mgr_err option \<Rightarrow> string list \<Rightarrow> manager \<Rightarrow> mgr_err option \<times> manager" where
  "remove_children err [] m = (err, m)"
| "remove_children err (c # cs) m =
     (case remove_single c m of
        (e, m1) \<Rightarrow> remove_children (if err = None then e else err) cs m1)"

definition do_remove :: "string \<Rightarrow> manager \<Rightarrow> mgr_err option \<times> manager" where
  "do_remove name m =
     (case gget (mg_children m) name of
        Some child_names \<Rightarrow>
          (let m1 = m\<lparr>mg_children := gdel name (mg_children m)\<rparr>;
               m2 = (if gget (mg_forwards m1) name \<noteq> None then unregister name m1 else m1)
           in remove_children None child_names m2)
      | None \<Rightarrow> remove_single name m)"

definition remove_service_mgr :: "string \<Rightarrow> manager \<Rightarrow> mgr_err option \<times> manager" where
  "remove_service_mgr name m =
     (if \<not> mg_started m then (Some NotStarted, m)
      else if mg_stopped m then (Some ManagerStopped, m)
      else do_remove name m)"

subsection \<open>Multi-port services\<close>

definition child_name :: "service_config \<Rightarrow> resolved_port \<Rightarrow> string" where
  "child_name svc rp =
     svc_name svc @ ''/'' @ (if rp_name rp = [] then itoa (rp_remote_port rp) else rp_name rp)"

definition child_service :: "service_config \<Rightarrow> resolved_port \<Rightarrow> service_config" where
  "child_service svc rp =
     zero_service\<lparr>svc_name := child_name svc rp, svc_service := svc_service svc, svc_pod := svc_pod svc,
       svc_local_port := rp_local_port rp, svc_remote_port := rp_remote_port rp,
       svc_namespace := svc_namespace svc, svc_parent_name := svc_name svc,
       svc_port_name := rp_name rp, svc_source_config := svc_source_config svc\<rparr>"

text \<open>Allocation without a name: the struct of a child that is not entered into the map.\<close>

definition allocate :: "forward \<Rightarrow> manager \<Rightarrow> manager" where
  "allocate pf m = m\<lparr>mg_heap := (mg_heap m)(mg_next m := pf), mg_next := Suc (mg_next m)\<rparr>"

text \<open>The loop over the children: a name that is taken is left alone.\<close>

fun register_children :: "string \<Rightarrow> service_config list \<Rightarrow> manager \<Rightarrow> manager" where
  "register_children namespace [] m = m"
| "register_children namespace (s # ss) m =
     (let pf = new_forward s namespace;
          m1 = (if gget (mg_forwards m) (svc_name s) \<noteq> None then allocate pf m
                else register_forward (svc_name s) pf m)
      in register_children namespace ss m1)"

text \<open>
  What \<^verbatim>\<open>superviseMulti\<close> does when the resolution of \<open>svc\<close> has ended.  The failed entry of the
  parent carries no \<^verbatim>\<open>sourceConfig\<close>.  Every child is supervised, registered or not.
\<close>

definition finish_resolve ::
    "service_config \<Rightarrow> resolve_err + resolved_port list \<Rightarrow> manager \<Rightarrow> manager" where
  "finish_resolve svc res m0 =
     (let m = m0\<lparr>mg_tasks := remove1 (Resolving svc) (mg_tasks m0)\<rparr>;
          namespace = effective_namespace m svc
      in case res of
           Inl e \<Rightarrow>
             if gget (mg_children m) (svc_name svc) \<noteq> None \<and> gget (mg_forwards m) (svc_name svc) = None
             then register_forward (svc_name svc)
                    ((new_forward svc namespace)\<lparr>fw_state := StateFailed, fw_err := Some (RunResolve e),
                       fw_source_config := []\<rparr>) m
             else m
         | Inr rps \<Rightarrow>
             if gget (mg_children m) (svc_name svc) = None then m
             else (let m1 = register_children namespace (map (child_service svc) rps) m
                   in m1\<lparr>mg_children := gset (svc_name svc) (map (child_name svc) rps) (mg_children m1),
                         mg_tasks := mg_tasks m1 @ map Supervising [mg_next m..<mg_next m1]\<rparr>))"

subsection \<open>The external overlay\<close>

definition index_externals :: "external_forward list \<Rightarrow> (string, external_forward) gomap" where
  "index_externals externals = foldl (\<lambda>m ef. gset (svc_name (ef_service ef)) ef m) [] externals"

definition set_external_forwards :: "external_forward list \<Rightarrow> manager \<Rightarrow> string list \<times> manager" where
  "set_external_forwards externals m =
     (let new_map = index_externals externals
      in (filter (\<lambda>n. gget (mg_external m) n = None) (gkeys new_map), m\<lparr>mg_external := new_map\<rparr>))"

definition set_external_detector :: "(config \<Rightarrow> external_forward list) option \<Rightarrow> manager \<Rightarrow> manager" where
  "set_external_detector detect m = m\<lparr>mg_detector := detect\<rparr>"

fun remove_all_names :: "string list \<Rightarrow> manager \<Rightarrow> manager" where
  "remove_all_names [] m = m"
| "remove_all_names (n # ns) m = remove_all_names ns (snd (remove_service_mgr n m))"

definition refresh_external_forwards :: "config \<Rightarrow> manager \<Rightarrow> manager" where
  "refresh_external_forwards cfg m =
     (case mg_detector m of
        None \<Rightarrow> m
      | Some detect \<Rightarrow>
          (case set_external_forwards (detect cfg) m of (names, m1) \<Rightarrow> remove_all_names names m1))"

subsection \<open>Reload, apply and release\<close>

definition desired_services :: "config \<Rightarrow> (string, service_config) gomap" where
  "desired_services cfg = foldl (\<lambda>m s. gset (svc_name s) s m) [] (cfg_services cfg)"

text \<open>Removal of each name, with the number of successes.\<close>

fun remove_counted :: "string list \<Rightarrow> nat \<times> manager \<Rightarrow> nat \<times> manager" where
  "remove_counted [] r = r"
| "remove_counted (n # ns) (k, m) =
     (case remove_service_mgr n m of
        (None, m1) \<Rightarrow> remove_counted ns (Suc k, m1)
      | (Some _, m1) \<Rightarrow> remove_counted ns (k, m1))"

fun readd_multi :: "service_config list \<Rightarrow> manager \<Rightarrow> manager" where
  "readd_multi [] m = m"
| "readd_multi (s # ss) m =
     (case remove_service_mgr (svc_name s) m of
        (Some _, m1) \<Rightarrow> readd_multi ss m1
      | (None, m1) \<Rightarrow> readd_multi ss (snd (add_service_mgr s m1)))"

fun add_counted :: "service_config list \<Rightarrow> nat \<times> manager \<Rightarrow> nat \<times> manager" where
  "add_counted [] r = r"
| "add_counted (s # ss) (k, m) =
     (if gget (mg_external m) (svc_name s) \<noteq> None then add_counted ss (k, m)
      else (case add_service_mgr s m of
              (None, m1) \<Rightarrow> add_counted ss (Suc k, m1)
            | (Some _, m1) \<Rightarrow> add_counted ss (k, m1)))"

definition lookup_all :: "('k, 'v) gomap \<Rightarrow> 'k list \<Rightarrow> 'v list" where
  "lookup_all m ks = List.map_filter (gget m) ks"

text \<open>\<^verbatim>\<open>Reload\<close>; \<open>ord i\<close> is the order of the \<open>i\<close>-th range over a map.\<close>

definition reload ::
    "(nat \<Rightarrow> string list \<Rightarrow> string list) \<Rightarrow> config \<Rightarrow> manager \<Rightarrow> (nat \<times> nat) \<times> manager" where
  "reload ord cfg m =
     (let m0 = refresh_external_forwards cfg m;
          running = gkeys (mg_forwards m0);
          parents = gkeys (mg_children m0);
          desired = desired_services cfg;
          gone = (\<lambda>n. gget desired n = None)
      in case remove_counted (ord 0 (filter gone parents)) (0, m0) of
           (r1, m1) \<Rightarrow>
             (let child_set = concat (map snd (mg_children m1))
              in case remove_counted (ord 1 (filter (\<lambda>n. gone n \<and> n \<notin> set child_set) running)) (r1, m1) of
                   (r2, m2) \<Rightarrow>
                     (let multi = filter (\<lambda>s. is_multi_port s \<and> svc_name s \<in> set parents)
                                    (lookup_all desired (ord 2 (gkeys desired)));
                          m3 = readd_multi multi m2;
                          m4 = m3\<lparr>mg_external := filter (\<lambda>(n, _). \<not> gone n) (mg_external m3)\<rparr>;
                          new = filter (\<lambda>s. svc_name s \<notin> set running \<and> svc_name s \<notin> set parents)
                                  (lookup_all desired (ord 3 (gkeys desired)))
                      in case add_counted new (0, m4) of (added, m5) \<Rightarrow> ((added, r2), m5))))"

fun apply_services :: "service_config list \<Rightarrow> manager \<Rightarrow> (nat \<times> (string \<times> mgr_err) list) \<times> manager" where
  "apply_services [] m = ((0, []), m)"
| "apply_services (s # ss) m =
     (case add_service_mgr s m of
        (None, m1) \<Rightarrow> (case apply_services ss m1 of ((a, w), m2) \<Rightarrow> ((Suc a, w), m2))
      | (Some e, m1) \<Rightarrow> (case apply_services ss m1 of ((a, w), m2) \<Rightarrow> ((a, (svc_name s, e) # w), m2)))"

definition child_to_parent :: "manager \<Rightarrow> (string, string) gomap" where
  "child_to_parent m =
     foldl (\<lambda>acc (parent, cs). foldl (\<lambda>a c. gset c parent a) acc cs) [] (mg_children m)"

definition release_targets :: "string \<Rightarrow> manager \<Rightarrow> string list" where
  "release_targets source m =
     remdups (map (\<lambda>(n, i). case gget (child_to_parent m) n of Some p \<Rightarrow> p | None \<Rightarrow> n)
       (filter (\<lambda>(n, i). fw_source_config (mg_heap m i) = source) (mg_forwards m)))"

definition release_by_source ::
    "(string list \<Rightarrow> string list) \<Rightarrow> string \<Rightarrow> manager \<Rightarrow> nat \<times> manager" where
  "release_by_source ord source m = remove_counted (ord (release_targets source m)) (0, m)"

text \<open>\<^verbatim>\<open>Stop\<close> cancels the manager's context, which ends the event loop, and every attempt.\<close>

definition stop_forward :: "forward \<Rightarrow> forward" where
  "stop_forward pf = pf\<lparr>fw_state := StateStopped\<rparr>"

definition stop :: "manager \<Rightarrow> manager" where
  "stop m =
     m\<lparr>mg_stopped := mg_started m,
       mg_heap := (\<lambda>i. if i \<in> snd ` set (mg_forwards m) then stop_forward (mg_heap m i) else mg_heap m i),
       mg_cancelled := map snd (mg_forwards m) @ mg_cancelled m\<rparr>"

end
