(* ===== verification/ManagerInv.thy ===== *)
theory ManagerInv
  imports Manager
begin

text \<open>
  The invariant of the manager.  The locale states what a property of the manager's state must
  satisfy to survive every operation: it has to be kept by the few primitive updates all
  operations are made of.  The operations are then proved once, and the locale is interpreted
  on \<open>manager_wf\<close>: the order lists exactly the registered names, each once; a name is the name of
  its service; addresses are allocated and not shared; no two services of their own (not
  children of a multi-port service) fix the same local port.
\<close>

subsection \<open>The interface\<close>

definition own_port :: "forward \<Rightarrow> int" where
  "own_port pf =
     (if is_multi_port (fw_svc pf) \<or> svc_parent_name (fw_svc pf) \<noteq> [] then 0 else svc_local_port (fw_svc pf))"

definition port_free :: "forward \<Rightarrow> manager \<Rightarrow> bool" where
  "port_free pf m =
     (own_port pf = 0 \<or> list_all (\<lambda>(n, i). own_port (mg_heap m i) \<noteq> own_port pf) (mg_forwards m))"

fun good_task :: "manager \<Rightarrow> task \<Rightarrow> bool" where
  "good_task m (Resolving s) = (svc_name s \<noteq> [] \<and> is_multi_port s)"
| "good_task m (Supervising i) = (i < mg_next m)"

locale manager_invariant =
  fixes inv :: "manager \<Rightarrow> bool"
  assumes inv_register: "inv m \<Longrightarrow> gget (mg_forwards m) name = None \<Longrightarrow> svc_name (fw_svc pf) = name \<Longrightarrow>
      port_free pf m \<Longrightarrow> inv (register_forward name pf m)"
    and inv_unregister: "inv m \<Longrightarrow> inv (unregister name m)"
    and inv_allocate: "inv m \<Longrightarrow> inv (allocate pf m)"
    and inv_heap: "inv m \<Longrightarrow> (\<And>i. fw_svc (h i) = fw_svc (mg_heap m i)) \<Longrightarrow> inv (m\<lparr>mg_heap := h\<rparr>)"
    and inv_children_set: "inv m \<Longrightarrow> inv (m\<lparr>mg_children := gset name cs (mg_children m)\<rparr>)"
    and inv_children_del: "inv m \<Longrightarrow> inv (m\<lparr>mg_children := gdel name (mg_children m)\<rparr>)"
    and inv_external: "inv m \<Longrightarrow> gwf ext \<Longrightarrow> inv (m\<lparr>mg_external := ext\<rparr>)"
    and external_wf: "inv m \<Longrightarrow> gwf (mg_external m)"
    and inv_flags: "inv m \<Longrightarrow>
      inv (m\<lparr>mg_started := a, mg_stopped := b, mg_cancelled := dead, mg_fired := ev, mg_detector := d\<rparr>)"
    and inv_tasks: "inv m \<Longrightarrow> list_all (good_task m) ts \<Longrightarrow> inv (m\<lparr>mg_tasks := ts\<rparr>)"
    and tasks_good: "inv m \<Longrightarrow> list_all (good_task m) (mg_tasks m)"
begin

lemma inv_fire: "inv m \<Longrightarrow> inv (fire_event e m)"
  using inv_flags [where m = m and a = "mg_started m" and b = "mg_stopped m" and dead = "mg_cancelled m"
      and ev = "mg_fired m @ [e]" and d = "mg_detector m"]
  by (simp add: fire_event_def)

lemma inv_cancelled: "inv m \<Longrightarrow> inv (m\<lparr>mg_cancelled := cs\<rparr>)"
  using inv_flags [where m = m and a = "mg_started m" and b = "mg_stopped m" and dead = cs
      and ev = "mg_fired m" and d = "mg_detector m"] by simp

lemma inv_started: "inv m \<Longrightarrow> inv (m\<lparr>mg_started := a, mg_stopped := b\<rparr>)"
  using inv_flags [where m = m and a = a and b = b and dead = "mg_cancelled m"
      and ev = "mg_fired m" and d = "mg_detector m"] by simp

lemma inv_detector: "inv m \<Longrightarrow> inv (set_external_detector d m)"
  using inv_flags [where m = m and a = "mg_started m" and b = "mg_stopped m" and dead = "mg_cancelled m"
      and ev = "mg_fired m" and d = d]
  by (simp add: set_external_detector_def)

lemma inv_heap_one:
  "inv m \<Longrightarrow> fw_svc pf = fw_svc (mg_heap m i) \<Longrightarrow> inv (m\<lparr>mg_heap := (mg_heap m)(i := pf)\<rparr>)"
  by (rule inv_heap) auto

lemma inv_spawn: "inv m \<Longrightarrow> good_task m t \<Longrightarrow> inv (spawn t m)"
  using tasks_good [of m] inv_tasks [of m "mg_tasks m @ [t]"] by (simp add: spawn_def)

lemma inv_reserve:
  assumes "inv m" "reserve_forward svc m = Inr (p, m')" "svc_name svc \<noteq> []"
  shows "inv m' \<and> good_task m' (task_of svc p)"
proof (cases "is_multi_port svc")
  case True
  with assms show ?thesis
    by (auto simp: reserve_forward_def task_of_def inv_children_set split: if_splits option.splits)
next
  case False
  let ?pf = "new_forward svc (effective_namespace m svc)"
  have free: "gget (mg_forwards m) (svc_name svc) = None" "port_holder m svc = None"
    and m': "m' = register_forward (svc_name svc) ?pf m" and p: "p = Some (mg_next m)"
    using assms(2) False by (auto simp: reserve_forward_def split: if_splits option.splits)
  have "port_free ?pf m"
  proof (cases "svc_local_port svc = 0")
    case True
    then show ?thesis by (simp add: port_free_def own_port_def new_forward_def)
  next
    case nz: False
    have "held_port (mg_heap m i) \<noteq> svc_local_port svc" if "(n, i) \<in> set (mg_forwards m)" for n i
      using free(2) False nz that by (auto simp: port_holder_def find_None_iff)
    then show ?thesis using nz
      by (fastforce simp: port_free_def own_port_def new_forward_def held_port_def list_all_iff)
  qed
  then have "inv m'" unfolding m' using assms(1) free by (intro inv_register) (simp_all add: new_forward_def)
  then show ?thesis by (simp add: p m' task_of_def register_forward_def)
qed

lemma inv_reserve_spawn:
  assumes "inv m" "reserve_forward svc m = Inr (p, m')" "svc_name svc \<noteq> []"
  shows "inv (spawn (task_of svc p) m')"
  using inv_reserve [OF assms] by (blast intro: inv_spawn)

lemma inv_add_cmd:
  assumes "inv m" "svc_name svc \<noteq> []"
  shows "inv (snd (add_cmd svc m))"
proof (cases "reserve_forward svc m")
  case (Inr r)
  obtain p m' where "r = (p, m')" by (cases r)
  with Inr assms show ?thesis by (simp add: add_cmd_def inv_fire inv_reserve_spawn)
qed (use assms in \<open>simp add: add_cmd_def\<close>)

lemma inv_start_service:
  assumes "inv m" "svc_name svc \<noteq> []"
  shows "inv (start_service m svc)"
proof (cases "reserve_forward svc m")
  case (Inr r)
  obtain p m' where "r = (p, m')" by (cases r)
  with Inr assms show ?thesis by (simp add: start_service_def inv_reserve_spawn)
qed (use assms in \<open>simp add: start_service_def\<close>)

lemma inv_start:
  assumes "inv m" "list_all (\<lambda>s. svc_name s \<noteq> []) (cfg_services (mg_cfg m))"
  shows "inv (start m)"
proof -
  have "inv (foldl start_service m' svcs)" if "inv m'" "list_all (\<lambda>s. svc_name s \<noteq> []) svcs" for m' svcs
    using that by (induction svcs arbitrary: m') (auto simp: inv_start_service)
  then show ?thesis using assms by (simp add: start_def inv_started)
qed

lemma inv_add_service: "inv m \<Longrightarrow> inv (snd (add_service_mgr svc m))"
proof -
  assume i: "inv m"
  have "svc_name svc \<noteq> []" if "validate_service svc = Inr u" for u
    using that by (auto simp: validate_service_def split: if_splits)
  then show ?thesis using i by (auto simp: add_service_mgr_def inv_add_cmd split: sum.splits)
qed

lemma inv_remove_single: "inv m \<Longrightarrow> inv (snd (remove_single name m))"
proof (cases "gget (mg_forwards m) name")
  case (Some i)
  assume "inv m"
  then have u: "inv (unregister name m)" by (rule inv_unregister)
  let ?m = "unregister name m"
  have "inv (?m\<lparr>mg_heap := (mg_heap ?m)(i := (mg_heap ?m i)\<lparr>fw_state := StateStopped\<rparr>)\<rparr>)"
    using u by (rule inv_heap_one) simp
  then have "inv (?m\<lparr>mg_heap := (mg_heap ?m)(i := (mg_heap ?m i)\<lparr>fw_state := StateStopped\<rparr>)\<rparr>
      \<lparr>mg_cancelled := i # mg_cancelled ?m\<rparr>)"
    by (rule inv_cancelled)
  then show ?thesis using Some by (simp add: remove_single_def Let_def inv_fire)
qed (simp add: remove_single_def)

lemma inv_remove_children: "inv m \<Longrightarrow> inv (snd (remove_children err cs m))"
proof (induction err cs m rule: remove_children.induct)
  case (2 err c cs m)
  then show ?case using inv_remove_single [of m c] by (cases "remove_single c m") auto
qed simp

lemma inv_do_remove: "inv m \<Longrightarrow> inv (snd (do_remove name m))"
  by (auto simp: do_remove_def Let_def inv_remove_single
      intro!: inv_remove_children inv_unregister inv_children_del split: option.splits)

lemma inv_remove_service: "inv m \<Longrightarrow> inv (snd (remove_service_mgr name m))"
  by (simp add: remove_service_mgr_def inv_do_remove)

lemma register_children_next: "mg_next m \<le> mg_next (register_children ns ss m)"
proof (induction ns ss m rule: register_children.induct)
  case (2 ns s ss m)
  have "mg_next m \<le> mg_next (if gget (mg_forwards m) (svc_name s) \<noteq> None
      then allocate (new_forward s ns) m else register_forward (svc_name s) (new_forward s ns) m)"
    by (simp add: allocate_def register_forward_def)
  then show ?case
    unfolding register_children.simps Let_def by (rule le_trans [OF _ 2 [OF refl refl]])
qed simp

lemma inv_register_children:
  "inv m \<Longrightarrow> list_all (\<lambda>s. svc_parent_name s \<noteq> []) ss \<Longrightarrow> inv (register_children ns ss m)"
proof (induction ns ss m rule: register_children.induct)
  case (2 ns s ss m)
  let ?pf = "new_forward s ns"
  have "port_free ?pf m" using 2(3) by (simp add: port_free_def own_port_def new_forward_def)
  then have "inv (if gget (mg_forwards m) (svc_name s) \<noteq> None then allocate ?pf m
      else register_forward (svc_name s) ?pf m)"
    using 2(2) by (auto intro!: inv_allocate inv_register simp: new_forward_def)
  then show ?case using 2 by (simp add: Let_def)
qed simp

lemma inv_drop_task: "inv m \<Longrightarrow> inv (m\<lparr>mg_tasks := remove1 t (mg_tasks m)\<rparr>)"
  using tasks_good [of m] by (intro inv_tasks) (auto simp: list_all_iff dest: notin_set_remove1)

lemma inv_finish_resolve:
  assumes "inv m0" "Resolving svc \<in> set (mg_tasks m0)"
  shows "inv (finish_resolve svc res m0)"
proof -
  define m where "m = m0\<lparr>mg_tasks := remove1 (Resolving svc) (mg_tasks m0)\<rparr>"
  have svc: "svc_name svc \<noteq> []" "is_multi_port svc"
    using tasks_good [OF assms(1)] assms(2) by (auto simp: list_all_iff)
  have m: "inv m" unfolding m_def using assms(1) by (rule inv_drop_task)
  show ?thesis
  proof (cases res)
    case (Inl e)
    let ?pf = "(new_forward svc (effective_namespace m svc))\<lparr>fw_state := StateFailed,
        fw_err := Some (RunResolve e), fw_source_config := []\<rparr>"
    have "port_free ?pf m" using svc by (simp add: port_free_def own_port_def new_forward_def)
    then have "inv (register_forward (svc_name svc) ?pf m)" if "gget (mg_forwards m) (svc_name svc) = None"
      using m that by (intro inv_register) (simp_all add: new_forward_def)
    then show ?thesis using m Inl by (simp add: finish_resolve_def m_def [symmetric] Let_def)
  next
    case (Inr rps)
    let ?m1 = "register_children (effective_namespace m svc) (map (child_service svc) rps) m"
    have 1: "inv ?m1"
      using m svc by (intro inv_register_children) (auto simp: list_all_iff child_service_def)
    let ?m2 = "?m1\<lparr>mg_children := gset (svc_name svc) (map (child_name svc) rps) (mg_children ?m1)\<rparr>"
    have 2: "inv ?m2" using 1 by (rule inv_children_set)
    have "inv (?m2\<lparr>mg_tasks := mg_tasks ?m2 @ map Supervising [mg_next m..<mg_next ?m2]\<rparr>)"
      using 2 tasks_good [OF 2] by (intro inv_tasks) (auto simp: list_all_iff)
    then show ?thesis using m Inr by (simp add: finish_resolve_def m_def [symmetric] Let_def)
  qed
qed

lemma gwf_index_externals: "gwf (index_externals externals)"
proof -
  have "gwf (foldl (\<lambda>m ef. gset (svc_name (ef_service ef)) ef m) m0 externals)" if "gwf m0" for m0
    using that by (induction externals arbitrary: m0) auto
  then show ?thesis by (simp add: index_externals_def)
qed

lemma inv_set_external: "inv m \<Longrightarrow> inv (snd (set_external_forwards externals m))"
  by (simp add: set_external_forwards_def Let_def inv_external gwf_index_externals)

lemma inv_remove_all_names: "inv m \<Longrightarrow> inv (remove_all_names ns m)"
  by (induction ns m rule: remove_all_names.induct) (auto simp: inv_remove_service)

lemma inv_refresh: "inv m \<Longrightarrow> inv (refresh_external_forwards cfg m)"
  using inv_set_external
  by (auto simp: refresh_external_forwards_def split: option.splits prod.splits)
    (metis inv_remove_all_names snd_conv)

lemma inv_remove_counted: "inv m \<Longrightarrow> inv (snd (remove_counted ns (k, m)))"
proof (induction ns arbitrary: k m)
  case (Cons n ns)
  then show ?case using inv_remove_service [of m n]
    by (cases "remove_service_mgr n m") (auto split: option.splits)
qed simp

lemma inv_readd: "inv m \<Longrightarrow> inv (readd_multi ss m)"
proof (induction ss m rule: readd_multi.induct)
  case (2 s ss m)
  then show ?case using inv_remove_service [of m "svc_name s"]
    by (cases "remove_service_mgr (svc_name s) m") (auto split: option.splits intro!: inv_add_service)
qed simp

lemma inv_add_counted: "inv m \<Longrightarrow> inv (snd (add_counted ss (k, m)))"
proof (induction ss arbitrary: k m)
  case (Cons s ss)
  then show ?case using inv_add_service [of m s]
    by (cases "add_service_mgr s m") (auto split: option.splits)
qed simp

lemma inv_prune_external:
  "inv m \<Longrightarrow> inv (m\<lparr>mg_external := filter P (mg_external m)\<rparr>)"
  using external_wf [of m] by (intro inv_external) (auto simp: distinct_map_filter)

lemma inv_reload:
  assumes "inv m"
  shows "inv (snd (reload ord cfg m))"
proof -
  have 0: "inv (refresh_external_forwards cfg m)" using assms by (rule inv_refresh)
  have rc: "inv m'" if "inv m0" "remove_counted ns (k, m0) = (r, m')" for ns k m0 r m'
    using inv_remove_counted [OF that(1), of ns k] that(2) by simp
  have ac: "inv m'" if "inv m0" "add_counted ss (k, m0) = (r, m')" for ss k m0 r m'
    using inv_add_counted [OF that(1), of ss k] that(2) by simp
  show ?thesis
    unfolding reload_def Let_def
    apply (split prod.split, intro allI impI)+
    apply (simp only: snd_conv)
    apply (rule ac [rotated], assumption)
    apply (intro inv_prune_external inv_readd)
    apply (rule rc [rotated], assumption)
    apply (rule rc [rotated], assumption)
    apply (rule 0)
    done
qed

lemma inv_apply: "inv m \<Longrightarrow> inv (snd (apply_services ss m))"
proof (induction ss m rule: apply_services.induct)
  case (2 s ss m)
  then show ?case using inv_add_service [of m s]
    by (cases "add_service_mgr s m") (auto split: option.splits prod.splits)
qed simp

lemma inv_release: "inv m \<Longrightarrow> inv (snd (release_by_source ord source m))"
  by (simp add: release_by_source_def inv_remove_counted)

lemma inv_stop: "inv m \<Longrightarrow> inv (stop m)"
proof -
  assume i: "inv m"
  let ?h = "\<lambda>i. if i \<in> snd ` set (mg_forwards m) then stop_forward (mg_heap m i) else mg_heap m i"
  have h: "inv (m\<lparr>mg_heap := ?h\<rparr>)" using i by (intro inv_heap) (auto simp: stop_forward_def)
  have e: "stop m = (m\<lparr>mg_heap := ?h\<rparr>)\<lparr>mg_started := mg_started m, mg_stopped := mg_started m,
      mg_cancelled := map snd (mg_forwards m) @ mg_cancelled m, mg_fired := mg_fired m,
      mg_detector := mg_detector m\<rparr>"
    by (rule manager.equality) (simp_all add: stop_def)
  show ?thesis unfolding e by (rule inv_flags [OF h])
qed

end

subsection \<open>The invariant\<close>

definition heap_wf :: "manager \<Rightarrow> bool" where
  "heap_wf m =
     (distinct (map snd (mg_forwards m))
      \<and> list_all (\<lambda>(n, i). i < mg_next m \<and> svc_name (fw_svc (mg_heap m i)) = n) (mg_forwards m))"

definition order_wf :: "manager \<Rightarrow> bool" where
  "order_wf m = (distinct (mg_order m) \<and> set (mg_order m) = fst ` set (mg_forwards m))"

definition own_ports :: "manager \<Rightarrow> int list" where
  "own_ports m = map (\<lambda>(n, i). own_port (mg_heap m i)) (mg_forwards m)"

definition ports_wf :: "manager \<Rightarrow> bool" where
  "ports_wf m = distinct (filter (\<lambda>p. p \<noteq> 0) (own_ports m))"

definition manager_wf :: "manager \<Rightarrow> bool" where
  "manager_wf m =
     (gwf (mg_forwards m) \<and> gwf (mg_external m) \<and> gwf (mg_children m) \<and> order_wf m \<and> heap_wf m
      \<and> ports_wf m \<and> list_all (good_task m) (mg_tasks m))"

lemma own_port_svc: "fw_svc a = fw_svc b \<Longrightarrow> own_port a = own_port b"
  by (simp add: own_port_def)

lemma manager_wf_cong:
  assumes "mg_forwards m' = mg_forwards m" "mg_external m' = mg_external m" "mg_order m' = mg_order m"
    and "mg_next m' = mg_next m" "\<And>i. fw_svc (mg_heap m' i) = fw_svc (mg_heap m i)"
    and "mg_tasks m' = mg_tasks m" "gwf (mg_children m')" "manager_wf m"
  shows "manager_wf m'"
proof -
  have "good_task m' = good_task m"
  proof
    fix t show "good_task m' t = good_task m t" using assms(4) by (cases t) auto
  qed
  moreover have "own_port (mg_heap m' i) = own_port (mg_heap m i)" for i
    using assms(5) by (rule own_port_svc)
  then have "own_ports m' = own_ports m" using assms(1) by (simp add: own_ports_def)
  ultimately show ?thesis
    using assms by (simp add: manager_wf_def order_wf_def heap_wf_def ports_wf_def)
qed

lemma good_task_mono: "mg_next m \<le> mg_next m' \<Longrightarrow> good_task m t \<Longrightarrow> good_task m' t"
  by (cases t) auto

lemma good_tasks_mono:
  "list_all (good_task m) ts \<Longrightarrow> mg_next m \<le> mg_next m' \<Longrightarrow> list_all (good_task m') ts"
  by (auto simp: list_all_iff intro: good_task_mono)

lemma heap_other: "heap_wf m \<Longrightarrow> (n, i) \<in> set (mg_forwards m) \<Longrightarrow> i \<noteq> mg_next m"
  by (auto simp: heap_wf_def list_all_iff)

lemma register_wf:
  assumes "manager_wf m" "gget (mg_forwards m) name = None" "svc_name (fw_svc pf) = name" "port_free pf m"
  shows "manager_wf (register_forward name pf m)"
proof -
  let ?m = "register_forward name pf m"
  have new: "name \<notin> fst ` set (mg_forwards m)" using assms(2) by (simp add: gget_None_iff)
  have f: "mg_forwards ?m = mg_forwards m @ [(name, mg_next m)]"
    using new by (simp add: register_forward_def gset_absent)
  have h: "mg_heap ?m i = mg_heap m i" if "(n, i) \<in> set (mg_forwards m)" for n i
    using heap_other [of m n i] that assms(1) by (simp add: manager_wf_def register_forward_def)
  have p: "own_ports ?m = own_ports m @ [own_port pf]"
    using h by (auto simp: own_ports_def f intro!: map_cong) (simp add: register_forward_def)
  have "distinct (map snd (mg_forwards ?m))"
    using assms(1) heap_other [of m] by (force simp: f manager_wf_def heap_wf_def)
  moreover have "list_all (\<lambda>(n, i). i < mg_next ?m \<and> svc_name (fw_svc (mg_heap ?m i)) = n) (mg_forwards ?m)"
  proof -
    have "i < mg_next ?m \<and> svc_name (fw_svc (mg_heap ?m i)) = n" if "(n, i) \<in> set (mg_forwards m)" for n i
    proof -
      have "i < mg_next m \<and> svc_name (fw_svc (mg_heap m i)) = n"
        using assms(1) that by (auto simp: manager_wf_def heap_wf_def list_all_iff)
      with h [OF that] show ?thesis by (simp add: register_forward_def)
    qed
    moreover have "mg_next m < mg_next ?m \<and> svc_name (fw_svc (mg_heap ?m (mg_next m))) = name"
      using assms(3) by (simp add: register_forward_def)
    ultimately show ?thesis by (auto simp: f list_all_iff)
  qed
  moreover have "order_wf ?m"
    using assms(1) new by (auto simp: f order_wf_def manager_wf_def register_forward_def)
  moreover have "ports_wf ?m"
  proof -
    have "own_port pf = 0 \<or> own_port pf \<notin> set (own_ports m)"
      using assms(4) by (force simp: port_free_def own_ports_def list_all_iff)
    then show ?thesis using assms(1) by (auto simp: ports_wf_def p manager_wf_def)
  qed
  moreover have "gwf (mg_forwards ?m)" using assms(1) new by (simp add: f manager_wf_def)
  moreover have "list_all (good_task ?m) (mg_tasks ?m)"
    using assms(1) good_tasks_mono [of m "mg_tasks m" ?m]
    by (simp add: manager_wf_def register_forward_def)
  ultimately show ?thesis using assms(1) by (simp add: manager_wf_def heap_wf_def register_forward_def)
qed

lemma gdel_filter: "gdel k m = filter (\<lambda>(k', v). k' \<noteq> k) m"
  by (induction m) auto

lemma distinct_filter_map:
  "distinct (filter P (map f xs)) \<Longrightarrow> distinct (filter P (map f (filter Q xs)))"
  by (induction xs) auto

lemma unregister_wf:
  assumes "manager_wf m"
  shows "manager_wf (unregister name m)"
proof -
  let ?m = "unregister name m"
  have sub: "set (mg_forwards ?m) \<subseteq> set (mg_forwards m)"
    by (auto simp: unregister_def gdel_filter)
  have "distinct (map snd (mg_forwards ?m))"
    using assms by (simp add: manager_wf_def heap_wf_def unregister_def gdel_filter distinct_map_filter)
  moreover have "list_all (\<lambda>(n, i). i < mg_next ?m \<and> svc_name (fw_svc (mg_heap ?m i)) = n) (mg_forwards ?m)"
    using assms sub by (fastforce simp: manager_wf_def heap_wf_def list_all_iff unregister_def)
  moreover have "order_wf ?m"
    using assms by (simp add: order_wf_def manager_wf_def unregister_def)
  moreover have "ports_wf ?m"
    using assms by (auto simp: ports_wf_def own_ports_def manager_wf_def unregister_def gdel_filter
        intro: distinct_filter_map)
  moreover have "gwf (mg_forwards ?m)" using assms by (simp add: manager_wf_def unregister_def)
  moreover have "good_task ?m = good_task m"
  proof
    fix t show "good_task ?m t = good_task m t" by (cases t) (auto simp: unregister_def)
  qed
  ultimately show ?thesis using assms by (simp add: manager_wf_def heap_wf_def unregister_def)
qed

lemma allocate_wf:
  assumes "manager_wf m"
  shows "manager_wf (allocate pf m)"
proof -
  let ?m = "allocate pf m"
  have h: "mg_heap ?m i = mg_heap m i" if "(n, i) \<in> set (mg_forwards m)" for n i
    using heap_other [of m n i] that assms by (simp add: manager_wf_def allocate_def)
  have p: "own_ports ?m = own_ports m"
    using h by (auto simp: own_ports_def allocate_def intro!: map_cong)
  have "list_all (\<lambda>(n, i). i < mg_next ?m \<and> svc_name (fw_svc (mg_heap ?m i)) = n) (mg_forwards m)"
    using assms h by (fastforce simp: manager_wf_def heap_wf_def list_all_iff allocate_def)
  moreover have "list_all (good_task ?m) (mg_tasks m)"
    using assms good_tasks_mono [of m "mg_tasks m" ?m] by (simp add: manager_wf_def allocate_def)
  ultimately show ?thesis
    using assms p by (simp add: manager_wf_def heap_wf_def order_wf_def ports_wf_def) (simp add: allocate_def)
qed

lemma good_task_next: "mg_next m' = mg_next m \<Longrightarrow> good_task m' = good_task m"
proof
  fix t assume "mg_next m' = mg_next m"
  then show "good_task m' t = good_task m t" by (cases t) auto
qed

interpretation wf: manager_invariant manager_wf
proof
  fix m :: manager and name pf h cs ext a b dead ev d ts
  show "manager_wf m \<Longrightarrow> gget (mg_forwards m) name = None \<Longrightarrow> svc_name (fw_svc pf) = name \<Longrightarrow>
      port_free pf m \<Longrightarrow> manager_wf (register_forward name pf m)"
    by (rule register_wf)
  show "manager_wf m \<Longrightarrow> manager_wf (unregister name m)" by (rule unregister_wf)
  show "manager_wf m \<Longrightarrow> manager_wf (allocate pf m)" by (rule allocate_wf)
  show "manager_wf m \<Longrightarrow> (\<And>i. fw_svc (h i) = fw_svc (mg_heap m i)) \<Longrightarrow> manager_wf (m\<lparr>mg_heap := h\<rparr>)"
    by (rule manager_wf_cong [of _ m]) (simp_all add: manager_wf_def)
  show "manager_wf m \<Longrightarrow> manager_wf (m\<lparr>mg_children := gset name cs (mg_children m)\<rparr>)"
    by (rule manager_wf_cong [of _ m]) (simp_all add: manager_wf_def)
  show "manager_wf m \<Longrightarrow> manager_wf (m\<lparr>mg_children := gdel name (mg_children m)\<rparr>)"
    by (rule manager_wf_cong [of _ m]) (simp_all add: manager_wf_def)
  show "manager_wf m \<Longrightarrow>
      manager_wf (m\<lparr>mg_started := a, mg_stopped := b, mg_cancelled := dead, mg_fired := ev, mg_detector := d\<rparr>)"
    by (rule manager_wf_cong [of _ m]) (simp_all add: manager_wf_def)
  show "manager_wf m \<Longrightarrow> gwf ext \<Longrightarrow> manager_wf (m\<lparr>mg_external := ext\<rparr>)"
    using good_task_next [of "m\<lparr>mg_external := ext\<rparr>" m]
    by (simp add: manager_wf_def heap_wf_def order_wf_def ports_wf_def own_ports_def)
  show "manager_wf m \<Longrightarrow> gwf (mg_external m)" by (simp add: manager_wf_def)
  show "manager_wf m \<Longrightarrow> list_all (good_task m) ts \<Longrightarrow> manager_wf (m\<lparr>mg_tasks := ts\<rparr>)"
    using good_task_next [of "m\<lparr>mg_tasks := ts\<rparr>" m]
    by (simp add: manager_wf_def heap_wf_def order_wf_def ports_wf_def own_ports_def)
  show "manager_wf m \<Longrightarrow> list_all (good_task m) (mg_tasks m)" by (simp add: manager_wf_def)
qed

end
