(* ===== verification/ManagerView.thy ===== *)
theory ManagerView
  imports ManagerInv
begin

text \<open>
  What the manager reports and what can be changed while it runs: \<^verbatim>\<open>Status\<close>, \<^verbatim>\<open>Mappings\<close>,
  \<^verbatim>\<open>UpdateChaos\<close> and \<^verbatim>\<open>ResetChaos\<close> of \<^verbatim>\<open>internal/proxy/manager.go\<close>; then the step relation of the
  manager, its reachable states, and what holds in all of them.  A report that would
  dereference a nil \<^verbatim>\<open>*portForward\<close> is \<open>None\<close>.
\<close>

subsection \<open>Status\<close>

record forward_status =
  fs_service :: service_config
  fs_state :: forward_state
  fs_error :: "run_err option"
  fs_restarts :: int
  fs_last_start :: int
  fs_connected :: bool
  fs_actual_port :: int
  fs_next_retry :: "int option"
  fs_counter :: byte_counter
  fs_network :: parsed_network
  fs_chaos_enabled :: bool
  fs_chaos_error_rate :: f64
  fs_chaos_spike_probability :: f64
  fs_chaos_spike_duration :: int
  fs_lazy :: bool
  fs_tunnel_open :: bool
  fs_connection_mode :: string
  fs_source_config :: string
  fs_external_instance :: string
  fs_external_pid :: int

definition shown_port :: "forward \<Rightarrow> int" where
  "shown_port pf = (if fw_actual_port pf = 0 then svc_local_port (fw_svc pf) else fw_actual_port pf)"

definition live_chaos :: "forward \<Rightarrow> parsed_chaos" where
  "live_chaos pf = (case fw_chaos_override pf of None \<Rightarrow> zero_parsed_chaos | Some c \<Rightarrow> c)"

definition status_of :: "(int \<Rightarrow> bool) \<Rightarrow> manager \<Rightarrow> forward \<Rightarrow> forward_status" where
  "status_of is_open m pf =
     (let port = shown_port pf; chaos = live_chaos pf
      in \<lparr>fs_service = fw_svc pf, fs_state = fw_state pf, fs_error = fw_err pf,
          fs_restarts = fw_restarts pf, fs_last_start = fw_last_start pf,
          fs_connected = (0 < port \<and> is_open port), fs_actual_port = port,
          fs_next_retry = fw_next_retry pf, fs_counter = fw_counter pf,
          fs_network = network_settings (resolve_network (cfg_network (mg_cfg m)) (svc_network (fw_svc pf))),
          fs_chaos_enabled = parsed_chaos_enabled chaos, fs_chaos_error_rate = pch_error_rate chaos,
          fs_chaos_spike_probability = pch_spike_probability chaos,
          fs_chaos_spike_duration = pch_spike_duration chaos, fs_lazy = svc_lazy (fw_svc pf),
          fs_tunnel_open = fw_tunnel_open pf,
          fs_connection_mode = resolve_connection_mode (cfg_supervisor (mg_cfg m)) (fw_svc pf),
          fs_source_config = fw_source_config pf, fs_external_instance = [], fs_external_pid = 0\<rparr>)"

definition external_status :: "external_forward \<Rightarrow> forward_status" where
  "external_status ef =
     \<lparr>fs_service = ef_service ef, fs_state = StateExternal, fs_error = None, fs_restarts = 0,
      fs_last_start = 0, fs_connected = False, fs_actual_port = ef_actual_port ef, fs_next_retry = None,
      fs_counter = zero_counter, fs_network = \<lparr>pn_latency = 0, pn_jitter = 0, pn_bytes_per_sec = 0\<rparr>,
      fs_chaos_enabled = False, fs_chaos_error_rate = f_zero, fs_chaos_spike_probability = f_zero,
      fs_chaos_spike_duration = 0, fs_lazy = False, fs_tunnel_open = False, fs_connection_mode = [],
      fs_source_config = [], fs_external_instance = ef_instance ef, fs_external_pid = ef_pid ef\<rparr>"

text \<open>One value per name of the order; \<open>None\<close> when a name has no forward.\<close>

definition in_order :: "(string \<Rightarrow> forward \<Rightarrow> 'a) \<Rightarrow> manager \<Rightarrow> 'a list option" where
  "in_order f m = those (map (\<lambda>n. map_option (f n) (forward_at m n)) (mg_order m))"

definition status :: "(int \<Rightarrow> bool) \<Rightarrow> manager \<Rightarrow> forward_status list option" where
  "status is_open m =
     map_option (\<lambda>ss. ss @ map (\<lambda>(_, ef). external_status ef) (mg_external m))
       (in_order (\<lambda>n pf. status_of is_open m pf) m)"

subsection \<open>Address mappings\<close>

record address_mapping =
  am_internal :: string
  am_local :: string
  am_service :: string

definition dns_names :: "string \<Rightarrow> string \<Rightarrow> string \<Rightarrow> string list" where
  "dns_names tgt ns domain =
     [tgt, tgt @ ''.'' @ ns, tgt @ ''.'' @ ns @ ''.svc'', tgt @ ''.'' @ ns @ ''.svc.'' @ domain]"

definition mappings_of :: "string \<Rightarrow> manager \<Rightarrow> string \<Rightarrow> forward \<Rightarrow> address_mapping list" where
  "mappings_of domain m name pf =
     (let port = shown_port pf; svc = fw_svc pf;
          local = ''localhost:'' @ itoa port;
          ns = effective_namespace m svc;
          remote = itoa (svc_remote_port svc);
          tgt = (if svc_service svc = [] then svc_pod svc else svc_service svc);
          entry = (\<lambda>h. \<lparr>am_internal = h @ '':'' @ remote, am_local = local, am_service = name\<rparr>)
      in if fw_state pf \<noteq> StateRunning \<or> port \<le> 0 then []
         else if tgt = [] then []
         else if svc_service svc \<noteq> [] then map entry (dns_names tgt ns domain)
         else [entry tgt, entry (tgt @ ''.'' @ ns)])"

definition mappings :: "string \<Rightarrow> manager \<Rightarrow> address_mapping list option" where
  "mappings domain m =
     map_option concat
       (in_order (mappings_of (if domain = [] then ''cluster.local'' else domain) m) m)"

subsection \<open>Chaos at run time\<close>

definition resolve_chaos_targets :: "string list \<Rightarrow> manager \<Rightarrow> (string, bool) gomap" where
  "resolve_chaos_targets services m =
     (if services = [] then map (\<lambda>(n, _). (n, True)) (mg_forwards m)
      else foldl (\<lambda>t n. gset n (gget (mg_forwards m) n \<noteq> None) t) [] services)"

definition targeted :: "string list \<Rightarrow> manager \<Rightarrow> nat \<Rightarrow> bool" where
  "targeted services m i =
     list_ex (\<lambda>(n, found). found \<and> gget (mg_forwards m) n = Some i) (resolve_chaos_targets services m)"

definition target_names :: "string list \<Rightarrow> manager \<Rightarrow> string list \<times> string list" where
  "target_names services m =
     (map fst (filter snd (resolve_chaos_targets services m)),
      map fst (filter (\<lambda>t. \<not> snd t) (resolve_chaos_targets services m)))"

definition update_chaos ::
    "string list \<Rightarrow> parsed_chaos \<Rightarrow> manager \<Rightarrow> (string list \<times> string list) \<times> manager" where
  "update_chaos services c m =
     (target_names services m,
      m\<lparr>mg_heap := (\<lambda>i. if targeted services m i
                         then (mg_heap m i)\<lparr>fw_chaos_override := Some c, fw_has_override := True\<rparr>
                         else mg_heap m i)\<rparr>)"

definition config_chaos :: "manager \<Rightarrow> forward \<Rightarrow> parsed_chaos" where
  "config_chaos m pf = chaos_settings (resolve_chaos (cfg_chaos (mg_cfg m)) (svc_chaos (fw_svc pf)))"

definition reset_chaos :: "string list \<Rightarrow> manager \<Rightarrow> (string list \<times> string list) \<times> manager" where
  "reset_chaos services m =
     (target_names services m,
      m\<lparr>mg_heap := (\<lambda>i. if targeted services m i
                         then (mg_heap m i)\<lparr>fw_chaos_override := Some (config_chaos m (mg_heap m i)),
                                            fw_has_override := False\<rparr>
                         else mg_heap m i)\<rparr>)"

text \<open>The presets; the decimal literals are rounded to \<^verbatim>\<open>float64\<close>.\<close>

definition chaos_presets :: "(string \<times> parsed_chaos) list" where
  "chaos_presets =
     [(''slow-network'', zero_parsed_chaos\<lparr>pch_enabled := True, pch_spike_probability := fround (1 / 10),
          pch_spike_duration := 200 * millisec\<rparr>),
      (''unstable-cluster'', \<lparr>pch_enabled = True, pch_error_rate = fround (1 / 20),
          pch_spike_probability = fround (1 / 20), pch_spike_duration = 2 * sec\<rparr>),
      (''packet-loss'', zero_parsed_chaos\<lparr>pch_enabled := True, pch_error_rate := fround (15 / 100)\<rparr>)]"

lemma resolve_chaos_targets_lookup:
  "services \<noteq> [] \<Longrightarrow> gget (resolve_chaos_targets services m) n =
     (if n \<in> set services then Some (gget (mg_forwards m) n \<noteq> None) else None)"
proof -
  have "gget (foldl (\<lambda>t n. gset n (gget (mg_forwards m) n \<noteq> None) t) t0 ss) n =
      (if n \<in> set ss then Some (gget (mg_forwards m) n \<noteq> None) else gget t0 n)" for ss t0
    by (induction ss arbitrary: t0) auto
  then show "services \<noteq> [] \<Longrightarrow> gget (resolve_chaos_targets services m) n =
     (if n \<in> set services then Some (gget (mg_forwards m) n \<noteq> None) else None)"
    by (simp add: resolve_chaos_targets_def)
qed

lemma resolve_chaos_targets_wf:
  "gwf (mg_forwards m) \<Longrightarrow> gwf (resolve_chaos_targets services m)"
proof -
  assume a: "gwf (mg_forwards m)"
  have "gwf (foldl (\<lambda>t n. gset n (gget (mg_forwards m) n \<noteq> None) t) t0 ss)" if "gwf t0" for ss t0
    using that by (induction ss arbitrary: t0) auto
  with a show ?thesis by (auto simp: resolve_chaos_targets_def comp_def case_prod_beta)
qed

lemma gget_mem: "gwf m \<Longrightarrow> (gget m k = Some v) = ((k, v) \<in> set m)"
  by (meson map_of_eq_Some_iff)

lemma found_target:
  assumes "gwf (mg_forwards m)"
  shows "(n, True) \<in> set (resolve_chaos_targets services m) \<longleftrightarrow>
     (services = [] \<or> n \<in> set services) \<and> gget (mg_forwards m) n \<noteq> None"
proof (cases "services = []")
  case True
  have "(n, True) \<in> set (map (\<lambda>(n, _). (n, True)) (mg_forwards m)) \<longleftrightarrow> n \<in> fst ` set (mg_forwards m)"
    by force
  with True show ?thesis by (simp add: resolve_chaos_targets_def gget_None_iff)
next
  case False
  then show ?thesis
    using gget_mem [OF resolve_chaos_targets_wf [OF assms], of services n True]
      resolve_chaos_targets_lookup [OF False, of m n]
    by (auto split: if_splits)
qed

lemma targeted_iff:
  assumes "gwf (mg_forwards m)"
  shows "targeted services m i \<longleftrightarrow>
     (\<exists>n. (services = [] \<or> n \<in> set services) \<and> gget (mg_forwards m) n = Some i)"
proof -
  have "targeted services m i \<longleftrightarrow>
      (\<exists>n. (n, True) \<in> set (resolve_chaos_targets services m) \<and> gget (mg_forwards m) n = Some i)"
    by (force simp: targeted_def list_ex_iff)
  then show ?thesis by (auto simp: found_target [OF assms])
qed

subsection \<open>Steps and reachable states\<close>

text \<open>
  The steps the manager's goroutines take.  \<open>drive\<close> is any write a supervising goroutine (or a
  report of its tunnel) makes to its own forward: such a write never changes the service.
  \<open>reload\<close>, \<open>apply\<close> and \<open>release\<close> send several commands; other commands may come in between, which
  the steps for single commands cover.
\<close>

inductive mgr_step :: "manager \<Rightarrow> manager \<Rightarrow> bool" where
  started: "list_all (\<lambda>s. svc_name s \<noteq> []) (cfg_services (mg_cfg m)) \<Longrightarrow> mgr_step m (start m)"
| added: "mgr_step m (snd (add_service_mgr svc m))"
| removed: "mgr_step m (snd (remove_service_mgr name m))"
| resolved: "Resolving svc \<in> set (mg_tasks m) \<Longrightarrow> mgr_step m (finish_resolve svc res m)"
| drive: "fw_svc pf = fw_svc (mg_heap m i) \<Longrightarrow> mgr_step m (m\<lparr>mg_heap := (mg_heap m)(i := pf)\<rparr>)"
| ended: "mgr_step m (m\<lparr>mg_tasks := remove1 (Supervising i) (mg_tasks m)\<rparr>)"
| externals: "mgr_step m (snd (set_external_forwards efs m))"
| detector: "mgr_step m (set_external_detector d m)"
| reloaded: "mgr_step m (snd (reload ord cfg m))"
| applied: "mgr_step m (snd (apply_services svcs m))"
| released: "mgr_step m (snd (release_by_source ord1 source m))"
| chaos_set: "mgr_step m (snd (update_chaos names c m))"
| chaos_reset: "mgr_step m (snd (reset_chaos names m))"
| stopped: "mgr_step m (stop m)"

inductive_cases mgr_step_cases: "mgr_step m m'"

inductive reachable :: "config \<Rightarrow> manager \<Rightarrow> bool" for cfg where
  init: "reachable cfg (new_manager cfg)"
| step: "reachable cfg m \<Longrightarrow> mgr_step m m' \<Longrightarrow> reachable cfg m'"

lemma new_manager_wf: "manager_wf (new_manager cfg)"
  by (simp add: manager_wf_def order_wf_def heap_wf_def ports_wf_def own_ports_def new_manager_def)

lemma chaos_keeps_wf:
  "manager_wf m \<Longrightarrow> manager_wf (snd (update_chaos names c m))"
  "manager_wf m \<Longrightarrow> manager_wf (snd (reset_chaos names m))"
  by (auto simp: update_chaos_def reset_chaos_def intro!: wf.inv_heap)

lemma step_wf: "mgr_step m m' \<Longrightarrow> manager_wf m \<Longrightarrow> manager_wf m'"
proof (induction rule: mgr_step.induct)
  case (drive pf m i)
  then show ?case by (intro wf.inv_heap_one)
qed (simp_all add: wf.inv_start wf.inv_add_service wf.inv_remove_service wf.inv_finish_resolve
    wf.inv_drop_task wf.inv_set_external wf.inv_detector wf.inv_reload wf.inv_apply wf.inv_release
    wf.inv_stop chaos_keeps_wf)

lemma reachable_wf: "reachable cfg m \<Longrightarrow> manager_wf m"
  by (induction rule: reachable.induct) (auto simp: new_manager_wf intro: step_wf)

lemma those_map_Some: "(\<And>x. x \<in> set xs \<Longrightarrow> f x = Some (g x)) \<Longrightarrow> those (map f xs) = Some (map g xs)"
  by (induction xs) auto

lemma order_forward:
  assumes "manager_wf m" "n \<in> set (mg_order m)"
  shows "\<exists>i. gget (mg_forwards m) n = Some i \<and> i < mg_next m \<and> svc_name (fw_svc (mg_heap m i)) = n"
proof -
  have "n \<in> fst ` set (mg_forwards m)" using assms by (simp add: manager_wf_def order_wf_def)
  then obtain i where i: "gget (mg_forwards m) n = Some i"
    using gget_None_iff [of "mg_forwards m" n] by (cases "gget (mg_forwards m) n") auto
  then have "(n, i) \<in> set (mg_forwards m)" by (rule map_of_SomeD)
  with i assms(1) show ?thesis by (auto simp: manager_wf_def heap_wf_def list_all_iff)
qed

lemma in_order_total:
  assumes "manager_wf m"
  shows "in_order f m = Some (map (\<lambda>n. f n (the (forward_at m n))) (mg_order m))"
  unfolding in_order_def
proof (rule those_map_Some)
  fix n assume "n \<in> set (mg_order m)"
  from order_forward [OF assms this]
  show "map_option (f n) (forward_at m n) = Some (f n (the (forward_at m n)))"
    by (auto simp: forward_at_def)
qed

text \<open>C1: in every state the manager can reach, the order lists exactly the registered
  services, each once and under its own name, and no two services of their own fix the same
  local port.\<close>

theorem manager_invariant_reachable:
  assumes "reachable cfg m"
  shows "distinct (mg_order m) \<and> set (mg_order m) = fst ` set (mg_forwards m)
    \<and> list_all (\<lambda>n. \<exists>pf. forward_at m n = Some pf \<and> svc_name (fw_svc pf) = n) (mg_order m)
    \<and> distinct (filter (\<lambda>p. p \<noteq> 0) (own_ports m))"
proof -
  have w: "manager_wf m" using assms by (rule reachable_wf)
  have "\<exists>pf. forward_at m n = Some pf \<and> svc_name (fw_svc pf) = n" if "n \<in> set (mg_order m)" for n
    using order_forward [OF w that] by (auto simp: forward_at_def)
  with w show ?thesis by (simp add: manager_wf_def order_wf_def ports_wf_def list_all_iff)
qed

theorem manager_invariant_reachable_witness:
  "mg_order (start (new_manager (zero_config\<lparr>cfg_services := [zero_service\<lparr>svc_name := ''a''\<rparr>]\<rparr>))) = [''a'']
   \<and> distinct (mg_order (start (new_manager (zero_config\<lparr>cfg_services := [zero_service\<lparr>svc_name := ''a''\<rparr>]\<rparr>))))"
proof -
  let ?cfg = "zero_config\<lparr>cfg_services := [zero_service\<lparr>svc_name := ''a''\<rparr>]\<rparr>"
  have "mgr_step (new_manager ?cfg) (start (new_manager ?cfg))"
    by (rule mgr_step.started) (simp add: new_manager_def zero_config_def)
  then have r: "reachable ?cfg (start (new_manager ?cfg))" by (rule reachable.step [OF reachable.init])
  have "mg_order (start (new_manager ?cfg)) = [''a'']"
    by (simp add: start_def start_service_def new_manager_def reserve_forward_def port_holder_def
        is_multi_port_def register_forward_def spawn_def zero_service_def zero_ports_def zero_config_def)
  then show ?thesis using manager_invariant_reachable [OF r] by blast
qed

text \<open>Reporting never fails.  In every reachable state \<^verbatim>\<open>Status\<close> and \<^verbatim>\<open>Mappings\<close> find every
  forward they look up; \<^verbatim>\<open>Status\<close> has one entry per registered service, in order, and one per
  external service.\<close>

theorem reports_total:
  assumes "reachable cfg m"
  shows "(\<exists>ss. status is_open m = Some ss
      \<and> map (\<lambda>s. svc_name (fs_service s)) (take (length (mg_order m)) ss) = mg_order m
      \<and> length ss = length (mg_order m) + length (mg_external m))
    \<and> (\<exists>ms. mappings domain m = Some ms)"
proof -
  have w: "manager_wf m" using assms by (rule reachable_wf)
  have n: "svc_name (fw_svc (the (forward_at m n))) = n" if "n \<in> set (mg_order m)" for n
    using order_forward [OF w that] by (auto simp: forward_at_def)
  then have "map (\<lambda>n. svc_name (fs_service (status_of is_open m (the (forward_at m n))))) (mg_order m) = mg_order m"
    by (intro map_idI) (simp add: status_of_def Let_def)
  then show ?thesis
    by (simp add: status_def mappings_def in_order_total [OF w] comp_def)
qed

theorem reports_total_witness:
  "\<exists>ss. status (\<lambda>_. True) (new_manager zero_config) = Some ss \<and> length ss = 0"
  using reports_total [OF reachable.init, of "\<lambda>_. True" zero_config "[]"] by (auto simp: new_manager_def)

text \<open>A runtime chaos change reaches exactly the services it names (all of them when it
  names none), reports the unknown ones, and leaves every other forward alone; a reset takes
  the setting back to the configured one.\<close>

theorem chaos_updates_targets:
  assumes "reachable cfg m" "gget (mg_forwards m) n = Some i"
  shows "(if services = [] \<or> n \<in> set services
      then forward_at (snd (update_chaos services c m)) n =
             Some ((mg_heap m i)\<lparr>fw_chaos_override := Some c, fw_has_override := True\<rparr>)
        \<and> forward_at (snd (reset_chaos services (snd (update_chaos services c m)))) n =
             Some ((mg_heap m i)\<lparr>fw_chaos_override := Some (config_chaos m (mg_heap m i)), fw_has_override := False\<rparr>)
      else forward_at (snd (update_chaos services c m)) n = Some (mg_heap m i))
    \<and> set (snd (fst (update_chaos services c m))) = {k. k \<in> set services \<and> gget (mg_forwards m) k = None}"
proof -
  have w: "gwf (mg_forwards m)" using reachable_wf [OF assms(1)] by (simp add: manager_wf_def)
  have inj: "k = n" if "gget (mg_forwards m) k = Some i" for k
  proof -
    have "(k, i) \<in> set (mg_forwards m)" "(n, i) \<in> set (mg_forwards m)"
      using that assms(2) by (auto dest: map_of_SomeD)
    moreover have "distinct (map snd (mg_forwards m))"
      using reachable_wf [OF assms(1)] by (simp add: manager_wf_def heap_wf_def)
    ultimately show ?thesis
      using inj_onD [of snd "set (mg_forwards m)" "(k, i)" "(n, i)"] by (simp add: distinct_map)
  qed
  have t: "targeted services m i \<longleftrightarrow> services = [] \<or> n \<in> set services"
    unfolding targeted_iff [OF w] using assms(2) inj by blast
  have t2: "targeted services (snd (update_chaos services c m)) i = targeted services m i"
    by (simp add: update_chaos_def targeted_def resolve_chaos_targets_def)
  have nf: "set (snd (fst (update_chaos services c m))) = {k. k \<in> set services \<and> gget (mg_forwards m) k = None}"
  proof (cases "services = []")
    case True
    then show ?thesis by (auto simp: update_chaos_def target_names_def resolve_chaos_targets_def)
  next
    case False
    have "(k, False) \<in> set (resolve_chaos_targets services m)
        \<longleftrightarrow> k \<in> set services \<and> gget (mg_forwards m) k = None" for k
      using gget_mem [OF resolve_chaos_targets_wf [OF w], of services k False]
        resolve_chaos_targets_lookup [OF False, of m k] by (auto split: if_splits)
    then show ?thesis by (force simp: update_chaos_def target_names_def)
  qed
  show ?thesis
    using assms(2) t t2 nf
    by (simp add: forward_at_def reset_chaos_def update_chaos_def config_chaos_def)
qed

theorem chaos_updates_targets_witness:
  "set (snd (fst (update_chaos [''x''] zero_parsed_chaos
     (start (new_manager (zero_config\<lparr>cfg_services := [zero_service\<lparr>svc_name := ''a''\<rparr>]\<rparr>)))))) = {''x''}"
proof -
  let ?cfg = "zero_config\<lparr>cfg_services := [zero_service\<lparr>svc_name := ''a''\<rparr>]\<rparr>"
  have "mgr_step (new_manager ?cfg) (start (new_manager ?cfg))"
    by (rule mgr_step.started) (simp add: new_manager_def zero_config_def)
  then have r: "reachable ?cfg (start (new_manager ?cfg))" by (rule reachable.step [OF reachable.init])
  have f: "mg_forwards (start (new_manager ?cfg)) = [(''a'', 0)]"
    by (simp add: start_def start_service_def new_manager_def reserve_forward_def port_holder_def
        is_multi_port_def register_forward_def spawn_def zero_service_def zero_ports_def zero_config_def)
  then have "gget (mg_forwards (start (new_manager ?cfg))) ''a'' = Some 0" by simp
  from chaos_updates_targets [OF r this, of "[''x'']" zero_parsed_chaos] f show ?thesis by auto
qed

end
