(* ===== verification/Supervise.thy ===== *)
theory Supervise
  imports ManagerView Floats
begin

text \<open>
  The supervision of one forward: \<^verbatim>\<open>superviseSingle\<close>, \<^verbatim>\<open>runPortForward\<close>, \<^verbatim>\<open>addJitter\<close> and
  \<^verbatim>\<open>handlePodEvents\<close> of \<^verbatim>\<open>internal/proxy/manager.go\<close> and the pod watcher of
  \<^verbatim>\<open>internal/proxy/pod_watcher.go\<close>.

  What the tunnel library, the API server, the clock and the other goroutines do is input: the
  answers of the calls an attempt makes and the sequence of events its \<^verbatim>\<open>select\<close> receives, in the
  order they are received.  A sequence that stops before the attempt has an outcome leaves it
  running (\<open>None\<close>).  The text of an error, which only hooks and logs show, is the parameter
  \<open>err_text\<close>.
\<close>

subsection \<open>Pod events\<close>

datatype pod_event_type = PodTerminating

record pod_event =
  pe_pod :: string
  pe_namespace :: string
  pe_type :: pod_event_type

definition forward_event :: "event_type \<Rightarrow> forward \<Rightarrow> event" where
  "forward_event t pf = service_event t (svc_name (fw_svc pf)) (fw_svc pf)"

text \<open>One round of \<^verbatim>\<open>handlePodEvents\<close>; the channel for the replacement holds one name.\<close>

definition handle_pod_event ::
    "(resolve_err + string \<times> int) \<Rightarrow> pod_event \<Rightarrow> forward \<Rightarrow> event list \<times> forward" where
  "handle_pod_event resolution evt pf =
     (if pe_type evt \<noteq> PodTerminating \<or> pe_pod evt \<noteq> fw_current_pod pf then ([], pf)
      else ([(forward_event EventPodTerminating pf)\<lparr>ev_pod_name := pe_pod evt\<rparr>],
            (case resolution of
               Inl _ \<Rightarrow> pf
             | Inr (replacement, _) \<Rightarrow>
                 if replacement = fw_current_pod pf then pf
                 else (case fw_preempt pf of
                         None \<Rightarrow> pf\<lparr>fw_preempt := Some replacement\<rparr>
                       | Some _ \<Rightarrow> pf))))"

subsection \<open>The pod watcher\<close>

datatype watch_type = Added | Modified | Deleted | OtherEvent string

record watched_pod =
  wp_name :: string
  wp_namespace :: string
  wp_version :: string
  wp_deleting :: bool
  wp_running :: bool

text \<open>What a watch delivers: a pod or another object; \<open>Took\<close> is the consumer taking one event
  out of the channel, which holds 8.\<close>

datatype watch_event = PodEvent watch_type watched_pod | OtherObject | Took

record watch_state =
  ws_version :: string
  ws_channel :: "pod_event list"

definition drain_one :: "watch_event \<Rightarrow> watch_state \<Rightarrow> watch_state" where
  "drain_one e w =
     (case e of
        OtherObject \<Rightarrow> w
      | Took \<Rightarrow> w\<lparr>ws_channel := tl (ws_channel w)\<rparr>
      | PodEvent t p \<Rightarrow>
          (let w1 = w\<lparr>ws_version := wp_version p\<rparr>
           in if t = Modified \<and> wp_deleting p \<and> wp_running p \<and> length (ws_channel w1) < 8
              then w1\<lparr>ws_channel := ws_channel w1 @
                     [\<lparr>pe_pod = wp_name p, pe_namespace = wp_namespace p, pe_type = PodTerminating\<rparr>]\<rparr>
              else w1))"

text \<open>\<^verbatim>\<open>drain\<close> starts from no version each time it is called.\<close>

definition drain :: "watch_event list \<Rightarrow> watch_state \<Rightarrow> watch_state" where
  "drain es w = foldl (\<lambda>w e. drain_one e w) (w\<lparr>ws_version := []\<rparr>) es"

text \<open>\<^verbatim>\<open>run\<close>: one entry per call of \<^verbatim>\<open>Watch\<close>, \<open>None\<close> when it failed.  The result lists the
  resource version each call was given.\<close>

fun watcher_run :: "watch_event list option list \<Rightarrow> watch_state \<Rightarrow> string list \<times> watch_state" where
  "watcher_run [] w = ([], w)"
| "watcher_run (None # ws) w = (case watcher_run ws w of (vs, w') \<Rightarrow> (ws_version w # vs, w'))"
| "watcher_run (Some es # ws) w =
     (case watcher_run ws (drain es w) of (vs, w') \<Rightarrow> (ws_version w # vs, w'))"

subsection \<open>Select loops\<close>

text \<open>The three runners are loops over the events they receive, which end with the first outcome.
  What every step keeps, the loop keeps.\<close>

locale select_loop =
  fixes step :: "'e \<Rightarrow> 's \<Rightarrow> run_err option \<times> 's"
    and loop :: "'e list \<Rightarrow> 's \<Rightarrow> run_err option \<times> 's"
  assumes loop_Nil: "loop [] s = (None, s)"
    and loop_Cons: "loop (e # es) s = (case step e s of (Some r, s1) \<Rightarrow> (Some r, s1) | (None, s1) \<Rightarrow> loop es s1)"
begin

lemma loop_keeps:
  assumes "\<And>e s r s'. P s \<Longrightarrow> step e s = (r, s') \<Longrightarrow> P s'"
    and "P s" "loop es s = (r, s')"
  shows "P s'"
  using assms(2,3)
proof (induction es arbitrary: s)
  case Nil
  then show ?case by (simp add: loop_Nil)
next
  case (Cons e es)
  obtain o1 s1 where st: "step e s = (o1, s1)" by (cases "step e s")
  from Cons.prems st show ?case
    by (cases o1) (auto simp: loop_Cons intro: Cons.IH assms(1))
qed

lemma loop_append:
  "loop (es @ fs) s = (case loop es s of (Some r, s1) \<Rightarrow> (Some r, s1) | (None, s1) \<Rightarrow> loop fs s1)"
  by (induction es arbitrary: s) (auto simp: loop_Nil loop_Cons split: prod.splits option.splits)

lemma loop_running:
  "(\<And>e s. e \<in> set es \<Longrightarrow> fst (step e s) = None) \<Longrightarrow> fst (loop es s) = None"
  by (induction es arbitrary: s) (auto simp: loop_Nil loop_Cons split: prod.splits option.splits, metis fst_conv option.distinct(1))

end

subsection \<open>The mux runner\<close>

datatype startup =
    TunnelReady "int option"
  | TunnelEnded "string option"
  | StartupCancelled
  | StartupTimedOut

datatype tunnel_event =
    Ended "string option"
  | Cancelled
  | MaxAge
  | TakePreempt
  | Tick bool
  | Received io_result
  | Sent io_result
  | StreamFailure
  | PodSeen pod_event "resolve_err + string \<times> int"

record mux =
  mx_forward :: forward
  mx_fail :: int
  mx_last :: int
  mx_fired :: "event list"
  mx_evicted :: bool

definition put_forward :: "forward \<Rightarrow> mux \<Rightarrow> mux" where
  "put_forward pf s = s\<lparr>mx_forward := pf\<rparr>"

definition count_io :: "(byte_counter \<Rightarrow> byte_counter) \<Rightarrow> mux \<Rightarrow> mux" where
  "count_io f s = put_forward ((mx_forward s)\<lparr>fw_counter := f (fw_counter (mx_forward s))\<rparr>) s"

text \<open>One health check: first the stream errors, then the local port.\<close>

definition health_check :: "parsed_supervisor \<Rightarrow> string \<Rightarrow> bool \<Rightarrow> mux \<Rightarrow> run_err option \<times> mux" where
  "health_check ps pod is_open s =
     (let pf = mx_forward s; errors = stream_errors (fw_counter pf)
      in if mx_last s < errors then (Some (Degraded errors), s\<lparr>mx_evicted := True\<rparr>)
         else if is_open then (None, s\<lparr>mx_fail := 0\<rparr>)
         else (let n = mx_fail s + 1;
                   s1 = s\<lparr>mx_fail := n,
                          mx_fired := mx_fired s @
                            [(forward_event EventHealthCheckFailed pf)
                               \<lparr>ev_local_port := fw_actual_port pf, ev_pod_name := pod\<rparr>]\<rparr>
               in (if ps_health_check_threshold ps \<le> n then Some (Unhealthy n) else None, s1)))"

fun mux_step :: "parsed_supervisor \<Rightarrow> string \<Rightarrow> tunnel_event \<Rightarrow> mux \<Rightarrow> run_err option \<times> mux" where
  "mux_step ps pod (Ended e) s = (Some (case e of Some t \<Rightarrow> ForwardFailed t | None \<Rightarrow> ForwardClosed), s)"
| "mux_step ps pod Cancelled s = (Some AttemptCancelled, s)"
| "mux_step ps pod MaxAge s =
     (if 0 < ps_max_connection_age ps then (Some (MaxAgeReached (ps_max_connection_age ps)), s) else (None, s))"
| "mux_step ps pod TakePreempt s =
     (case fw_preempt (mx_forward s) of
        None \<Rightarrow> (None, s)
      | Some _ \<Rightarrow> (Some Preempted, put_forward ((mx_forward s)\<lparr>fw_preempt := None\<rparr>) s))"
| "mux_step ps pod (Tick is_open) s = health_check ps pod is_open s"
| "mux_step ps pod (Received r) s = (None, count_io (count_read r) s)"
| "mux_step ps pod (Sent r) s = (None, count_io (count_write r) s)"
| "mux_step ps pod StreamFailure s = (None, count_io count_stream_error s)"
| "mux_step ps pod (PodSeen evt resolution) s =
     (case handle_pod_event resolution evt (mx_forward s) of
        (fired, pf) \<Rightarrow> (None, (put_forward pf s)\<lparr>mx_fired := mx_fired s @ fired\<rparr>))"

fun mux_loop :: "parsed_supervisor \<Rightarrow> string \<Rightarrow> tunnel_event list \<Rightarrow> mux \<Rightarrow> run_err option \<times> mux" where
  "mux_loop ps pod [] s = (None, s)"
| "mux_loop ps pod (e # es) s =
     (case mux_step ps pod e s of
        (Some r, s1) \<Rightarrow> (Some r, s1)
      | (None, s1) \<Rightarrow> mux_loop ps pod es s1)"

interpretation mx: select_loop "mux_step ps pod" "mux_loop ps pod" for ps pod
  by unfold_locales simp_all

record mux_env =
  me_resolve :: "resolve_err + string \<times> int"
  me_transport :: "string option"
  me_forwarder :: "string option"
  me_dialed :: bool
  me_startup :: startup
  me_events :: "tunnel_event list"

text \<open>Chaos is read from the configuration unless it was overridden at run time.\<close>

definition load_chaos :: "config \<Rightarrow> forward \<Rightarrow> forward" where
  "load_chaos cfg pf =
     (if fw_has_override pf then pf
      else pf\<lparr>fw_chaos_override := Some (chaos_settings (resolve_chaos (cfg_chaos cfg) (svc_chaos (fw_svc pf))))\<rparr>)"

record attempt =
  at_ports :: string
  at_forward :: forward
  at_fired :: "event list"
  at_evicted :: bool

definition startup_error :: "startup \<Rightarrow> run_err option" where
  "startup_error st =
     (case st of
        TunnelReady _ \<Rightarrow> None
      | TunnelEnded (Some t) \<Rightarrow> Some (StartupFailed t)
      | TunnelEnded None \<Rightarrow> Some ClosedBeforeReady
      | StartupCancelled \<Rightarrow> Some AttemptCancelled
      | StartupTimedOut \<Rightarrow> Some ReadyTimedOut)"

definition ready_port :: "startup \<Rightarrow> forward \<Rightarrow> int" where
  "ready_port st pf = (case st of TunnelReady (Some p) \<Rightarrow> p | _ \<Rightarrow> svc_local_port (fw_svc pf))"

definition connected_event :: "string \<Rightarrow> forward \<Rightarrow> event" where
  "connected_event pod pf =
     (forward_event EventForwardConnected pf)\<lparr>ev_local_port := fw_actual_port pf, ev_pod_name := pod\<rparr>"

text \<open>The part of an attempt after the tunnel is ready.\<close>

definition serve_tunnel ::
    "parsed_supervisor \<Rightarrow> string \<Rightarrow> string \<Rightarrow> int \<Rightarrow> tunnel_event list \<Rightarrow> forward
       \<Rightarrow> run_err option \<times> attempt" where
  "serve_tunnel ps pod ports port es pf =
     (let pf1 = pf\<lparr>fw_state := StateRunning, fw_actual_port := port, fw_err := None\<rparr>
      in case mux_loop ps pod es
                \<lparr>mx_forward = pf1, mx_fail = 0, mx_last = stream_errors (fw_counter pf1),
                 mx_fired = [connected_event pod pf1], mx_evicted = False\<rparr> of
           (r, s) \<Rightarrow>
             (r, \<lparr>at_ports = ports, at_forward = mx_forward s, at_fired = mx_fired s, at_evicted = mx_evicted s\<rparr>))"

text \<open>The local and the target port, as the tunnel library is given them.\<close>

definition port_spec :: "forward \<Rightarrow> int \<Rightarrow> string" where
  "port_spec pf target_port = itoa (svc_local_port (fw_svc pf)) @ '':'' @ itoa target_port"

definition failed_attempt :: "run_err \<Rightarrow> string \<Rightarrow> forward \<Rightarrow> run_err option \<times> attempt" where
  "failed_attempt e ports pf = (Some e, \<lparr>at_ports = ports, at_forward = pf, at_fired = [], at_evicted = False\<rparr>)"

definition dialled :: "mux_env \<Rightarrow> forward \<Rightarrow> forward" where
  "dialled env pf =
     (if me_dialed env \<or> startup_error (me_startup env) = None
      then pf\<lparr>fw_counter := count_dial False (fw_counter pf)\<rparr> else pf)"

definition run_port_forward ::
    "config \<Rightarrow> parsed_supervisor \<Rightarrow> mux_env \<Rightarrow> forward \<Rightarrow> run_err option \<times> attempt" where
  "run_port_forward cfg ps env pf =
     (case me_resolve env of
        Inl e \<Rightarrow> failed_attempt (RunResolve e) [] pf
      | Inr (pod, target_port) \<Rightarrow>
          (let pf1 = pf\<lparr>fw_current_pod := pod\<rparr>; pf2 = load_chaos cfg pf1; pf3 = dialled env pf2;
               ports = port_spec pf target_port
           in case me_transport env of
                Some t \<Rightarrow> failed_attempt (TransportFailed t) [] pf1
              | None \<Rightarrow>
                  (case me_forwarder env of
                     Some t \<Rightarrow> failed_attempt (ForwarderFailed t) ports pf2
                   | None \<Rightarrow>
                       (case startup_error (me_startup env) of
                          Some e \<Rightarrow> failed_attempt e ports pf3
                        | None \<Rightarrow>
                            serve_tunnel ps pod ports (ready_port (me_startup env) pf3) (me_events env) pf3))))"

end
