(* ===== verification/Runners.thy ===== *)
theory Runners
  imports Supervise
begin

text \<open>
  The two other ways a forward is run: the lazy runner of \<^verbatim>\<open>internal/proxy/lazy.go\<close>, which opens its
  tunnel when the first client connects, and the isolated runner of
  \<^verbatim>\<open>internal/proxy/isolated.go\<close>, which opens one tunnel per client.  Clients, dials and timers are
  events, in the order the runner meets them; what a client's streams carry is not modelled here.
\<close>

subsection \<open>Dialling\<close>

text \<open>How far an attempt to open a tunnel got; the pod is known once it is resolved.\<close>

datatype dial_result =
    DialNoPod resolve_err
  | DialNoTransport string string
  | DialRefused string string
  | Dialled string int

fun dial_error :: "dial_result \<Rightarrow> run_err option" where
  "dial_error (DialNoPod e) = Some (RunResolve e)"
| "dial_error (DialNoTransport pod t) = Some (TransportFailed t)"
| "dial_error (DialRefused pod t) = Some (DialFailed t)"
| "dial_error (Dialled pod port) = None"

subsection \<open>The lazy runner\<close>

datatype tunnel = NoTunnel | OpenTunnel int | LostTunnel

datatype lazy_event =
    Client dial_result
  | TunnelLost
  | LazyTraffic "byte_counter \<Rightarrow> byte_counter"
  | LazyPod pod_event "resolve_err + string \<times> int"
  | AcceptError string
  | LazyCancelled

record lazy_state =
  lz_forward :: forward
  lz_tunnel :: tunnel
  lz_served :: "(int \<times> int) list"
  lz_fired :: "event list"
  lz_evicted :: bool

text \<open>\<^verbatim>\<open>dialTunnel\<close>, on the forward only.\<close>

definition lazy_dial :: "config \<Rightarrow> dial_result \<Rightarrow> forward \<Rightarrow> forward" where
  "lazy_dial cfg d pf =
     (case d of
        DialNoPod e \<Rightarrow> pf
      | DialNoTransport pod t \<Rightarrow> pf\<lparr>fw_current_pod := pod\<rparr>
      | DialRefused pod t \<Rightarrow> load_chaos cfg (pf\<lparr>fw_current_pod := pod\<rparr>)
      | Dialled pod port \<Rightarrow>
          (let p = load_chaos cfg (pf\<lparr>fw_current_pod := pod\<rparr>)
           in p\<lparr>fw_counter := count_dial False (fw_counter p), fw_state := StateRunning, fw_tunnel_open := True\<rparr>))"

definition open_tunnel :: "config \<Rightarrow> dial_result \<Rightarrow> lazy_state \<Rightarrow> lazy_state" where
  "open_tunnel cfg d s =
     (let waiting = (lz_forward s)\<lparr>fw_state := StateWaiting, fw_tunnel_open := False\<rparr>;
          pf = lazy_dial cfg d waiting
      in case d of
           Dialled pod port \<Rightarrow>
             s\<lparr>lz_forward := pf, lz_tunnel := OpenTunnel port, lz_fired := lz_fired s @ [connected_event pod pf]\<rparr>
         | _ \<Rightarrow> s\<lparr>lz_forward := pf, lz_tunnel := NoTunnel, lz_evicted := True\<rparr>)"

definition serve_client :: "int \<Rightarrow> lazy_state \<Rightarrow> lazy_state" where
  "serve_client port s = s\<lparr>lz_served := lz_served s @ [(int (length (lz_served s)) + 1, port)]\<rparr>"

fun lazy_step :: "config \<Rightarrow> lazy_event \<Rightarrow> lazy_state \<Rightarrow> run_err option \<times> lazy_state" where
  "lazy_step cfg (Client d) s =
     (case lz_tunnel s of
        OpenTunnel port \<Rightarrow> (None, serve_client port s)
      | _ \<Rightarrow>
          (case d of
             Dialled pod port \<Rightarrow> (None, serve_client port (open_tunnel cfg d s))
           | _ \<Rightarrow> (dial_error d, open_tunnel cfg d s)))"
| "lazy_step cfg TunnelLost s =
     (None, (case lz_tunnel s of OpenTunnel _ \<Rightarrow> s\<lparr>lz_tunnel := LostTunnel\<rparr> | _ \<Rightarrow> s))"
| "lazy_step cfg (LazyTraffic f) s =
     (None, s\<lparr>lz_forward := (lz_forward s)\<lparr>fw_counter := f (fw_counter (lz_forward s))\<rparr>\<rparr>)"
| "lazy_step cfg (LazyPod evt resolution) s =
     (case handle_pod_event resolution evt (lz_forward s) of
        (fired, pf) \<Rightarrow> (None, s\<lparr>lz_forward := pf, lz_fired := lz_fired s @ fired\<rparr>))"
| "lazy_step cfg (AcceptError t) s = (Some (AcceptFailed t), s)"
| "lazy_step cfg LazyCancelled s = (Some AttemptCancelled, s)"

fun lazy_loop :: "config \<Rightarrow> lazy_event list \<Rightarrow> lazy_state \<Rightarrow> run_err option \<times> lazy_state" where
  "lazy_loop cfg [] s = (None, s)"
| "lazy_loop cfg (e # es) s =
     (case lazy_step cfg e s of
        (Some r, s1) \<Rightarrow> (Some r, s1)
      | (None, s1) \<Rightarrow> lazy_loop cfg es s1)"

interpretation lz: select_loop "lazy_step cfg" "lazy_loop cfg" for cfg
  by unfold_locales simp_all

record lazy_env =
  le_listen :: "string + int"
  le_events :: "lazy_event list"

definition lazy_listening :: "int \<Rightarrow> forward \<Rightarrow> lazy_state" where
  "lazy_listening port pf =
     \<lparr>lz_forward = pf\<lparr>fw_state := StateWaiting, fw_actual_port := port, fw_tunnel_open := False, fw_err := None\<rparr>,
      lz_tunnel = NoTunnel, lz_served = [], lz_fired = [], lz_evicted = False\<rparr>"

definition run_lazy :: "config \<Rightarrow> lazy_env \<Rightarrow> forward \<Rightarrow> run_err option \<times> attempt" where
  "run_lazy cfg env pf =
     (case le_listen env of
        Inl t \<Rightarrow> failed_attempt (ListenFailed t) [] pf
      | Inr port \<Rightarrow>
          (case lazy_loop cfg (le_events env) (lazy_listening port pf) of
             (r, s) \<Rightarrow>
               (r, \<lparr>at_ports = [], at_forward = lz_forward s, at_fired = lz_fired s, at_evicted = lz_evicted s\<rparr>)))"

subsection \<open>The isolated runner\<close>

datatype iso_event =
    IsoTick bool
  | IsoMaxAge
  | IsoPreempt "resolve_err + string \<times> int"
  | IsoPod pod_event "resolve_err + string \<times> int"
  | IsoClient "resolve_err + string \<times> int" dial_outcome
  | IsoTraffic "byte_counter \<Rightarrow> byte_counter"
  | IsoAcceptError string
  | IsoCancelled
and dial_outcome = NoTransport string | Refused string | Tunnel

text \<open>What became of a client: dropped, or given a tunnel of its own to a pod and port.\<close>

datatype client_outcome = Dropped run_err | Tunnelled string int

record iso_state =
  is_forward :: forward
  is_fail :: int
  is_clients :: "client_outcome list"
  is_fired :: "event list"
  is_evicted :: bool

text \<open>The pod a client is sent to, resolved again when none is known.\<close>

definition pick_pod ::
    "(resolve_err + string \<times> int) \<Rightarrow> forward \<Rightarrow> resolve_err + ((string \<times> int) \<times> forward)" where
  "pick_pod resolution pf =
     (if fw_current_pod pf \<noteq> [] then Inr ((fw_current_pod pf, fw_target_port pf), pf)
      else (case resolution of
              Inl e \<Rightarrow> Inl e
            | Inr (pod, port) \<Rightarrow> Inr ((pod, port), pf\<lparr>fw_current_pod := pod, fw_target_port := port\<rparr>)))"

definition iso_client ::
    "config \<Rightarrow> (resolve_err + string \<times> int) \<Rightarrow> dial_outcome \<Rightarrow> iso_state \<Rightarrow> iso_state" where
  "iso_client cfg resolution d s =
     (case pick_pod resolution (is_forward s) of
        Inl e \<Rightarrow> s\<lparr>is_clients := is_clients s @ [Dropped (RunResolve e)]\<rparr>
      | Inr ((pod, port), pf) \<Rightarrow>
          (case d of
             NoTransport t \<Rightarrow>
               s\<lparr>is_forward := pf, is_clients := is_clients s @ [Dropped (TransportFailed t)]\<rparr>
           | Refused t \<Rightarrow>
               s\<lparr>is_forward := load_chaos cfg pf, is_clients := is_clients s @ [Dropped (DialFailed t)],
                 is_evicted := True\<rparr>
           | Tunnel \<Rightarrow>
               s\<lparr>is_forward := (let p = load_chaos cfg pf in p\<lparr>fw_counter := count_dial True (fw_counter p)\<rparr>),
                 is_clients := is_clients s @ [Tunnelled pod port]\<rparr>))"

definition iso_health :: "parsed_supervisor \<Rightarrow> bool \<Rightarrow> iso_state \<Rightarrow> run_err option \<times> iso_state" where
  "iso_health ps is_open s =
     (if is_open then (None, s\<lparr>is_fail := 0\<rparr>)
      else (let n = is_fail s + 1; pf = is_forward s;
                s1 = s\<lparr>is_fail := n,
                       is_fired := is_fired s @
                         [(forward_event EventHealthCheckFailed pf)\<lparr>ev_local_port := fw_actual_port pf\<rparr>]\<rparr>
            in (if ps_health_check_threshold ps \<le> n then Some (Unhealthy n) else None, s1)))"

fun iso_step :: "config \<Rightarrow> parsed_supervisor \<Rightarrow> iso_event \<Rightarrow> iso_state \<Rightarrow> run_err option \<times> iso_state" where
  "iso_step cfg ps (IsoTick is_open) s = iso_health ps is_open s"
| "iso_step cfg ps IsoMaxAge s =
     (None, if 0 < ps_max_connection_age ps
            then s\<lparr>is_forward := (is_forward s)\<lparr>fw_current_pod := [], fw_target_port := 0\<rparr>\<rparr> else s)"
| "iso_step cfg ps (IsoPreempt resolution) s =
     (None, (case fw_preempt (is_forward s) of
               None \<Rightarrow> s
             | Some _ \<Rightarrow>
                 (let pf = (is_forward s)\<lparr>fw_preempt := None\<rparr>
                  in case resolution of
                       Inl _ \<Rightarrow> s\<lparr>is_forward := pf\<rparr>
                     | Inr (pod, port) \<Rightarrow> s\<lparr>is_forward := pf\<lparr>fw_current_pod := pod, fw_target_port := port\<rparr>\<rparr>)))"
| "iso_step cfg ps (IsoPod evt resolution) s =
     (case handle_pod_event resolution evt (is_forward s) of
        (fired, pf) \<Rightarrow> (None, s\<lparr>is_forward := pf, is_fired := is_fired s @ fired\<rparr>))"
| "iso_step cfg ps (IsoClient resolution d) s = (None, iso_client cfg resolution d s)"
| "iso_step cfg ps (IsoTraffic f) s =
     (None, s\<lparr>is_forward := (is_forward s)\<lparr>fw_counter := f (fw_counter (is_forward s))\<rparr>\<rparr>)"
| "iso_step cfg ps (IsoAcceptError t) s = (Some (AcceptFailed t), s)"
| "iso_step cfg ps IsoCancelled s = (Some AttemptCancelled, s)"

fun iso_loop :: "config \<Rightarrow> parsed_supervisor \<Rightarrow> iso_event list \<Rightarrow> iso_state \<Rightarrow> run_err option \<times> iso_state" where
  "iso_loop cfg ps [] s = (None, s)"
| "iso_loop cfg ps (e # es) s =
     (case iso_step cfg ps e s of
        (Some r, s1) \<Rightarrow> (Some r, s1)
      | (None, s1) \<Rightarrow> iso_loop cfg ps es s1)"

interpretation iso: select_loop "iso_step cfg ps" "iso_loop cfg ps" for cfg ps
  by unfold_locales simp_all

text \<open>\<open>ie_surfaced\<close>: whether the result of the health loop was there when the listener closed;
  if not, the attempt ends as cancelled.\<close>

record iso_env =
  ie_resolve :: "resolve_err + string \<times> int"
  ie_listen :: "string + int"
  ie_events :: "iso_event list"
  ie_surfaced :: bool

definition iso_listening :: "string \<Rightarrow> int \<Rightarrow> forward \<Rightarrow> iso_state" where
  "iso_listening pod port pf =
     (let pf1 = pf\<lparr>fw_state := StateRunning, fw_actual_port := port, fw_err := None\<rparr>
      in \<lparr>is_forward = pf1, is_fail = 0, is_clients = [], is_fired = [connected_event pod pf1],
          is_evicted = False\<rparr>)"

definition surfaced_error :: "bool \<Rightarrow> run_err option \<Rightarrow> run_err option" where
  "surfaced_error surfaced r =
     (case r of Some (Unhealthy n) \<Rightarrow> (if surfaced then r else Some AttemptCancelled) | _ \<Rightarrow> r)"

definition run_isolated :: "config \<Rightarrow> parsed_supervisor \<Rightarrow> iso_env \<Rightarrow> forward \<Rightarrow> run_err option \<times> attempt" where
  "run_isolated cfg ps env pf =
     (case ie_resolve env of
        Inl e \<Rightarrow> failed_attempt (RunResolve e) [] pf
      | Inr (pod, target_port) \<Rightarrow>
          (let pf1 = pf\<lparr>fw_current_pod := pod, fw_target_port := target_port\<rparr>
           in case ie_listen env of
                Inl t \<Rightarrow> failed_attempt (ListenFailed t) [] pf1
              | Inr port \<Rightarrow>
                  (case iso_loop cfg ps (ie_events env) (iso_listening pod port pf1) of
                     (r, s) \<Rightarrow>
                       (surfaced_error (ie_surfaced env) r,
                        \<lparr>at_ports = [], at_forward = is_forward s, at_fired = is_fired s,
                         at_evicted = is_evicted s\<rparr>))))"

subsection \<open>What every runner keeps\<close>

text \<open>An attempt never touches the identity or the restart count of its forward, and it fires
  only events of an attempt.\<close>

definition kept :: "forward \<Rightarrow> forward \<Rightarrow> bool" where
  "kept pf pf' \<longleftrightarrow>
     fw_svc pf' = fw_svc pf \<and> fw_namespace pf' = fw_namespace pf \<and> fw_restarts pf' = fw_restarts pf
     \<and> fw_source_config pf' = fw_source_config pf \<and> fw_has_override pf' = fw_has_override pf
     \<and> (fw_has_override pf \<longrightarrow> fw_chaos_override pf' = fw_chaos_override pf)"

definition attempt_event :: "event \<Rightarrow> bool" where
  "attempt_event e \<longleftrightarrow> ev_type e \<in> {EventForwardConnected, EventHealthCheckFailed, EventPodTerminating}"

lemma kept_refl [simp, intro]: "kept pf pf"
  by (simp add: kept_def)

lemma kept_trans: "kept a b \<Longrightarrow> kept b c \<Longrightarrow> kept a c"
  by (simp add: kept_def)

lemma kept_load_chaos: "kept a b \<Longrightarrow> kept a (load_chaos cfg b)"
  by (simp add: kept_def load_chaos_def)

lemma kept_update:
  "kept a b \<Longrightarrow> kept a (b\<lparr>fw_state := st\<rparr>)" "kept a b \<Longrightarrow> kept a (b\<lparr>fw_err := er\<rparr>)"
  "kept a b \<Longrightarrow> kept a (b\<lparr>fw_actual_port := p\<rparr>)" "kept a b \<Longrightarrow> kept a (b\<lparr>fw_counter := k\<rparr>)"
  "kept a b \<Longrightarrow> kept a (b\<lparr>fw_current_pod := c\<rparr>)" "kept a b \<Longrightarrow> kept a (b\<lparr>fw_target_port := p\<rparr>)"
  "kept a b \<Longrightarrow> kept a (b\<lparr>fw_preempt := q\<rparr>)" "kept a b \<Longrightarrow> kept a (b\<lparr>fw_tunnel_open := t\<rparr>)"
  by (simp_all add: kept_def)

lemma attempt_events [simp]:
  "attempt_event (connected_event pod pf)"
  "attempt_event ((forward_event EventHealthCheckFailed pf)\<lparr>ev_local_port := p\<rparr>)"
  "attempt_event ((forward_event EventHealthCheckFailed pf)\<lparr>ev_local_port := p, ev_pod_name := pod\<rparr>)"
  "attempt_event ((forward_event EventPodTerminating pf)\<lparr>ev_pod_name := pod\<rparr>)"
  by (simp_all add: attempt_event_def connected_event_def forward_event_def service_event_def)

lemma handle_pod_event_keeps:
  "handle_pod_event resolution evt pf = (fired, pf') \<Longrightarrow> kept pf pf' \<and> list_all attempt_event fired"
  by (auto simp: handle_pod_event_def intro: kept_update split: if_splits sum.splits prod.splits option.splits)

definition runner_ok :: "forward \<Rightarrow> forward \<Rightarrow> event list \<Rightarrow> bool" where
  "runner_ok pf pf' fired \<longleftrightarrow> kept pf pf' \<and> list_all attempt_event fired"

lemma mux_step_ok:
  assumes "runner_ok pf (mx_forward s) (mx_fired s)" "mux_step ps pod e s = (r, s')"
  shows "runner_ok pf (mx_forward s') (mx_fired s')"
  using assms
  by (cases e)
    (auto simp: runner_ok_def health_check_def Let_def put_forward_def count_io_def
      intro!: kept_update intro: kept_trans dest!: handle_pod_event_keeps
      split: if_splits option.splits prod.splits)

lemma lazy_step_ok:
  assumes "runner_ok pf (lz_forward s) (lz_fired s)" "lazy_step cfg e s = (r, s')"
  shows "runner_ok pf (lz_forward s') (lz_fired s')"
  using assms
  by (cases e)
    (auto simp: runner_ok_def serve_client_def open_tunnel_def lazy_dial_def Let_def
      intro!: kept_update kept_load_chaos intro: kept_trans dest!: handle_pod_event_keeps
      split: if_splits option.splits prod.splits tunnel.splits dial_result.splits)

lemma pick_pod_keeps: "kept pf b \<Longrightarrow> pick_pod resolution b = Inr (x, c) \<Longrightarrow> kept pf c"
  by (auto simp: pick_pod_def intro!: kept_update split: if_splits sum.splits)

lemma iso_client_ok:
  assumes "runner_ok pf (is_forward s) (is_fired s)"
  shows "runner_ok pf (is_forward (iso_client cfg resolution d s)) (is_fired (iso_client cfg resolution d s))"
  using assms pick_pod_keeps [of pf "is_forward s" resolution]
  by (auto simp: runner_ok_def iso_client_def Let_def intro!: kept_update kept_load_chaos
      split: sum.splits prod.splits dial_outcome.splits)

lemma iso_step_ok:
  assumes "runner_ok pf (is_forward s) (is_fired s)" "iso_step cfg ps e s = (r, s')"
  shows "runner_ok pf (is_forward s') (is_fired s')"
proof (cases e)
  case (IsoClient resolution d)
  then show ?thesis using assms(2) iso_client_ok [OF assms(1)] by auto
qed (use assms in \<open>auto simp: runner_ok_def iso_health_def Let_def
      intro!: kept_update intro: kept_trans dest!: handle_pod_event_keeps
      split: if_splits option.splits prod.splits sum.splits\<close>)

text \<open>The contract the supervising loop relies on.\<close>

locale attempt_runner =
  fixes run :: "'e \<Rightarrow> forward \<Rightarrow> run_err option \<times> attempt"
  assumes keeps: "run env pf = (r, a) \<Longrightarrow> runner_ok pf (at_forward a) (at_fired a)"
begin

lemma keeps_service: "fw_svc (at_forward (snd (run env pf))) = fw_svc pf"
  using keeps [of env pf] by (cases "run env pf") (auto simp: runner_ok_def kept_def)

lemma keeps_restarts: "fw_restarts (at_forward (snd (run env pf))) = fw_restarts pf"
  using keeps [of env pf] by (cases "run env pf") (auto simp: runner_ok_def kept_def)

lemma keeps_override:
  "fw_has_override pf \<Longrightarrow> fw_chaos_override (at_forward (snd (run env pf))) = fw_chaos_override pf"
  using keeps [of env pf] by (cases "run env pf") (auto simp: runner_ok_def kept_def)

lemma fires_no_verdict:
  "t \<in> {EventForwardDisconnected, EventForwardFailed, EventForwardStopped}
   \<Longrightarrow> filter (\<lambda>e. ev_type e = t) (at_fired (snd (run env pf))) = []"
  using keeps [of env pf]
  by (cases "run env pf") (auto simp: runner_ok_def list_all_iff attempt_event_def filter_empty_conv)

end

lemma failed_attempt_ok:
  "kept pf p \<Longrightarrow> failed_attempt e ports p = (r, a) \<Longrightarrow> runner_ok pf (at_forward a) (at_fired a)"
  by (auto simp: failed_attempt_def runner_ok_def)

lemma serve_tunnel_ok:
  assumes "kept pf p" "serve_tunnel ps pod ports port es p = (r, a)"
  shows "runner_ok pf (at_forward a) (at_fired a)"
proof -
  define p1 where "p1 = p\<lparr>fw_state := StateRunning, fw_actual_port := port, fw_err := None\<rparr>"
  define s0 where "s0 = \<lparr>mx_forward = p1, mx_fail = 0, mx_last = stream_errors (fw_counter p1),
    mx_fired = [connected_event pod p1], mx_evicted = False\<rparr>"
  obtain r1 s1 where l: "mux_loop ps pod es s0 = (r1, s1)" by (cases "mux_loop ps pod es s0")
  have i: "runner_ok pf (mx_forward s0) (mx_fired s0)"
    using assms(1) by (simp add: s0_def p1_def runner_ok_def kept_update)
  have "runner_ok pf (mx_forward s1) (mx_fired s1)"
    by (rule mx.loop_keeps [where P = "\<lambda>s. runner_ok pf (mx_forward s) (mx_fired s)", OF _ i l]) (rule mux_step_ok)
  with assms(2) l show ?thesis
    by (auto simp: serve_tunnel_def Let_def p1_def [symmetric] s0_def [symmetric])
qed

interpretation mux_run: attempt_runner "run_port_forward cfg ps" for cfg ps
proof
  fix env pf r a
  assume run: "run_port_forward cfg ps env pf = (r, a)"
  have k: "kept pf (dialled env (load_chaos cfg (pf\<lparr>fw_current_pod := pod\<rparr>)))"
    "kept pf (load_chaos cfg (pf\<lparr>fw_current_pod := pod\<rparr>))" for pod
    by (auto simp: dialled_def intro!: kept_update kept_load_chaos)
  from run show "runner_ok pf (at_forward a) (at_fired a)"
    by (auto simp: run_port_forward_def Let_def intro!: kept_update k
        elim!: failed_attempt_ok [rotated] serve_tunnel_ok [rotated]
        split: sum.splits prod.splits option.splits)
qed

interpretation lazy_run: attempt_runner "run_lazy cfg" for cfg
proof
  fix env pf r a
  assume run: "run_lazy cfg env pf = (r, a)"
  show "runner_ok pf (at_forward a) (at_fired a)"
  proof (cases "le_listen env")
    case (Inl t)
    then show ?thesis using run by (auto simp: run_lazy_def elim!: failed_attempt_ok [rotated])
  next
    case (Inr port)
    obtain r1 s1 where l: "lazy_loop cfg (le_events env) (lazy_listening port pf) = (r1, s1)"
      by (cases "lazy_loop cfg (le_events env) (lazy_listening port pf)")
    have i: "runner_ok pf (lz_forward (lazy_listening port pf)) (lz_fired (lazy_listening port pf))"
      by (auto simp: lazy_listening_def runner_ok_def intro!: kept_update)
    have "runner_ok pf (lz_forward s1) (lz_fired s1)"
      by (rule lz.loop_keeps [where P = "\<lambda>s. runner_ok pf (lz_forward s) (lz_fired s)", OF _ i l]) (rule lazy_step_ok)
    with Inr run l show ?thesis by (auto simp: run_lazy_def)
  qed
qed

interpretation iso_run: attempt_runner "run_isolated cfg ps" for cfg ps
proof
  fix env pf r a
  assume run: "run_isolated cfg ps env pf = (r, a)"
  show "runner_ok pf (at_forward a) (at_fired a)"
  proof (cases "ie_resolve env")
    case (Inl e)
    then show ?thesis using run by (auto simp: run_isolated_def elim!: failed_attempt_ok [rotated])
  next
    case (Inr x)
    define p1 where "p1 = pf\<lparr>fw_current_pod := fst x, fw_target_port := snd x\<rparr>"
    have k1: "kept pf p1" by (auto simp: p1_def intro!: kept_update)
    show ?thesis
    proof (cases "ie_listen env")
      case (Inl t)
      then show ?thesis using run Inr k1
        by (auto simp: run_isolated_def p1_def case_prod_beta elim!: failed_attempt_ok [rotated])
    next
      case (Inr port)
      obtain r1 s1 where l: "iso_loop cfg ps (ie_events env) (iso_listening (fst x) port p1) = (r1, s1)"
        by (cases "iso_loop cfg ps (ie_events env) (iso_listening (fst x) port p1)")
      have i: "runner_ok pf (is_forward (iso_listening (fst x) port p1)) (is_fired (iso_listening (fst x) port p1))"
        using k1 by (auto simp: iso_listening_def runner_ok_def Let_def intro!: kept_update)
      have "runner_ok pf (is_forward s1) (is_fired s1)"
        by (rule iso.loop_keeps [where P = "\<lambda>s. runner_ok pf (is_forward s) (is_fired s)", OF _ i l]) (rule iso_step_ok)
      with Inr \<open>ie_resolve env = Inr x\<close> run l show ?thesis
        by (auto simp: run_isolated_def p1_def case_prod_beta)
    qed
  qed
qed

end
