(* ===== verification/Loop.thy ===== *)
theory Loop
  imports Runners
begin

text \<open>
  The loop of \<^verbatim>\<open>superviseSingle\<close>: one round runs an attempt, and then stops, gives up, retries at
  once or waits.  A round's input says what the manager's context did, what the attempt met, how
  long it took, the random draw of the jitter and whether the wait ran to its end.
\<close>

subsection \<open>Jitter\<close>

text \<open>\<open>u\<close> is the draw of \<^verbatim>\<open>rand.Float64\<close>; the float operations are rounded one by one.\<close>

definition f_mul :: "f64 \<Rightarrow> f64 \<Rightarrow> f64" where
  "f_mul x y = (case (x, y) of (Fin a, Fin b) \<Rightarrow> fround (a * b) | _ \<Rightarrow> NaN)"

definition f_sub :: "f64 \<Rightarrow> f64 \<Rightarrow> f64" where
  "f_sub x y = (case (x, y) of (Fin a, Fin b) \<Rightarrow> fround (a - b) | _ \<Rightarrow> NaN)"

definition add_jitter :: "rat \<Rightarrow> int \<Rightarrow> int" where
  "add_jitter u d =
     (let jitter = f_mul (fround (of_int d)) (Fin (1 / 4))
      in wrap64 (d + f_to_int (f_sub (f_mul (f_mul (Fin u) (Fin 2)) jitter) jitter)))"

subsection \<open>One round\<close>

record round =
  ro_done :: bool
  ro_now :: int
  ro_mux :: mux_env
  ro_lazy :: lazy_env
  ro_iso :: iso_env
  ro_duration :: int
  ro_done_after :: bool
  ro_draw :: rat
  ro_woken :: bool

record supervised =
  su_forward :: forward
  su_backoff :: int
  su_waits :: "int list"
  su_fired :: "event list"

text \<open>How a round ends; \<open>Running\<close> when the attempt has no outcome yet.\<close>

datatype verdict = Running | Again | GaveUp | Stopped | StoppedWaiting

definition run_attempt :: "config \<Rightarrow> parsed_supervisor \<Rightarrow> round \<Rightarrow> forward \<Rightarrow> run_err option \<times> attempt" where
  "run_attempt cfg ps r pf =
     (if resolve_connection_mode (cfg_supervisor cfg) (fw_svc pf) = ''isolated''
      then run_isolated cfg ps (ro_iso r) pf
      else if svc_lazy (fw_svc pf) then run_lazy cfg (ro_lazy r) pf
      else run_port_forward cfg ps (ro_mux r) pf)"

definition begin_round :: "int \<Rightarrow> forward \<Rightarrow> forward" where
  "begin_round now pf = pf\<lparr>fw_state := StateStarting, fw_last_start := now, fw_next_retry := None\<rparr>"

text \<open>The failure of an attempt: the restart is counted and reported.\<close>

definition record_failure :: "(run_err \<Rightarrow> string) \<Rightarrow> run_err \<Rightarrow> supervised \<Rightarrow> supervised" where
  "record_failure err_text e s =
     (let pf = (su_forward s)\<lparr>fw_state := StateFailed, fw_err := Some e,
                              fw_restarts := fw_restarts (su_forward s) + 1\<rparr>
      in s\<lparr>su_forward := pf,
           su_fired := su_fired s @
             [(forward_event EventForwardDisconnected pf)
                \<lparr>ev_local_port := fw_actual_port pf, ev_restarts := fw_restarts pf, ev_error := Some (err_text e)\<rparr>]\<rparr>)"

definition give_up :: "parsed_supervisor \<Rightarrow> supervised \<Rightarrow> supervised" where
  "give_up ps s =
     s\<lparr>su_fired := su_fired s @
         [(forward_event EventForwardFailed (su_forward s))
            \<lparr>ev_local_port := fw_actual_port (su_forward s), ev_restarts := fw_restarts (su_forward s),
             ev_error := Some (''max restarts ('' @ itoa (ps_max_restarts ps) @ '') exceeded'')\<rparr>]\<rparr>"

text \<open>The wait before the next attempt; a long and healthy connection resets the backoff.\<close>

definition wait_round :: "parsed_supervisor \<Rightarrow> round \<Rightarrow> supervised \<Rightarrow> verdict \<times> supervised" where
  "wait_round ps r s =
     (let backoff = (if 30 * sec < ro_duration r \<and> stream_errors (fw_counter (su_forward s)) = 0
                     then ps_backoff_initial ps else su_backoff s);
          jittered = add_jitter (ro_draw r) backoff;
          waiting = s\<lparr>su_forward := (su_forward s)\<lparr>fw_next_retry := Some (ro_now r + ro_duration r + jittered)\<rparr>,
                      su_waits := su_waits s @ [jittered]\<rparr>
      in if ro_woken r
         then (Again, waiting\<lparr>su_backoff := min (wrap64 (backoff * 2)) (ps_backoff_max ps)\<rparr>)
         else (StoppedWaiting, waiting\<lparr>su_backoff := backoff\<rparr>))"

definition after_attempt ::
    "parsed_supervisor \<Rightarrow> (run_err \<Rightarrow> string) \<Rightarrow> round \<Rightarrow> run_err \<Rightarrow> supervised \<Rightarrow> verdict \<times> supervised" where
  "after_attempt ps err_text r e s =
     (if ro_done_after r
      then (Stopped, s\<lparr>su_forward := (su_forward s)\<lparr>fw_state := StateStopped\<rparr>\<rparr>)
      else if e = Preempted then (Again, s\<lparr>su_backoff := ps_backoff_initial ps\<rparr>)
      else (let s1 = record_failure err_text e s
            in if 0 < ps_max_restarts ps \<and> ps_max_restarts ps \<le> fw_restarts (su_forward s1)
               then (GaveUp, give_up ps s1)
               else wait_round ps r s1))"

definition supervise_round ::
    "config \<Rightarrow> parsed_supervisor \<Rightarrow> (run_err \<Rightarrow> string) \<Rightarrow> round \<Rightarrow> supervised \<Rightarrow> verdict \<times> supervised" where
  "supervise_round cfg ps err_text r s =
     (if ro_done r
      then (Stopped, s\<lparr>su_forward := (su_forward s)\<lparr>fw_state := StateStopped\<rparr>,
                       su_fired := su_fired s @ [forward_event EventForwardStopped (su_forward s)]\<rparr>)
      else (case run_attempt cfg ps r (begin_round (ro_now r) (su_forward s)) of
              (outcome, a) \<Rightarrow>
                (let s1 = s\<lparr>su_forward := at_forward a, su_fired := su_fired s @ at_fired a\<rparr>
                 in case outcome of
                      None \<Rightarrow> (Running, s1)
                    | Some e \<Rightarrow> after_attempt ps err_text r e s1)))"

fun supervise_loop ::
    "config \<Rightarrow> parsed_supervisor \<Rightarrow> (run_err \<Rightarrow> string) \<Rightarrow> round list \<Rightarrow> supervised \<Rightarrow> verdict \<times> supervised" where
  "supervise_loop cfg ps err_text [] s = (Again, s)"
| "supervise_loop cfg ps err_text (r # rs) s =
     (case supervise_round cfg ps err_text r s of
        (Again, s1) \<Rightarrow> supervise_loop cfg ps err_text rs s1
      | (v, s1) \<Rightarrow> (v, s1))"

definition supervise_single ::
    "config \<Rightarrow> parsed_supervisor \<Rightarrow> (run_err \<Rightarrow> string) \<Rightarrow> round list \<Rightarrow> forward \<Rightarrow> verdict \<times> supervised" where
  "supervise_single cfg ps err_text rs pf =
     supervise_loop cfg ps err_text rs
       \<lparr>su_forward = pf, su_backoff = ps_backoff_initial ps, su_waits = [], su_fired = []\<rparr>"

subsection \<open>Bounds on the waits\<close>

lemma pow2_literals: "pow2 0 = 1" "pow2 (- 1) = 1 / 2" "pow2 (- 2) = 1 / 4"
  by (simp_all add: pow2_def)

lemma add_jitter_bounds:
  assumes "0 \<le> u" "u < 1" "0 \<le> d" "d < 2 ^ 53"
  shows "d - d div 4 \<le> add_jitter u d" "add_jitter u d \<le> d + d div 4"
proof -
  let ?d = "of_int d :: rat"
  have d0: "fround ?d = Fin ?d" using fround_dyadic0 [of d 0] assms by (simp add: pow2_literals)
  have d2: "fround (?d / 2) = Fin (?d / 2)" using fround_dyadic0 [of d "- 1"] assms by (simp add: pow2_literals)
  have d4: "fround (?d / 4) = Fin (?d / 4)" using fround_dyadic0 [of d "- 2"] assms by (simp add: pow2_literals)
  have two: "fround 2 = Fin 2" using fround_int [of 2] by simp
  have dpos: "0 \<le> ?d" using assms(3) by simp
  obtain v where v: "fround (u * 2) = Fin v" "0 \<le> v" "v \<le> 2"
    using fround_bound [of "u * 2" 2] two assms(1,2) by auto
  have "v * (?d / 4) \<le> 2 * (?d / 4)" using v(3) dpos by (intro mult_right_mono) simp_all
  then obtain p where p: "fround (v * (?d / 4)) = Fin p" "0 \<le> p" "p \<le> ?d / 2"
    using fround_bound [of "v * (?d / 4)" "?d / 2"] d2 v(2) dpos by auto
  have "\<bar>p - ?d / 4\<bar> \<le> ?d / 4" using p(2,3) dpos by linarith
  then obtain x where x: "fround (p - ?d / 4) = Fin x" "\<bar>x\<bar> \<le> ?d / 4"
    using fround_abs_bound [OF _ d4] by blast
  have fl: "\<lfloor>?d / 4\<rfloor> = d div 4" using floor_divide_of_int_eq [of d 4] by simp
  have b: "\<bar>f_to_int (Fin x)\<bar> \<le> d div 4"
    using f_to_int_bound [OF x(2)] assms(3,4) unfolding fl by simp
  have j: "f_mul (fround ?d) (Fin (1 / 4)) = Fin (?d / 4)" by (simp add: f_mul_def d0 d4)
  have "f_sub (f_mul (f_mul (Fin u) (Fin 2)) (Fin (?d / 4))) (Fin (?d / 4)) = Fin x"
    using v(1) p(1) x(1) by (simp add: f_mul_def f_sub_def)
  then have "add_jitter u d = wrap64 (d + f_to_int (Fin x))"
    by (simp only: add_jitter_def j Let_def)
  moreover have "wrap64 (d + f_to_int (Fin x)) = d + f_to_int (Fin x)"
  proof (rule wrap64_id)
    have n: "d < 9007199254740992" using assms(4) by simp
    from n b assms(3) have "- 9223372036854775808 \<le> d + f_to_int (Fin x)"
      "d + f_to_int (Fin x) < 9223372036854775808" by linarith+
    then show "- (2 ^ 63) \<le> d + f_to_int (Fin x)" "d + f_to_int (Fin x) < 2 ^ 63" by auto
  qed
  ultimately show "d - d div 4 \<le> add_jitter u d" "add_jitter u d \<le> d + d div 4" using b by linarith+
qed

end
