(* ===== verification/LoopFacts.thy ===== *)
theory LoopFacts
  imports Loop
begin

text \<open>
  What the supervising loop guarantees: the bounds and the schedule of its waits, the restart
  limit and the events it fires, and the state it leaves a forward in; then what this means for a
  service that was removed while it ran.
\<close>

interpretation ra: attempt_runner "run_attempt cfg ps" for cfg ps
proof
  fix r pf o1 a
  assume "run_attempt cfg ps r pf = (o1, a)"
  then show "runner_ok pf (at_forward a) (at_fired a)"
    by (auto simp: run_attempt_def intro: mux_run.keeps lazy_run.keeps iso_run.keeps split: if_splits)
qed

subsection \<open>One round, by its outcome\<close>

definition fired_count :: "event_type \<Rightarrow> event list \<Rightarrow> nat" where
  "fired_count t es = length (filter (\<lambda>e. ev_type e = t) es)"

lemma fired_count_simps [simp]:
  "fired_count t [] = 0" "fired_count t (es @ fs) = fired_count t es + fired_count t fs"
  "fired_count t [e] = (if ev_type e = t then 1 else 0)"
  by (simp_all add: fired_count_def)

lemma attempt_fires_none [simp]:
  "fired_count EventForwardDisconnected (at_fired (snd (run_attempt cfg ps r pf))) = 0"
  "fired_count EventForwardFailed (at_fired (snd (run_attempt cfg ps r pf))) = 0"
  "fired_count EventForwardStopped (at_fired (snd (run_attempt cfg ps r pf))) = 0"
  by (simp_all add: fired_count_def ra.fires_no_verdict)

lemma ev_type_forward_event [simp]: "ev_type (forward_event t pf) = t"
  by (simp add: forward_event_def service_event_def)

lemma begin_round_simps [simp]:
  "fw_svc (begin_round now pf) = fw_svc pf" "fw_restarts (begin_round now pf) = fw_restarts pf"
  by (simp_all add: begin_round_def)

text \<open>The number of disconnects, failures and stops reported so far, and the restart count.\<close>

definition tally :: "supervised \<Rightarrow> nat \<times> nat \<times> nat \<times> int" where
  "tally s =
     (fired_count EventForwardDisconnected (su_fired s), fired_count EventForwardFailed (su_fired s),
      fired_count EventForwardStopped (su_fired s), fw_restarts (su_forward s))"

inductive round_effect ::
    "parsed_supervisor \<Rightarrow> round \<Rightarrow> supervised \<Rightarrow> verdict \<Rightarrow> supervised \<Rightarrow> bool"
  for ps r s where
  stopped: "tally s = (d, f, k, n) \<Longrightarrow> tally s' \<in> {(d, f, Suc k, n), (d, f, k, n)} \<Longrightarrow>
    su_backoff s' = su_backoff s \<Longrightarrow> su_waits s' = su_waits s \<Longrightarrow>
    fw_state (su_forward s') = StateStopped \<Longrightarrow> round_effect ps r s Stopped s'"
| running: "tally s' = tally s \<Longrightarrow> su_backoff s' = su_backoff s \<Longrightarrow> su_waits s' = su_waits s \<Longrightarrow>
    round_effect ps r s Running s'"
| preempted: "tally s' = tally s \<Longrightarrow> su_backoff s' = ps_backoff_initial ps \<Longrightarrow> su_waits s' = su_waits s \<Longrightarrow>
    round_effect ps r s Again s'"
| gave_up: "tally s = (d, f, k, n) \<Longrightarrow> tally s' = (Suc d, Suc f, k, n + 1) \<Longrightarrow>
    0 < ps_max_restarts ps \<Longrightarrow> ps_max_restarts ps \<le> n + 1 \<Longrightarrow> su_waits s' = su_waits s \<Longrightarrow>
    su_backoff s' = su_backoff s \<Longrightarrow>
    fw_state (su_forward s') = StateFailed \<Longrightarrow> round_effect ps r s GaveUp s'"
| waited: "tally s = (d, f, k, n) \<Longrightarrow> tally s' = (Suc d, f, k, n + 1) \<Longrightarrow>
    \<not> (0 < ps_max_restarts ps \<and> ps_max_restarts ps \<le> n + 1) \<Longrightarrow>
    b \<in> {ps_backoff_initial ps, su_backoff s} \<Longrightarrow> (ro_duration r \<le> 30 * sec \<longrightarrow> b = su_backoff s) \<Longrightarrow>
    su_waits s' = su_waits s @ [add_jitter (ro_draw r) b] \<Longrightarrow>
    su_backoff s' = (if ro_woken r then min (wrap64 (b * 2)) (ps_backoff_max ps) else b) \<Longrightarrow>
    fw_state (su_forward s') = StateFailed \<Longrightarrow>
    round_effect ps r s (if ro_woken r then Again else StoppedWaiting) s'"

lemma wait_effect:
  assumes "\<not> (0 < ps_max_restarts ps \<and> ps_max_restarts ps \<le> fw_restarts (su_forward s1))"
    and "tally s = (d, f, k, n)" "tally s1 = (Suc d, f, k, n + 1)"
    and "su_backoff s1 = su_backoff s" "su_waits s1 = su_waits s" "fw_state (su_forward s1) = StateFailed"
    and "wait_round ps r s1 = (v, s')"
  shows "round_effect ps r s v s'"
proof -
  define b where "b = (if 30 * sec < ro_duration r \<and> stream_errors (fw_counter (su_forward s1)) = 0
    then ps_backoff_initial ps else su_backoff s1)"
  have n: "fw_restarts (su_forward s1) = n + 1" using assms(3) by (simp add: tally_def)
  have v: "v = (if ro_woken r then Again else StoppedWaiting)"
    using assms(7) by (auto simp: wait_round_def Let_def split: if_splits)
  have w: "su_waits s' = su_waits s @ [add_jitter (ro_draw r) b]"
    and bo: "su_backoff s' = (if ro_woken r then min (wrap64 (b * 2)) (ps_backoff_max ps) else b)"
    and t: "tally s' = (Suc d, f, k, n + 1)" and st: "fw_state (su_forward s') = StateFailed"
    using assms(3,5,6,7) by (auto simp: wait_round_def Let_def b_def [symmetric] tally_def split: if_splits)
  show ?thesis
    unfolding v
    by (rule round_effect.waited [OF assms(2) t _ _ _ w bo st])
      (use assms(1,4) n in \<open>auto simp: b_def\<close>)
qed

lemma supervise_round_effect:
  assumes "supervise_round cfg ps err_text r s = (v, s')"
  shows "round_effect ps r s v s'"
proof (cases "ro_done r")
  case True
  then show ?thesis
    using assms by (auto simp: supervise_round_def tally_def intro!: round_effect.stopped)
next
  case False
  let ?pf = "begin_round (ro_now r) (su_forward s)"
  obtain o1 a where run: "run_attempt cfg ps r ?pf = (o1, a)" by (cases "run_attempt cfg ps r ?pf")
  define s1 where "s1 = s\<lparr>su_forward := at_forward a, su_fired := su_fired s @ at_fired a\<rparr>"
  have "fw_restarts (at_forward a) = fw_restarts (su_forward s)"
    using ra.keeps_restarts [of cfg ps r ?pf] by (simp add: run)
  then have t1: "tally s1 = tally s"
    using attempt_fires_none [of cfg ps r ?pf] by (simp add: s1_def tally_def run)
  have b1: "su_backoff s1 = su_backoff s" "su_waits s1 = su_waits s" by (simp_all add: s1_def)
  obtain d f k n where tl: "tally s = (d, f, k, n)" by (cases "tally s")
  show ?thesis
  proof (cases o1)
    case None
    then show ?thesis
      using assms False run t1 b1
      by (auto simp: supervise_round_def s1_def [symmetric] intro!: round_effect.running)
  next
    case (Some e)
    have eq: "after_attempt ps err_text r e s1 = (v, s')"
      using assms False run Some by (simp add: supervise_round_def s1_def)
    let ?s2 = "record_failure err_text e s1"
    have t2: "tally ?s2 = (Suc d, f, k, n + 1)"
      using t1 tl by (simp add: record_failure_def tally_def Let_def)
    have b2: "su_backoff ?s2 = su_backoff s" "su_waits ?s2 = su_waits s"
      "fw_state (su_forward ?s2) = StateFailed"
      using b1 by (simp_all add: record_failure_def Let_def)
    consider "ro_done_after r" | "\<not> ro_done_after r" "e = Preempted"
      | "\<not> ro_done_after r" "e \<noteq> Preempted" "0 < ps_max_restarts ps \<and> ps_max_restarts ps \<le> fw_restarts (su_forward ?s2)"
      | "\<not> ro_done_after r" "e \<noteq> Preempted" "\<not> (0 < ps_max_restarts ps \<and> ps_max_restarts ps \<le> fw_restarts (su_forward ?s2))"
      by blast
    then show ?thesis
    proof cases
      case 1
      then show ?thesis using eq t1 tl b1
        by (auto simp: after_attempt_def tally_def intro!: round_effect.stopped)
    next
      case 2
      then show ?thesis using eq t1 b1
        by (auto simp: after_attempt_def tally_def intro!: round_effect.preempted)
    next
      case 3
      have "s' = give_up ps ?s2" "v = GaveUp" using 3 eq by (auto simp: after_attempt_def Let_def)
      moreover have "tally (give_up ps ?s2) = (Suc d, Suc f, k, n + 1)"
        using t2 by (simp add: give_up_def tally_def)
      moreover have "fw_restarts (su_forward ?s2) = n + 1" using t2 by (simp add: tally_def)
      ultimately show ?thesis using 3(3) b2 tl
        by (auto simp: give_up_def intro!: round_effect.gave_up)
    next
      case 4
      then have "wait_round ps r ?s2 = (v, s')" using eq by (auto simp: after_attempt_def Let_def)
      then show ?thesis using wait_effect [OF 4(3) tl t2 b2(1,2,3)] by simp
    qed
  qed
qed

lemma supervise_loop_keeps:
  assumes "\<And>r s v s'. r \<in> set rs \<Longrightarrow> P s \<Longrightarrow> round_effect ps r s v s' \<Longrightarrow> P s'"
    and "P s" "supervise_loop cfg ps err_text rs s = (v, s')"
  shows "P s'"
  using assms
proof (induction rs arbitrary: s)
  case Nil
  then show ?case by simp
next
  case (Cons r rs)
  obtain v1 s1 where st: "supervise_round cfg ps err_text r s = (v1, s1)"
    by (cases "supervise_round cfg ps err_text r s")
  have "P s1" using Cons.prems(1) [OF _ Cons.prems(2) supervise_round_effect [OF st]] by simp
  then show ?case
    using Cons.prems Cons.IH [of s1] st by (cases v1) auto
qed

subsection \<open>The waits\<close>

lemma div4_mono: "a \<le> b \<Longrightarrow> a - a div 4 \<le> b - b div (4::int)"
  by linarith

text \<open>C17: with \<^verbatim>\<open>0 <= backoff_initial <= backoff_max\<close> every wait between two attempts lies between
  three quarters of the initial and five quarters of the largest backoff, whatever fails and
  however long connections last.\<close>

theorem waits_bounded:
  assumes "0 \<le> ps_backoff_initial ps" "ps_backoff_initial ps \<le> ps_backoff_max ps" "ps_backoff_max ps < 2 ^ 53"
    and "list_all (\<lambda>r. 0 \<le> ro_draw r \<and> ro_draw r < 1) rs"
    and "supervise_single cfg ps err_text rs pf = (v, s)"
  shows "list_all (\<lambda>w. ps_backoff_initial ps - ps_backoff_initial ps div 4 \<le> w
                      \<and> w \<le> ps_backoff_max ps + ps_backoff_max ps div 4) (su_waits s)"
proof -
  let ?P = "\<lambda>s. ps_backoff_initial ps \<le> su_backoff s \<and> su_backoff s \<le> ps_backoff_max ps
    \<and> list_all (\<lambda>w. ps_backoff_initial ps - ps_backoff_initial ps div 4 \<le> w
                      \<and> w \<le> ps_backoff_max ps + ps_backoff_max ps div 4) (su_waits s)"
  have step: "?P s'" if r: "r \<in> set rs" and P: "?P s" and e: "round_effect ps r s v s'" for r s v s'
    using e
  proof (cases rule: round_effect.cases)
    case (waited d f k n b)
    have b: "ps_backoff_initial ps \<le> b" "b \<le> ps_backoff_max ps" using waited P assms(2) by auto
    then have b0: "0 \<le> b" "b < 2 ^ 53" using assms(1,3) by auto
    have u: "0 \<le> ro_draw r" "ro_draw r < 1" using assms(4) r by (auto simp: list_all_iff)
    note j = add_jitter_bounds [OF u b0]
    have "ps_backoff_initial ps - ps_backoff_initial ps div 4 \<le> add_jitter (ro_draw r) b"
      "add_jitter (ro_draw r) b \<le> ps_backoff_max ps + ps_backoff_max ps div 4"
      using j b div4_mono [OF b(1)] by linarith+
    moreover have "wrap64 (b * 2) = b * 2" using b0 by (intro wrap64_id) auto
    ultimately show ?thesis using waited P b assms(1,2) by auto
  qed (use P assms(2) in auto)
  have "?P s"
    using supervise_loop_keeps [where P = ?P, OF step _ assms(5) [unfolded supervise_single_def]] assms(2)
    by simp
  then show ?thesis by blast
qed

text \<open>A setting for the witnesses: the API server answers no request.\<close>

definition example_settings :: "int \<Rightarrow> parsed_supervisor" where
  "example_settings max_restarts =
     \<lparr>ps_max_restarts = max_restarts, ps_health_check_threshold = 3, ps_health_check_interval = 10 * sec,
      ps_ready_timeout = 15 * sec, ps_backoff_initial = 1000, ps_backoff_max = 4000,
      ps_max_connection_age = 0\<rparr>"

definition failing_round :: round where
  "failing_round =
     \<lparr>ro_done = False, ro_now = 0,
      ro_mux = \<lparr>me_resolve = Inl NoClient, me_transport = None, me_forwarder = None, me_dialed = False,
                me_startup = StartupTimedOut, me_events = []\<rparr>,
      ro_lazy = \<lparr>le_listen = Inl [], le_events = []\<rparr>,
      ro_iso = \<lparr>ie_resolve = Inl NoClient, ie_listen = Inl [], ie_events = [], ie_surfaced = True\<rparr>,
      ro_duration = 1, ro_done_after = False, ro_draw = 1 / 2, ro_woken = True\<rparr>"

lemma failing_round_simps [simp]:
  "\<not> ro_done failing_round" "ro_duration failing_round = 1" "ro_draw failing_round = 1 / 2"
  "ro_woken failing_round" "\<not> ro_done_after failing_round"
  by (simp_all add: failing_round_def)

lemma example_settings_simps [simp]:
  "ps_max_restarts (example_settings n) = n" "ps_backoff_initial (example_settings n) = 1000"
  "ps_backoff_max (example_settings n) = 4000" "ps_health_check_threshold (example_settings n) = 3"
  by (simp_all add: example_settings_def)

lemma failing_run:
  "\<exists>e a. run_attempt cfg ps failing_round pf = (Some e, a) \<and> e \<noteq> Preempted"
  by (cases "le_listen (ro_lazy failing_round)")
    (auto simp: run_attempt_def failing_round_def run_isolated_def run_lazy_def run_port_forward_def
      failed_attempt_def)

lemma failing_round_waits:
  assumes "ps_max_restarts ps = 0"
  shows "\<exists>s'. supervise_round cfg ps err_text failing_round s = (Again, s')
    \<and> length (su_waits s') = Suc (length (su_waits s))"
proof -
  obtain e a where "run_attempt cfg ps failing_round (begin_round (ro_now failing_round) (su_forward s)) = (Some e, a)"
    "e \<noteq> Preempted" using failing_run by blast
  then show ?thesis
    using assms
    by (simp add: supervise_round_def after_attempt_def Let_def wait_round_def record_failure_def)
qed

lemma failing_rounds_wait:
  assumes "ps_max_restarts ps = 0"
  shows "\<exists>s'. supervise_loop cfg ps err_text (replicate n failing_round) s = (Again, s')
    \<and> length (su_waits s') = length (su_waits s) + n"
proof (induction n arbitrary: s)
  case 0
  then show ?case by simp
next
  case (Suc n)
  from failing_round_waits [OF assms, of cfg err_text s] obtain s1
    where "supervise_round cfg ps err_text failing_round s = (Again, s1)"
      "length (su_waits s1) = Suc (length (su_waits s))" by blast
  with Suc.IH [of s1] show ?case by auto
qed

theorem waits_bounded_witness:
  "\<exists>s. supervise_single zero_config (example_settings 0) (\<lambda>_. []) [failing_round, failing_round]
          (new_forward zero_service []) = (Again, s)
     \<and> list_all (\<lambda>w. 750 \<le> w \<and> w \<le> 5000) (su_waits s) \<and> length (su_waits s) = 2"
proof -
  obtain s where s: "supervise_single zero_config (example_settings 0) (\<lambda>_. []) (replicate 2 failing_round)
      (new_forward zero_service []) = (Again, s)" "length (su_waits s) = 2"
    using failing_rounds_wait [of "example_settings 0" zero_config "\<lambda>_. []" 2]
    by (force simp: supervise_single_def)
  have "list_all (\<lambda>w. 750 \<le> w \<and> w \<le> 5000) (su_waits s)"
    using waits_bounded [OF _ _ _ _ s(1)] by (simp add: list_all_iff)
  then show ?thesis using s by (simp add: numeral_2_eq_2)
qed

lemma loop_wait_count:
  assumes "supervise_loop cfg ps err_text rs s = (v, s')"
  shows "length (su_waits s') \<le> length (su_waits s) + length rs"
  using assms
proof (induction rs arbitrary: s)
  case (Cons r rs)
  obtain v1 s1 where st: "supervise_round cfg ps err_text r s = (v1, s1)"
    by (cases "supervise_round cfg ps err_text r s")
  have "length (su_waits s1) \<le> Suc (length (su_waits s))"
    using supervise_round_effect [OF st] by (cases rule: round_effect.cases) auto
  with Cons st show ?case by (cases v1) fastforce+
qed simp

definition backoff_at :: "parsed_supervisor \<Rightarrow> nat \<Rightarrow> int" where
  "backoff_at ps i = min (ps_backoff_initial ps * 2 ^ i) (ps_backoff_max ps)"

lemma backoff_at_Suc:
  "0 \<le> ps_backoff_initial ps \<Longrightarrow> 0 \<le> ps_backoff_max ps \<Longrightarrow> ps_backoff_max ps < 2 ^ 62 \<Longrightarrow>
   min (wrap64 (backoff_at ps i * 2)) (ps_backoff_max ps) = backoff_at ps (Suc i)"
proof -
  assume a: "0 \<le> ps_backoff_initial ps" "0 \<le> ps_backoff_max ps" "ps_backoff_max ps < 2 ^ 62"
  then have "0 \<le> backoff_at ps i" "backoff_at ps i < 2 ^ 62"
    by (auto simp: backoff_at_def min_def)
  then have w: "wrap64 (backoff_at ps i * 2) = backoff_at ps i * 2" by (intro wrap64_id) auto
  show ?thesis unfolding w using a by (auto simp: backoff_at_def min_def)
qed

lemma schedule_loop:
  assumes "0 \<le> ps_backoff_initial ps" "0 \<le> ps_backoff_max ps" "ps_backoff_max ps < 2 ^ 62"
    and "list_all (\<lambda>r. ro_duration r \<le> 30 * sec) rs"
    and "supervise_loop cfg ps err_text rs s = (Again, s')" "su_backoff s = backoff_at ps i"
    and "length (su_waits s') = length (su_waits s) + length rs"
  shows "su_waits s' = su_waits s @ map (\<lambda>(k, r). add_jitter (ro_draw r) (backoff_at ps k)) (enumerate i rs)"
  using assms(4-7)
proof (induction rs arbitrary: s i)
  case Nil
  then show ?case by simp
next
  case (Cons r rs)
  obtain v1 s1 where st: "supervise_round cfg ps err_text r s = (v1, s1)"
    by (cases "supervise_round cfg ps err_text r s")
  have v1: "v1 = Again" and lp: "supervise_loop cfg ps err_text rs s1 = (Again, s')"
    using Cons.prems(2) st by (cases v1; simp)+
  have len: "length (su_waits s1) = Suc (length (su_waits s))"
    using supervise_round_effect [OF st] loop_wait_count [OF lp] Cons.prems(4)
    by (cases rule: round_effect.cases) auto
  show ?case
    using supervise_round_effect [OF st]
  proof (cases rule: round_effect.cases)
    case (waited d f k n b)
    then have w: "ro_woken r" using v1 by (auto split: if_splits)
    have b: "b = backoff_at ps i" using waited Cons.prems(1,3) by simp
    have bo: "su_backoff s1 = backoff_at ps (Suc i)"
      using waited w b backoff_at_Suc [OF assms(1-3), of i] by simp
    have "su_waits s' = su_waits s1 @ map (\<lambda>(k, r). add_jitter (ro_draw r) (backoff_at ps k)) (enumerate (Suc i) rs)"
      using Cons.IH [OF _ lp bo] Cons.prems(1,4) len by simp
    then show ?thesis using waited b by simp
  qed (use len v1 in auto)
qed

text \<open>The backoff is exponential: as long as every attempt fails within thirty seconds, the
  \<open>i\<close>-th wait is the jittered minimum of \<^verbatim>\<open>backoff_initial * 2^i\<close> and \<^verbatim>\<open>backoff_max\<close>.\<close>

theorem backoff_schedule:
  assumes "0 \<le> ps_backoff_initial ps" "ps_backoff_initial ps \<le> ps_backoff_max ps" "ps_backoff_max ps < 2 ^ 62"
    and "list_all (\<lambda>r. ro_duration r \<le> 30 * sec) rs"
    and "supervise_single cfg ps err_text rs pf = (Again, s)" "length (su_waits s) = length rs"
  shows "su_waits s =
    map (\<lambda>(i, r). add_jitter (ro_draw r) (min (ps_backoff_initial ps * 2 ^ i) (ps_backoff_max ps))) (enumerate 0 rs)"
  using schedule_loop [OF assms(1) _ assms(3,4) assms(5) [unfolded supervise_single_def], of 0] assms
  by (simp add: backoff_at_def)

theorem backoff_schedule_witness:
  "\<exists>s. supervise_single zero_config (example_settings 0) (\<lambda>_. []) (replicate 3 failing_round)
          (new_forward zero_service []) = (Again, s)
     \<and> su_waits s = [add_jitter (1 / 2) 1000, add_jitter (1 / 2) 2000, add_jitter (1 / 2) 4000]"
proof -
  obtain s where s: "supervise_single zero_config (example_settings 0) (\<lambda>_. []) (replicate 3 failing_round)
      (new_forward zero_service []) = (Again, s)" "length (su_waits s) = 3"
    using failing_rounds_wait [of "example_settings 0" zero_config "\<lambda>_. []" 3]
    by (force simp: supervise_single_def)
  have "su_waits s = map (\<lambda>(i, r). add_jitter (ro_draw r) (min (1000 * 2 ^ i) 4000)) (enumerate 0 (replicate 3 failing_round))"
    using backoff_schedule [OF _ _ _ _ s(1)] s(2)
    by (simp add: sec_def list_all_iff)
  then show ?thesis using s(1) by (simp add: numeral_3_eq_3)
qed

subsection \<open>The restart limit\<close>

lemma limit_loop:
  assumes "supervise_loop cfg ps err_text rs s = (v, s')"
    and "tally s = (d, 0, 0, int d)" "0 < ps_max_restarts ps \<longrightarrow> int d < ps_max_restarts ps"
  shows "\<exists>d' k. tally s' = (d', if v = GaveUp then 1 else 0, k, int d') \<and> k \<le> 1 \<and> (k = 1 \<longrightarrow> v = Stopped)
    \<and> (v = GaveUp \<longleftrightarrow> 0 < ps_max_restarts ps \<and> int d' = ps_max_restarts ps)
    \<and> (0 < ps_max_restarts ps \<longrightarrow> int d' \<le> ps_max_restarts ps)"
  using assms
proof (induction rs arbitrary: s d)
  case Nil
  then show ?case by auto
next
  case (Cons r rs)
  obtain v1 s1 where st: "supervise_round cfg ps err_text r s = (v1, s1)"
    by (cases "supervise_round cfg ps err_text r s")
  have again: "supervise_loop cfg ps err_text rs s1 = (v, s')" if "v1 = Again"
    using Cons.prems(1) st that by simp
  have same: "v = v1 \<and> s' = s1" if "v1 \<noteq> Again" using Cons.prems(1) st that by (cases v1) auto
  show ?case
    using supervise_round_effect [OF st]
  proof (cases rule: round_effect.cases)
    case (stopped d0 f k n)
    then show ?thesis using same Cons.prems(2,3) by auto
  next
    case running
    then show ?thesis using same Cons.prems(2,3) by auto
  next
    case preempted
    then show ?thesis using Cons.IH [OF again, of d] Cons.prems(2,3) by simp
  next
    case (gave_up d0 f k n)
    then show ?thesis using same Cons.prems(2,3) by auto
  next
    case (waited d0 f k n b)
    then have t: "tally s1 = (Suc d, 0, 0, int (Suc d))"
      and l: "0 < ps_max_restarts ps \<longrightarrow> int (Suc d) < ps_max_restarts ps"
      using Cons.prems(2) by auto
    show ?thesis
    proof (cases "ro_woken r")
      case True
      then show ?thesis using Cons.IH [OF again t l] waited by simp
    next
      case False
      then show ?thesis using same waited t l by auto
    qed
  qed
qed

text \<open>C14: the restart limit is exact.  With a positive \<^verbatim>\<open>max_restarts\<close> the loop gives up when,
  and only when, that many attempts have failed, and then it reports the failure once; with zero
  or less it never gives up.  Each failed attempt is reported as a disconnect, once; pre-empted
  attempts are not counted.\<close>

theorem restart_limit_exact:
  assumes "supervise_single cfg ps err_text rs (new_forward svc namespace) = (v, s)"
  shows "(v = GaveUp \<longleftrightarrow> 0 < ps_max_restarts ps \<and> fw_restarts (su_forward s) = ps_max_restarts ps)
    \<and> (0 < ps_max_restarts ps \<longrightarrow> fw_restarts (su_forward s) \<le> ps_max_restarts ps)
    \<and> int (fired_count EventForwardDisconnected (su_fired s)) = fw_restarts (su_forward s)
    \<and> fired_count EventForwardFailed (su_fired s) = (if v = GaveUp then 1 else 0)
    \<and> (0 < fired_count EventForwardStopped (su_fired s) \<longrightarrow> v = Stopped)"
proof -
  have t0: "tally \<lparr>su_forward = new_forward svc namespace, su_backoff = ps_backoff_initial ps, su_waits = [],
      su_fired = []\<rparr> = (0, 0, 0, int 0)"
    by (simp add: tally_def new_forward_def)
  have l0: "0 < ps_max_restarts ps \<longrightarrow> int 0 < ps_max_restarts ps" by simp
  obtain d' k where t: "tally s = (d', if v = GaveUp then 1 else 0, k, int d')" "k \<le> 1" "k = 1 \<longrightarrow> v = Stopped"
    "v = GaveUp \<longleftrightarrow> 0 < ps_max_restarts ps \<and> int d' = ps_max_restarts ps"
    "0 < ps_max_restarts ps \<longrightarrow> int d' \<le> ps_max_restarts ps"
    using limit_loop [OF assms [unfolded supervise_single_def] t0 l0] by blast
  then have "fired_count EventForwardDisconnected (su_fired s) = d'"
    "fired_count EventForwardFailed (su_fired s) = (if v = GaveUp then 1 else 0)"
    "fired_count EventForwardStopped (su_fired s) = k" "fw_restarts (su_forward s) = int d'"
    by (simp_all add: tally_def)
  with t show ?thesis by auto
qed

lemma gives_up_after_two:
  "\<exists>s. supervise_single zero_config (example_settings 2) (\<lambda>_. []) [failing_round, failing_round]
     (new_forward zero_service []) = (GaveUp, s)"
proof -
  obtain e a where a: "run_attempt zero_config (example_settings 2) failing_round
      (begin_round (ro_now failing_round) (new_forward zero_service [])) = (Some e, a)" "e \<noteq> Preempted"
    using failing_run by blast
  define s1 where "s1 = snd (supervise_round zero_config (example_settings 2) (\<lambda>_. []) failing_round
    \<lparr>su_forward = new_forward zero_service [], su_backoff = 1000, su_waits = [], su_fired = []\<rparr>)"
  have r1: "fw_restarts (at_forward a) = 0"
    using ra.keeps_restarts [of zero_config "example_settings 2" failing_round
        "begin_round (ro_now failing_round) (new_forward zero_service [])"] a(1)
    by (simp add: new_forward_def)
  have one: "supervise_round zero_config (example_settings 2) (\<lambda>_. []) failing_round
      \<lparr>su_forward = new_forward zero_service [], su_backoff = 1000, su_waits = [], su_fired = []\<rparr> = (Again, s1)"
    and n1: "fw_restarts (su_forward s1) = 1"
    using a r1 by (simp_all add: s1_def supervise_round_def after_attempt_def Let_def wait_round_def record_failure_def)
  obtain e' a' where a': "run_attempt zero_config (example_settings 2) failing_round
      (begin_round (ro_now failing_round) (su_forward s1)) = (Some e', a')" "e' \<noteq> Preempted"
    using failing_run by blast
  have r2: "fw_restarts (at_forward a') = 1"
    using ra.keeps_restarts [of zero_config "example_settings 2" failing_round
        "begin_round (ro_now failing_round) (su_forward s1)"] a'(1) n1 by simp
  have "fst (supervise_round zero_config (example_settings 2) (\<lambda>_. []) failing_round s1) = GaveUp"
    using a' r2 by (simp add: supervise_round_def after_attempt_def Let_def record_failure_def)
  then obtain s2 where "supervise_round zero_config (example_settings 2) (\<lambda>_. []) failing_round s1 = (GaveUp, s2)"
    by (cases "supervise_round zero_config (example_settings 2) (\<lambda>_. []) failing_round s1") auto
  then show ?thesis using one by (simp add: supervise_single_def)
qed

theorem restart_limit_exact_witness:
  "\<exists>s. supervise_single zero_config (example_settings 2) (\<lambda>_. []) [failing_round, failing_round]
          (new_forward zero_service []) = (GaveUp, s)
     \<and> fw_restarts (su_forward s) = 2 \<and> fired_count EventForwardFailed (su_fired s) = 1"
proof -
  obtain s where s: "supervise_single zero_config (example_settings 2) (\<lambda>_. []) [failing_round, failing_round]
      (new_forward zero_service []) = (GaveUp, s)" using gives_up_after_two by blast
  from restart_limit_exact [OF s] show ?thesis using s by simp
qed

subsection \<open>The state that is left behind\<close>

lemma loop_keeps_service:
  "supervise_loop cfg ps err_text rs s = (v, s') \<Longrightarrow> fw_svc (su_forward s') = fw_svc (su_forward s)"
proof (induction rs arbitrary: s)
  case (Cons r rs)
  obtain v1 s1 where st: "supervise_round cfg ps err_text r s = (v1, s1)"
    by (cases "supervise_round cfg ps err_text r s")
  have "fw_svc (su_forward s1) = fw_svc (su_forward s)"
    using st ra.keeps_service [of cfg ps r "begin_round (ro_now r) (su_forward s)"]
    by (auto simp: supervise_round_def after_attempt_def wait_round_def give_up_def record_failure_def Let_def
        split: if_splits prod.splits option.splits)
  then show ?case using Cons st by (cases v1) auto
qed simp

lemma loop_leaves:
  "supervise_loop cfg ps err_text rs s = (v, s') \<Longrightarrow>
   (v = Stopped \<longrightarrow> fw_state (su_forward s') = StateStopped)
   \<and> (v \<in> {GaveUp, StoppedWaiting} \<longrightarrow> fw_state (su_forward s') = StateFailed)"
proof (induction rs arbitrary: s)
  case (Cons r rs)
  obtain v1 s1 where st: "supervise_round cfg ps err_text r s = (v1, s1)"
    by (cases "supervise_round cfg ps err_text r s")
  have "(v1 = Stopped \<longrightarrow> fw_state (su_forward s1) = StateStopped)
   \<and> (v1 \<in> {GaveUp, StoppedWaiting} \<longrightarrow> fw_state (su_forward s1) = StateFailed)"
    using supervise_round_effect [OF st] by (cases rule: round_effect.cases) (auto split: if_splits)
  then show ?case using Cons st by (cases v1) auto
qed simp

text \<open>The supervising goroutine never changes whose forward it drives, leaves it \<^verbatim>\<open>stopped\<close>
  when the manager's context ends during an attempt or between two, and \<^verbatim>\<open>failed\<close> when it gives
  up, but also when the context ends while it waits for the next attempt, without a
  \<^verbatim>\<open>forward:stopped\<close> event.\<close>

theorem supervision_end_state:
  assumes "supervise_single cfg ps err_text rs (new_forward svc namespace) = (v, s)"
  shows "fw_svc (su_forward s) = svc
    \<and> (v = Stopped \<longrightarrow> fw_state (su_forward s) = StateStopped)
    \<and> (v \<in> {GaveUp, StoppedWaiting} \<longrightarrow> fw_state (su_forward s) = StateFailed)
    \<and> (v = StoppedWaiting \<longrightarrow> fired_count EventForwardStopped (su_fired s) = 0)"
proof -
  have t0: "tally \<lparr>su_forward = new_forward svc namespace, su_backoff = ps_backoff_initial ps, su_waits = [],
      su_fired = []\<rparr> = (0, 0, 0, int 0)"
    by (simp add: tally_def new_forward_def)
  have l0: "0 < ps_max_restarts ps \<longrightarrow> int 0 < ps_max_restarts ps" by simp
  note l = assms [unfolded supervise_single_def]
  have "fw_svc (su_forward s) = svc" using loop_keeps_service [OF l] by (simp add: new_forward_def)
  moreover have "v = StoppedWaiting \<longrightarrow> fired_count EventForwardStopped (su_fired s) = 0"
    using limit_loop [OF l t0 l0] by (auto simp: tally_def)
  ultimately show ?thesis using loop_leaves [OF l] by blast
qed

theorem supervision_end_state_witness:
  "\<exists>s. supervise_single zero_config (example_settings 0) (\<lambda>_. [])
          [failing_round, failing_round\<lparr>ro_done := True\<rparr>] (new_forward zero_service []) = (Stopped, s)
     \<and> fw_state (su_forward s) = StateStopped"
proof -
  obtain s1 where "supervise_round zero_config (example_settings 0) (\<lambda>_. []) failing_round
      \<lparr>su_forward = new_forward zero_service [], su_backoff = 1000, su_waits = [], su_fired = []\<rparr> = (Again, s1)"
    using failing_round_waits [of "example_settings 0"] by force
  then obtain s where "supervise_single zero_config (example_settings 0) (\<lambda>_. [])
      [failing_round, failing_round\<lparr>ro_done := True\<rparr>] (new_forward zero_service []) = (Stopped, s)"
    by (simp add: supervise_single_def supervise_round_def)
  with supervision_end_state [OF this] show ?thesis by blast
qed

subsection \<open>Removal of a running service\<close>

definition connecting :: "tunnel_event list \<Rightarrow> round" where
  "connecting es =
     failing_round\<lparr>ro_mux := \<lparr>me_resolve = Inr (''pod'', 80), me_transport = None, me_forwarder = None,
       me_dialed = True, me_startup = TunnelReady None, me_events = es\<rparr>\<rparr>"

lemma connecting_simps [simp]:
  "\<not> ro_done (connecting es)" "\<not> ro_done_after (connecting es)" "ro_woken (connecting es)"
  by (simp_all add: connecting_def)

lemma reconnects:
  assumes "resolve_connection_mode (cfg_supervisor cfg) (fw_svc pf) \<noteq> ''isolated''" "\<not> svc_lazy (fw_svc pf)"
    and "ps_max_restarts ps \<le> 0"
  shows "\<exists>s. supervise_single cfg ps err_text [connecting [Cancelled], connecting []] pf = (Running, s)
    \<and> fw_state (su_forward s) = StateRunning \<and> fw_actual_port (su_forward s) = svc_local_port (fw_svc pf)"
proof -
  have m: "run_attempt cfg ps (connecting es) p = run_port_forward cfg ps (ro_mux (connecting es)) p"
    if "fw_svc p = fw_svc pf" for es p
    using assms that by (simp add: run_attempt_def)
  have run: "run_port_forward cfg ps (ro_mux (connecting es)) p =
      serve_tunnel ps ''pod'' (port_spec p 80) (svc_local_port (fw_svc p)) es
        (dialled (ro_mux (connecting es)) (load_chaos cfg (p\<lparr>fw_current_pod := ''pod''\<rparr>)))" for es p
    by (simp add: connecting_def run_port_forward_def startup_error_def ready_port_def dialled_def load_chaos_def Let_def)
  define s0 where "s0 = \<lparr>su_forward = pf, su_backoff = ps_backoff_initial ps, su_waits = [], su_fired = []\<rparr>"
  have "fst (supervise_round cfg ps err_text (connecting [Cancelled]) s0) = Again"
    using assms(3)
    by (simp add: supervise_round_def s0_def m run serve_tunnel_def Let_def after_attempt_def wait_round_def)
  then obtain s1 where s1: "supervise_round cfg ps err_text (connecting [Cancelled]) s0 = (Again, s1)"
    by (cases "supervise_round cfg ps err_text (connecting [Cancelled]) s0") auto
  then have "supervise_loop cfg ps err_text [connecting [Cancelled]] s0 = (Again, s1)" by simp
  from loop_keeps_service [OF this] have svc: "fw_svc (su_forward s1) = fw_svc pf" by (simp add: s0_def)
  obtain s2 where "supervise_round cfg ps err_text (connecting []) s1 = (Running, s2)"
    "fw_state (su_forward s2) = StateRunning" "fw_actual_port (su_forward s2) = svc_local_port (fw_svc pf)"
    by (simp add: supervise_round_def m svc run serve_tunnel_def Let_def)
  then show ?thesis using s1 by (simp add: supervise_single_def s0_def)
qed

text \<open>C2: removal does not end the supervision of a service.  \<^verbatim>\<open>RemoveService\<close> reports success and
  the name is gone, but its goroutine only sees a cancelled attempt: after one wait it connects
  again and listens on the same local port, with no name left to remove it by.\<close>

theorem removed_service_reconnects:
  assumes "reachable cfg0 m" "mg_started m" "\<not> mg_stopped m"
    and "gget (mg_forwards m) name = Some i" "gget (mg_children m) name = None" "Supervising i \<in> set (mg_tasks m)"
    and "resolve_connection_mode (cfg_supervisor (mg_cfg m)) (fw_svc (mg_heap m i)) \<noteq> ''isolated''"
    and "\<not> svc_lazy (fw_svc (mg_heap m i))" "ps_max_restarts ps \<le> 0"
  shows "fst (remove_service_mgr name m) = None
    \<and> gget (mg_forwards (snd (remove_service_mgr name m))) name = None
    \<and> name \<notin> set (mg_order (snd (remove_service_mgr name m)))
    \<and> Supervising i \<in> set (mg_tasks (snd (remove_service_mgr name m)))
    \<and> (\<exists>s. supervise_single (mg_cfg m) ps err_text [connecting [Cancelled], connecting []]
               (mg_heap (snd (remove_service_mgr name m)) i) = (Running, s)
         \<and> fw_state (su_forward s) = StateRunning
         \<and> fw_actual_port (su_forward s) = svc_local_port (fw_svc (mg_heap m i)))"
proof -
  let ?m' = "snd (remove_service_mgr name m)"
  have w: "manager_wf m" using assms(1) by (rule reachable_wf)
  then have w': "manager_wf ?m'" by (rule wf.inv_remove_service)
  have r: "remove_service_mgr name m = remove_single name m"
    using assms(2,3,5) by (simp add: remove_service_mgr_def do_remove_def)
  have h: "mg_heap ?m' i = (mg_heap m i)\<lparr>fw_state := StateStopped\<rparr>" "mg_tasks ?m' = mg_tasks m"
    "fst (remove_service_mgr name m) = None" "mg_forwards ?m' = gdel name (mg_forwards m)"
    using assms(4) by (simp_all add: r remove_single_def Let_def unregister_def fire_event_def)
  have g: "gget (mg_forwards ?m') name = None" by (simp add: h)
  then have "name \<notin> set (mg_order ?m')" using order_forward [OF w', of name] by auto
  moreover have "\<exists>s. supervise_single (mg_cfg m) ps err_text [connecting [Cancelled], connecting []] (mg_heap ?m' i) = (Running, s)
      \<and> fw_state (su_forward s) = StateRunning
      \<and> fw_actual_port (su_forward s) = svc_local_port (fw_svc (mg_heap ?m' i))"
    using assms(7-9) by (intro reconnects) (simp_all add: h)
  ultimately show ?thesis using h g assms(6) by simp
qed

theorem removed_service_reconnects_witness:
  "\<exists>s. supervise_single (zero_config\<lparr>cfg_services := [zero_service\<lparr>svc_name := ''a'', svc_local_port := 8080\<rparr>]\<rparr>)
       (example_settings 0) (\<lambda>_. []) [connecting [Cancelled], connecting []]
       (mg_heap (snd (remove_service_mgr ''a''
          (start (new_manager (zero_config\<lparr>cfg_services := [zero_service\<lparr>svc_name := ''a'', svc_local_port := 8080\<rparr>]\<rparr>))))) 0)
         = (Running, s)
     \<and> fw_actual_port (su_forward s) = 8080"
proof -
  let ?cfg = "zero_config\<lparr>cfg_services := [zero_service\<lparr>svc_name := ''a'', svc_local_port := 8080\<rparr>]\<rparr>"
  let ?m = "start (new_manager ?cfg)"
  have "mgr_step (new_manager ?cfg) ?m"
    by (rule mgr_step.started) (simp add: new_manager_def zero_config_def)
  then have rc: "reachable ?cfg ?m" by (rule reachable.step [OF reachable.init])
  have f: "mg_started ?m" "\<not> mg_stopped ?m" "gget (mg_forwards ?m) ''a'' = Some 0" "gget (mg_children ?m) ''a'' = None"
      "Supervising 0 \<in> set (mg_tasks ?m)" "mg_cfg ?m = ?cfg"
      "fw_svc (mg_heap ?m 0) = zero_service\<lparr>svc_name := ''a'', svc_local_port := 8080\<rparr>"
    by (simp_all add: start_def start_service_def new_manager_def reserve_forward_def port_holder_def
        is_multi_port_def register_forward_def spawn_def task_of_def new_forward_def zero_service_def
        zero_ports_def zero_config_def)
  have c: "resolve_connection_mode (cfg_supervisor (mg_cfg ?m)) (fw_svc (mg_heap ?m 0)) \<noteq> ''isolated''"
      "\<not> svc_lazy (fw_svc (mg_heap ?m 0))" "svc_local_port (fw_svc (mg_heap ?m 0)) = 8080"
    by (simp_all only: f(6,7))
      (simp_all add: resolve_connection_mode_def zero_service_def zero_config_def zero_supervisor_def)
  from removed_service_reconnects [OF rc f(1-5) c(1,2), of "example_settings 0" "\<lambda>_. []"] f(6) c(3)
  show ?thesis by auto
qed

end
