(* ===== verification/RunnerFacts.thy ===== *)
theory RunnerFacts
  imports LoopFacts
begin

text \<open>
  What the runners guarantee: the health check and the stream-error check of the mux runner, the
  tunnels of the lazy runner, the pod of the isolated runner, pre-emption and the pod watcher.
\<close>

subsection \<open>Health checks\<close>

fun ticks :: "tunnel_event list \<Rightarrow> bool list" where
  "ticks [] = []"
| "ticks (Tick b # es) = b # ticks es"
| "ticks (e # es) = ticks es"

fun quiet :: "tunnel_event \<Rightarrow> bool" where
  "quiet (Tick b) = True"
| "quiet (Received r) = True"
| "quiet (Sent r) = True"
| "quiet (PodSeen evt resolution) = True"
| "quiet e = False"

fun unhealthy :: "int \<Rightarrow> int \<Rightarrow> bool list \<Rightarrow> bool" where
  "unhealthy k c [] = False"
| "unhealthy k c (True # bs) = unhealthy k 0 bs"
| "unhealthy k c (False # bs) = (k \<le> c + 1 \<or> unhealthy k (c + 1) bs)"

lemma prefix_False:
  "(\<exists>ys. False # bs = replicate (Suc n) False @ ys) \<longleftrightarrow> (\<exists>ys. bs = replicate n False @ ys)"
  by auto

lemma unhealthy_iff:
  assumes "0 \<le> c" "c < k"
  shows "unhealthy k c bs \<longleftrightarrow>
    (\<exists>ys. bs = replicate (nat (k - c)) False @ ys) \<or> (\<exists>xs ys. bs = xs @ replicate (nat k) False @ ys)"
  using assms
proof (induction bs arbitrary: c)
  case Nil
  then show ?case by auto
next
  case (Cons b bs)
  obtain n where n: "nat k = Suc n" using Cons.prems by (cases "nat k") auto
  obtain j where j: "nat (k - c) = Suc j" using Cons.prems by (cases "nat (k - c)") auto
  have jn: "j \<le> n" using n j Cons.prems by linarith
  have split: "(\<exists>xs ys. b # bs = xs @ replicate (Suc n) False @ ys) \<longleftrightarrow>
      (\<exists>ys. b # bs = replicate (Suc n) False @ ys) \<or> (\<exists>xs ys. bs = xs @ replicate (Suc n) False @ ys)"
    by (metis append_Cons append_Nil list.exhaust list.inject)
  show ?case
  proof (cases b)
    case True
    have "unhealthy k 0 bs \<longleftrightarrow> (\<exists>xs ys. bs = xs @ replicate (Suc n) False @ ys)"
      using Cons.IH [of 0] Cons.prems n by (auto intro: exI [where x = "[]"])
    then show ?thesis using True split n j by simp
  next
    case False
    have long: "(\<exists>ys. bs = replicate n False @ ys) \<Longrightarrow> \<exists>ys. bs = replicate j False @ ys"
    proof -
      assume "\<exists>ys. bs = replicate n False @ ys"
      then obtain ys where "bs = replicate n False @ ys" by blast
      moreover have "replicate n False = replicate j False @ replicate (n - j) False"
        using jn by (simp add: replicate_add [symmetric])
      ultimately show "\<exists>ys. bs = replicate j False @ ys" by simp
    qed
    have rhs: "((\<exists>ys. b # bs = replicate (nat (k - c)) False @ ys) \<or> (\<exists>xs ys. b # bs = xs @ replicate (nat k) False @ ys))
        \<longleftrightarrow> (\<exists>ys. bs = replicate j False @ ys) \<or> (\<exists>xs ys. bs = xs @ replicate (Suc n) False @ ys)"
      using False split long unfolding n j by (auto simp only: prefix_False)
    show ?thesis
    proof (cases "k \<le> c + 1")
      case True
      then have "j = 0" using j by linarith
      then show ?thesis using rhs True \<open>\<not> b\<close> by simp
    next
      case False
      have "nat (k - (c + 1)) = j" using j by linarith
      then have "unhealthy k (c + 1) bs \<longleftrightarrow>
          (\<exists>ys. bs = replicate j False @ ys) \<or> (\<exists>xs ys. bs = xs @ replicate (Suc n) False @ ys)"
        using Cons.IH [of "c + 1"] Cons.prems False n by simp
      then show ?thesis using rhs False \<open>\<not> b\<close> by simp
    qed
  qed
qed

lemma stream_errors_io [simp]:
  "stream_errors (count_read r c) = stream_errors c" "stream_errors (count_write r c) = stream_errors c"
  by (simp_all add: count_read_def count_write_def)

lemma handle_pod_counter: "handle_pod_event resolution evt pf = (fired, p) \<Longrightarrow> fw_counter p = fw_counter pf"
  by (auto simp: handle_pod_event_def split: if_splits sum.splits prod.splits option.splits)

lemma quiet_loop:
  assumes "list_all quiet es" "mx_fail s < ps_health_check_threshold ps" "0 \<le> mx_fail s"
    and "stream_errors (fw_counter (mx_forward s)) \<le> mx_last s"
  shows "fst (mux_loop ps pod es s) =
    (if unhealthy (ps_health_check_threshold ps) (mx_fail s) (ticks es)
     then Some (Unhealthy (ps_health_check_threshold ps)) else None)"
  using assms
proof (induction es arbitrary: s)
  case Nil
  then show ?case by simp
next
  case (Cons e es)
  show ?case
  proof (cases e)
    case (Tick b)
    show ?thesis
    proof (cases b)
      case True
      have "fst (mux_loop ps pod es (s\<lparr>mx_fail := 0\<rparr>)) =
          (if unhealthy (ps_health_check_threshold ps) 0 (ticks es)
           then Some (Unhealthy (ps_health_check_threshold ps)) else None)"
        using Cons.IH [of "s\<lparr>mx_fail := 0\<rparr>"] Cons.prems by simp
      then show ?thesis using Tick True Cons.prems by (simp add: health_check_def Let_def)
    next
      case False
      obtain s1 where hc: "health_check ps pod b s =
          (if ps_health_check_threshold ps \<le> mx_fail s + 1 then Some (Unhealthy (mx_fail s + 1)) else None, s1)"
        and s1: "mx_fail s1 = mx_fail s + 1" "mx_forward s1 = mx_forward s" "mx_last s1 = mx_last s"
        using False Cons.prems by (simp add: health_check_def Let_def)
      show ?thesis
      proof (cases "ps_health_check_threshold ps \<le> mx_fail s + 1")
        case True
        then have "mx_fail s + 1 = ps_health_check_threshold ps" using Cons.prems by simp
        with hc Tick False show ?thesis by simp
      next
        case th: False
        with hc Tick False Cons.IH [of s1] Cons.prems s1 show ?thesis by simp
      qed
    qed
  next
    case (Received r)
    then show ?thesis using Cons by (simp add: count_io_def put_forward_def)
  next
    case (Sent r)
    then show ?thesis using Cons by (simp add: count_io_def put_forward_def)
  next
    case (PodSeen evt resolution)
    obtain fired p where h: "handle_pod_event resolution evt (mx_forward s) = (fired, p)"
      by (cases "handle_pod_event resolution evt (mx_forward s)")
    then show ?thesis
      using PodSeen Cons.prems Cons.IH [of "(put_forward p s)\<lparr>mx_fired := mx_fired s @ fired\<rparr>"]
        handle_pod_counter [OF h]
      by (simp add: put_forward_def)
  qed (use Cons.prems in simp_all)
qed

text \<open>C26: a tunnel with traffic and no stream errors is taken for dead exactly when
  \<^verbatim>\<open>health_check_threshold\<close> checks in a row find the local port closed; one open check starts
  the count again.\<close>

theorem health_threshold_exact:
  assumes "list_all quiet es" "0 < ps_health_check_threshold ps" "mx_fail s = 0"
    and "stream_errors (fw_counter (mx_forward s)) \<le> mx_last s"
  shows "fst (mux_loop ps pod es s) =
    (if \<exists>xs ys. ticks es = xs @ replicate (nat (ps_health_check_threshold ps)) False @ ys
     then Some (Unhealthy (ps_health_check_threshold ps)) else None)"
proof -
  have "unhealthy (ps_health_check_threshold ps) 0 (ticks es) \<longleftrightarrow>
      (\<exists>xs ys. ticks es = xs @ replicate (nat (ps_health_check_threshold ps)) False @ ys)"
    using unhealthy_iff [of 0 "ps_health_check_threshold ps" "ticks es"] assms(2)
    by (auto intro: exI [where x = "[]"])
  then show ?thesis using quiet_loop [of es s ps pod] assms by simp
qed

definition fresh_mux :: mux where
  "fresh_mux = \<lparr>mx_forward = new_forward zero_service [], mx_fail = 0, mx_last = 0, mx_fired = [], mx_evicted = False\<rparr>"

theorem health_threshold_exact_witness:
  "fst (mux_loop (example_settings 0) [] [Tick False, Tick True, Tick False, Sent (5, None), Tick False] fresh_mux) = None
   \<and> fst (mux_loop (example_settings 0) [] [Tick False, Tick False, Received (5, None), Tick False] fresh_mux)
       = Some (Unhealthy 3)"
proof -
  have f: "mx_fail fresh_mux = 0" "stream_errors (fw_counter (mx_forward fresh_mux)) \<le> mx_last fresh_mux"
    by (simp_all add: fresh_mux_def new_forward_def zero_counter_def)
  have no: "\<not> (\<exists>xs ys. [False, True, False, False] = xs @ [False, False, False] @ ys)"
  proof
    assume "\<exists>xs ys. [False, True, False, False] = xs @ [False, False, False] @ ys"
    then obtain xs ys where e: "[False, True, False, False] = xs @ [False, False, False] @ ys" by blast
    then have "length xs + length ys = 1" by (metis (no_types) add.assoc add_Suc_right add_right_cancel length_Cons length_append list.size(3) One_nat_def add.commute add_0 nat.inject)
    then show False using e by (cases xs; cases "tl xs"; auto)
  qed
  have yes: "\<exists>xs ys. [False, False, False] = xs @ [False, False, False] @ ys"
    by (intro exI [where x = "[]"]) simp
  have th: "nat (ps_health_check_threshold (example_settings 0)) = 3" by simp
  show ?thesis
    using health_threshold_exact [OF _ _ f, of "[Tick False, Tick True, Tick False, Sent (5, None), Tick False]"
        "example_settings 0" "[]"]
      health_threshold_exact [OF _ _ f, of "[Tick False, Tick False, Received (5, None), Tick False]"
        "example_settings 0" "[]"] no yes
    by (simp add: numeral_3_eq_3)
qed

subsection \<open>Stream errors\<close>

fun stream_failures :: "tunnel_event list \<Rightarrow> nat" where
  "stream_failures [] = 0"
| "stream_failures (StreamFailure # es) = Suc (stream_failures es)"
| "stream_failures (e # es) = stream_failures es"

fun between_ticks :: "tunnel_event \<Rightarrow> bool" where
  "between_ticks (Received r) = True"
| "between_ticks (Sent r) = True"
| "between_ticks (PodSeen evt resolution) = True"
| "between_ticks StreamFailure = True"
| "between_ticks e = False"

lemma traffic_loop:
  assumes "list_all between_ticks es"
    and "0 \<le> stream_errors (fw_counter (mx_forward s))"
    and "stream_errors (fw_counter (mx_forward s)) + int (stream_failures es) < 2 ^ 63"
  shows "\<exists>s'. mux_loop ps pod es s = (None, s') \<and> mx_last s' = mx_last s
    \<and> stream_errors (fw_counter (mx_forward s')) = stream_errors (fw_counter (mx_forward s)) + int (stream_failures es)"
  using assms
proof (induction es arbitrary: s)
  case Nil
  then show ?case by simp
next
  case (Cons e es)
  show ?case
  proof (cases e)
    case StreamFailure
    let ?s1 = "count_io count_stream_error s"
    have "wrap64 (stream_errors (fw_counter (mx_forward s)) + 1) = stream_errors (fw_counter (mx_forward s)) + 1"
      using Cons.prems(2,3) StreamFailure by (intro wrap64_id) auto
    then have e1: "stream_errors (fw_counter (mx_forward ?s1)) = stream_errors (fw_counter (mx_forward s)) + 1"
      and l1: "mx_last ?s1 = mx_last s"
      by (simp_all add: count_io_def put_forward_def count_stream_error_def)
    then show ?thesis using StreamFailure Cons.IH [of ?s1] Cons.prems by (simp add: algebra_simps)
  next
    case (PodSeen evt resolution)
    obtain fired p where h: "handle_pod_event resolution evt (mx_forward s) = (fired, p)"
      by (cases "handle_pod_event resolution evt (mx_forward s)")
    then show ?thesis
      using PodSeen Cons.prems Cons.IH [of "(put_forward p s)\<lparr>mx_fired := mx_fired s @ fired\<rparr>"]
        handle_pod_counter [OF h]
      by (simp add: put_forward_def)
  next
    case (Received r)
    then show ?thesis using Cons.IH [of "count_io (count_read r) s"] Cons.prems
      by (simp add: count_io_def put_forward_def)
  next
    case (Sent r)
    then show ?thesis using Cons.IH [of "count_io (count_write r) s"] Cons.prems
      by (simp add: count_io_def put_forward_def)
  qed (use Cons.prems in simp_all)
qed

text \<open>One failed stream is enough: if any stream could not be created since the tunnel was
  ready, the next health check ends the attempt, whatever the local port says, and drops the
  cached transport so that the next attempt dials a new one.\<close>

theorem stream_errors_force_redial:
  assumes "list_all between_ticks es" "0 < stream_failures es" "int (stream_failures es) < 2 ^ 62"
    and "mx_last s = stream_errors (fw_counter (mx_forward s))" "0 \<le> mx_last s" "mx_last s < 2 ^ 62"
  shows "\<exists>s'. mux_loop ps pod (es @ Tick is_open # fs) s = (Some (Degraded (mx_last s + int (stream_failures es))), s')
    \<and> mx_evicted s'"
proof -
  obtain s1 where s1: "mux_loop ps pod es s = (None, s1)" "mx_last s1 = mx_last s"
    "stream_errors (fw_counter (mx_forward s1)) = mx_last s + int (stream_failures es)"
    using traffic_loop [OF assms(1), of s ps pod] assms(3-6) by auto
  then have "mux_loop ps pod (Tick is_open # fs) s1 =
      (Some (Degraded (mx_last s + int (stream_failures es))), s1\<lparr>mx_evicted := True\<rparr>)"
    using assms(2) by (simp add: health_check_def Let_def)
  then show ?thesis using s1(1) by (simp add: mx.loop_append)
qed

theorem stream_errors_force_redial_witness:
  "\<exists>s'. mux_loop (example_settings 0) [] ([StreamFailure, Sent (3, None)] @ Tick True # []) fresh_mux
     = (Some (Degraded 1), s') \<and> mx_evicted s'"
  using stream_errors_force_redial [of "[StreamFailure, Sent (3, None)]" fresh_mux "example_settings 0" "[]" True "[]"]
  by (simp add: fresh_mux_def new_forward_def zero_counter_def)

subsection \<open>Pre-emption\<close>

text \<open>Pre-emption is asked for only when the pod that is being forwarded to terminates and a
  different pod can take over; a pending request is never replaced.\<close>

theorem preemption_justified:
  "fw_preempt (snd (handle_pod_event resolution evt pf)) =
     (if fw_preempt pf \<noteq> None then fw_preempt pf
      else if pe_pod evt = fw_current_pod pf
      then (case resolution of Inl _ \<Rightarrow> None | Inr (p, _) \<Rightarrow> if p = fw_current_pod pf then None else Some p)
      else None)"
  by (cases "pe_type evt") (auto simp: handle_pod_event_def split: sum.splits option.splits)

text \<open>A request outlives the attempt it was made for.  When the tunnel to the terminating pod
  breaks first, the next attempt, which already forwards to the replacement, reads the request
  and is torn down once more.\<close>

theorem preemption_outlives_attempt:
  "\<exists>a. run_port_forward cfg ps
         \<lparr>me_resolve = Inr (''old'', 80), me_transport = None, me_forwarder = None, me_dialed = True,
          me_startup = TunnelReady None,
          me_events = [PodSeen \<lparr>pe_pod = ''old'', pe_namespace = [], pe_type = PodTerminating\<rparr> (Inr (''new'', 80)),
                       Ended None]\<rparr>
         (new_forward svc namespace) = (Some ForwardClosed, a)
     \<and> fst (run_port_forward cfg ps
         \<lparr>me_resolve = Inr (''new'', 80), me_transport = None, me_forwarder = None, me_dialed = True,
          me_startup = TunnelReady None, me_events = [TakePreempt]\<rparr>
         (at_forward a)) = Some Preempted"
  by (simp add: run_port_forward_def Let_def startup_error_def ready_port_def serve_tunnel_def dialled_def
      load_chaos_def handle_pod_event_def put_forward_def new_forward_def)

subsection \<open>The isolated runner\<close>

fun pod_fixed :: "iso_event \<Rightarrow> bool" where
  "pod_fixed (IsoTick b) = True"
| "pod_fixed (IsoPod evt resolution) = True"
| "pod_fixed (IsoClient resolution d) = True"
| "pod_fixed (IsoTraffic f) = True"
| "pod_fixed e = False"

lemma handle_pod_pod:
  "handle_pod_event resolution evt pf = (fired, p) \<Longrightarrow>
   fw_current_pod p = fw_current_pod pf \<and> fw_target_port p = fw_target_port pf"
  by (auto simp: handle_pod_event_def split: if_splits sum.splits prod.splits option.splits)

lemma load_chaos_pod [simp]:
  "fw_current_pod (load_chaos cfg pf) = fw_current_pod pf" "fw_target_port (load_chaos cfg pf) = fw_target_port pf"
  by (simp_all add: load_chaos_def)

lemma iso_pinned_step:
  assumes "iso_step cfg ps e s = (r, s')" "pod_fixed e" "fw_current_pod (is_forward s) = pod" "pod \<noteq> []"
    and "fw_target_port (is_forward s) = port"
  shows "fw_current_pod (is_forward s') = pod \<and> fw_target_port (is_forward s') = port
    \<and> (\<exists>cs. is_clients s' = is_clients s @ cs
          \<and> list_all (\<lambda>c. c = Tunnelled pod port \<or> (\<exists>t. c = Dropped t \<and> (\<forall>x. t \<noteq> RunResolve x))) cs)"
  using assms
  by (cases e)
    (auto simp: iso_health_def Let_def iso_client_def pick_pod_def dest: handle_pod_pod
      split: if_splits prod.splits dial_outcome.splits)

text \<open>The isolated runner sends every client to the pod it resolved, and a client it cannot
  connect changes nothing: only the maximal age or a pre-emption makes it look for another pod.
  With no maximal age, a pod that is gone without a termination event is dialled for ever.\<close>

theorem isolated_pod_is_pinned:
  assumes "list_all pod_fixed es" "fw_current_pod (is_forward s) = pod" "pod \<noteq> []"
    and "fw_target_port (is_forward s) = port"
    and "iso_loop cfg ps es s = (r, s')"
  shows "fw_current_pod (is_forward s') = pod \<and> fw_target_port (is_forward s') = port
    \<and> (\<exists>cs. is_clients s' = is_clients s @ cs
          \<and> list_all (\<lambda>c. c = Tunnelled pod port \<or> (\<exists>t. c = Dropped t \<and> (\<forall>x. t \<noteq> RunResolve x))) cs)"
  using assms
proof (induction es arbitrary: s)
  case Nil
  then show ?case by simp
next
  case (Cons e es)
  obtain r1 s1 where st: "iso_step cfg ps e s = (r1, s1)" by (cases "iso_step cfg ps e s")
  have "pod_fixed e" using Cons.prems(1) by simp
  from iso_pinned_step [OF st this Cons.prems(2-4)] obtain cs where
    s1: "fw_current_pod (is_forward s1) = pod" "fw_target_port (is_forward s1) = port"
    "is_clients s1 = is_clients s @ cs"
    "list_all (\<lambda>c. c = Tunnelled pod port \<or> (\<exists>t. c = Dropped t \<and> (\<forall>x. t \<noteq> RunResolve x))) cs" by blast
  show ?case
  proof (cases r1)
    case None
    then have "iso_loop cfg ps es s1 = (r, s')" using Cons.prems(5) st by simp
    with Cons.IH [of s1] Cons.prems(1,3) s1 show ?thesis by fastforce
  next
    case (Some x)
    then show ?thesis using Cons.prems(5) st s1 by auto
  qed
qed

theorem isolated_pod_is_pinned_witness:
  "fw_current_pod (is_forward (snd (iso_loop zero_config (example_settings 0)
        [IsoClient (Inr (''b'', 2)) (Refused []), IsoTick True, IsoClient (Inr (''b'', 2)) (Refused [])]
        (iso_listening ''a'' 9000 ((new_forward zero_service [])\<lparr>fw_current_pod := ''a'', fw_target_port := 1\<rparr>)))))
      = ''a''"
proof -
  let ?es = "[IsoClient (Inr (''b'', 2)) (Refused []), IsoTick True, IsoClient (Inr (''b'', 2)) (Refused [])]"
  let ?s = "iso_listening ''a'' 9000 ((new_forward zero_service [])\<lparr>fw_current_pod := ''a'', fw_target_port := 1\<rparr>)"
  have f: "list_all pod_fixed ?es" "fw_current_pod (is_forward ?s) = ''a''" "''a'' \<noteq> []"
    "fw_target_port (is_forward ?s) = 1" by (simp_all add: iso_listening_def Let_def)
  show ?thesis
    using isolated_pod_is_pinned [OF f, of zero_config "example_settings 0"]
    by (cases "iso_loop zero_config (example_settings 0) ?es ?s") (metis snd_conv)
qed

subsection \<open>The lazy runner\<close>

fun losses :: "lazy_event list \<Rightarrow> nat" where
  "losses [] = 0"
| "losses (TunnelLost # es) = Suc (losses es)"
| "losses (e # es) = losses es"

definition connects :: "lazy_state \<Rightarrow> nat" where
  "connects s = fired_count EventForwardConnected (lz_fired s)"

definition lazy_ok :: "lazy_state \<Rightarrow> bool" where
  "lazy_ok s \<longleftrightarrow>
     map fst (lz_served s) = [1..int (length (lz_served s))]
     \<and> (fw_tunnel_open (lz_forward s) \<longleftrightarrow> lz_tunnel s \<noteq> NoTunnel)
     \<and> fw_state (lz_forward s) = (if lz_tunnel s = NoTunnel then StateWaiting else StateRunning)"

lemma fired_connected [simp]:
  "fired_count t [connected_event pod pf] = (if t = EventForwardConnected then 1 else 0)"
  by (simp add: connected_event_def forward_event_def service_event_def)

lemma handle_pod_lazy:
  "handle_pod_event resolution evt pf = (fired, p) \<Longrightarrow>
   fw_tunnel_open p = fw_tunnel_open pf \<and> fw_state p = fw_state pf \<and> fired_count EventForwardConnected fired = 0"
  by (auto simp: handle_pod_event_def forward_event_def service_event_def
      split: if_splits sum.splits prod.splits option.splits)

lemma serve_ids:
  "map fst xs = [1..int (length xs)] \<Longrightarrow> map fst (xs @ [(int (length xs) + 1, p)]) = [1..int (length (xs @ [(int (length xs) + 1, p)]))]"
  by (simp add: upto_rec2)

definition potential :: "lazy_state \<Rightarrow> nat" where
  "potential s = connects s + (case lz_tunnel s of OpenTunnel _ \<Rightarrow> 0 | _ \<Rightarrow> 1)"

lemma load_chaos_state [simp]:
  "fw_state (load_chaos cfg pf) = fw_state pf" "fw_tunnel_open (load_chaos cfg pf) = fw_tunnel_open pf"
  by (simp_all add: load_chaos_def)

lemma lazy_step_inv:
  assumes "lazy_step cfg e s = (r, s')" "lazy_ok s"
  shows "lazy_ok s'" "potential s' \<le> potential s + losses [e]"
  using assms serve_ids [of "lz_served s"]
  by (cases e; cases "lz_tunnel s";
      auto simp: lazy_ok_def potential_def connects_def open_tunnel_def serve_client_def lazy_dial_def Let_def
      dest: handle_pod_lazy split: dial_result.splits prod.splits)+

lemma losses_Cons: "losses (e # es) = losses [e] + losses es"
  by (cases e) simp_all

text \<open>The lazy runner opens a tunnel only for a client.  Over any run the clients are numbered
  in order, the reported state says whether a tunnel has been opened, and it dials successfully
  at most once plus once for every tunnel that was lost: all other clients share the open tunnel.\<close>

theorem lazy_dials_on_demand:
  assumes "lazy_loop cfg es (lazy_listening port pf) = (r, s)"
  shows "lazy_ok s \<and> connects s \<le> 1 + losses es \<and> (es = [] \<longrightarrow> fw_state (lz_forward s) = StateWaiting)"
proof -
  have gen: "lazy_ok s' \<and> potential s' \<le> potential s0 + losses es'"
    if "lazy_loop cfg es' s0 = (r', s')" "lazy_ok s0" for es' s0 r' s'
    using that
  proof (induction es' arbitrary: s0)
    case Nil
    then show ?case by simp
  next
    case (Cons e es')
    obtain r1 s1 where st: "lazy_step cfg e s0 = (r1, s1)" by (cases "lazy_step cfg e s0")
    note inv = lazy_step_inv [OF st Cons.prems(2)]
    show ?case
    proof (cases r1)
      case None
      then have "lazy_loop cfg es' s1 = (r', s')" using Cons.prems(1) st by simp
      then show ?thesis using Cons.IH [of s1] inv losses_Cons [of e es'] by simp
    next
      case (Some x)
      then show ?thesis using Cons.prems(1) st inv losses_Cons [of e es'] by simp
    qed
  qed
  have "lazy_ok (lazy_listening port pf)" "potential (lazy_listening port pf) = 1"
    by (simp_all add: lazy_ok_def lazy_listening_def potential_def connects_def)
  with gen [OF assms] have "lazy_ok s" "connects s \<le> 1 + losses es"
    by (simp_all add: potential_def)
  then show ?thesis using assms by (auto simp: lazy_listening_def)
qed

theorem lazy_dials_on_demand_witness:
  "connects (snd (lazy_loop zero_config [Client (Dialled ''p'' 80), Client (DialNoPod NoClient), TunnelLost,
       Client (Dialled ''q'' 80)] (lazy_listening 9000 (new_forward zero_service [])))) \<le> 2"
  using lazy_dials_on_demand [of zero_config "[Client (Dialled ''p'' 80), Client (DialNoPod NoClient), TunnelLost,
       Client (Dialled ''q'' 80)]" 9000 "new_forward zero_service []"]
  by (cases "lazy_loop zero_config [Client (Dialled ''p'' 80), Client (DialNoPod NoClient), TunnelLost,
       Client (Dialled ''q'' 80)] (lazy_listening 9000 (new_forward zero_service []))") simp

subsection \<open>The pod watcher\<close>

definition last_version :: "watch_event list \<Rightarrow> string" where
  "last_version es = foldl (\<lambda>v e. case e of PodEvent _ p \<Rightarrow> wp_version p | _ \<Rightarrow> v) [] es"

lemma drain_version: "ws_version (drain es w) = last_version es"
proof -
  have "ws_version (foldl (\<lambda>w e. drain_one e w) w0 es) =
      foldl (\<lambda>v e. case e of PodEvent _ p \<Rightarrow> wp_version p | _ \<Rightarrow> v) (ws_version w0) es" for w0
    by (induction es arbitrary: w0) (auto simp: drain_one_def Let_def split: watch_event.splits)
  then show ?thesis by (simp add: drain_def last_version_def)
qed

lemma drain_channel: "length (ws_channel (drain es w)) \<le> max 8 (length (ws_channel w))"
proof -
  have "length (ws_channel (foldl (\<lambda>w e. drain_one e w) w0 es)) \<le> max 8 (length (ws_channel w0))" for w0
  proof (induction es arbitrary: w0)
    case (Cons e es)
    have "length (ws_channel (drain_one e w0)) \<le> max 8 (length (ws_channel w0))"
      by (auto simp: drain_one_def Let_def split: watch_event.splits)
    with Cons [of "drain_one e w0"] show ?case by simp
  qed simp
  from this [of "w\<lparr>ws_version := []\<rparr>"] show ?thesis by (simp add: drain_def)
qed

text \<open>A watch is resumed from the version of the last pod the watch before it delivered, and
  from no version after one that delivered none, however many came before; the queue of the
  consumer never holds more than eight events.\<close>

theorem watch_resumption:
  "(\<exists>rest. fst (watcher_run (Some es # None # Some [] # x # ws) w) =
       ws_version w # last_version es # last_version es # [] # rest)
   \<and> length (ws_channel (drain es w)) \<le> max 8 (length (ws_channel w))"
  using drain_channel [of es w]
  by (cases x) (auto simp: drain_version last_version_def split: prod.splits)

end
