(* ===== verification/Registry.thy ===== *)
theory Registry
  imports Paths
begin

text \<open>
  The record of running instances (\<^verbatim>\<open>internal/registry/registry.go\<close>).  The file
  \<^verbatim>\<open>instances.json\<close> is what it decodes to, so that JSON text does not matter; every step of
  \<^verbatim>\<open>withLock\<close> that can fail is an input.  The lock makes the operations of all processes one
  sequence, and each is a function on the file.  The registry is shown to be a finite map from
  process ids, and the map is the interface the rest of the program uses.
\<close>

subsection \<open>Entries and the file\<close>

record entry =
  en_pid :: int
  en_config_file :: string
  en_pid_file :: string
  en_log_file :: string
  en_socket :: string
  en_tcp_address :: string
  en_auth_enabled :: bool
  en_key_id :: string
  en_version :: string
  en_started_at :: int
  en_delegate :: bool
  en_primary_socket :: string

datatype instances_file = NoFile | EmptyFile | Unreadable string | Garbage string | Holds "entry list"

datatype registry_err =
    InvalidPid
  | InvalidEndpoint
  | OpenLock string
  | AcquireLock string
  | ParseFailed string
  | ReadFailed string
  | WriteTmp string
  | ReplaceFailed string
  | CloseLock string
  | ResolvePath string

text \<open>How the system calls of one operation went; \<open>None\<close> is success.\<close>

record lock_env =
  le_open :: "string option"
  le_flock :: "string option"
  le_write :: "string option"
  le_rename :: "string option"
  le_close :: "string option"

definition good_env :: lock_env where
  "good_env = \<lparr>le_open = None, le_flock = None, le_write = None, le_rename = None, le_close = None\<rparr>"

definition read_store :: "instances_file \<Rightarrow> registry_err + entry list" where
  "read_store f =
     (case f of
        NoFile \<Rightarrow> Inr []
      | EmptyFile \<Rightarrow> Inr []
      | Unreadable t \<Rightarrow> Inl (ReadFailed t)
      | Garbage t \<Rightarrow> Inl (ParseFailed t)
      | Holds es \<Rightarrow> Inr es)"

text \<open>\<^verbatim>\<open>withLock\<close>: read, change, write a temporary file, rename.  A failing close reports an error
  only when there was none, and the file is changed by then.\<close>

definition locked :: "lock_env \<Rightarrow> instances_file \<Rightarrow> (entry list \<Rightarrow> entry list) \<Rightarrow> registry_err option \<times> instances_file" where
  "locked env f change =
     (case read_store f of
        Inl e \<Rightarrow> (Some e, f)
      | Inr es \<Rightarrow>
          (case le_write env of
             Some t \<Rightarrow> (Some (WriteTmp t), f)
           | None \<Rightarrow>
               (case le_rename env of
                  Some t \<Rightarrow> (Some (ReplaceFailed t), f)
                | None \<Rightarrow> (None, Holds (change es)))))"

definition with_lock :: "lock_env \<Rightarrow> instances_file \<Rightarrow> (entry list \<Rightarrow> entry list) \<Rightarrow> registry_err option \<times> instances_file" where
  "with_lock env f change =
     (case le_open env of
        Some t \<Rightarrow> (Some (OpenLock t), f)
      | None \<Rightarrow>
          (case (case le_flock env of Some t \<Rightarrow> (Some (AcquireLock t), f) | None \<Rightarrow> locked env f change) of
             (r, f1) \<Rightarrow> (if r = None then map_option CloseLock (le_close env) else r, f1)))"

subsection \<open>Operations\<close>

fun upsert :: "entry \<Rightarrow> entry list \<Rightarrow> entry list" where
  "upsert e [] = [e]"
| "upsert e (x # xs) = (if en_pid x = en_pid e then e # xs else x # upsert e xs)"

definition register_instance :: "lock_env \<Rightarrow> entry \<Rightarrow> instances_file \<Rightarrow> registry_err option \<times> instances_file" where
  "register_instance env e f =
     (if en_pid e \<le> 0 then (Some InvalidPid, f)
      else if en_socket e = [] \<and> en_tcp_address e = [] then (Some InvalidEndpoint, f)
      else with_lock env f (upsert e))"

definition deregister :: "lock_env \<Rightarrow> int \<Rightarrow> instances_file \<Rightarrow> registry_err option \<times> instances_file" where
  "deregister env pid f = with_lock env f (filter (\<lambda>e. en_pid e \<noteq> pid))"

text \<open>\<open>responds\<close> is \<^verbatim>\<open>kill(pid, 0) == nil\<close>.\<close>

definition is_alive :: "(int \<Rightarrow> bool) \<Rightarrow> int \<Rightarrow> bool" where
  "is_alive responds pid = (0 < pid \<and> responds pid)"

text \<open>\<^verbatim>\<open>List\<close> returns what it collected also when writing the file failed.\<close>

definition list_instances ::
    "lock_env \<Rightarrow> (int \<Rightarrow> bool) \<Rightarrow> instances_file \<Rightarrow> (entry list \<times> registry_err option) \<times> instances_file" where
  "list_instances env responds f =
     (case with_lock env f (filter (\<lambda>e. is_alive responds (en_pid e))) of
        (r, f1) \<Rightarrow>
          ((if le_open env = None \<and> le_flock env = None
            then (case read_store f of Inl _ \<Rightarrow> [] | Inr es \<Rightarrow> filter (\<lambda>e. is_alive responds (en_pid e)) es)
            else [], r), f1))"

definition find_by_config ::
    "lock_env \<Rightarrow> (int \<Rightarrow> bool) \<Rightarrow> string \<Rightarrow> string \<Rightarrow> instances_file
       \<Rightarrow> (registry_err + entry option) \<times> instances_file" where
  "find_by_config env responds cwd cfg_path f =
     (if cfg_path = [] then (Inr None, f)
      else (case list_instances env responds f of
              ((_, Some e), f1) \<Rightarrow> (Inl e, f1)
            | ((es, None), f1) \<Rightarrow>
                (Inr (List.find (\<lambda>e. path_abs cwd (en_config_file e) = path_abs cwd cfg_path) es), f1)))"

subsection \<open>The finite map it implements\<close>

definition entries_of :: "instances_file \<Rightarrow> entry list" where
  "entries_of f = (case f of Holds es \<Rightarrow> es | _ \<Rightarrow> [])"

definition instance_at :: "instances_file \<Rightarrow> int \<Rightarrow> entry option" where
  "instance_at f pid = List.find (\<lambda>e. en_pid e = pid) (entries_of f)"

definition entry_ok :: "entry \<Rightarrow> bool" where
  "entry_ok e \<longleftrightarrow> 0 < en_pid e \<and> (en_socket e \<noteq> [] \<or> en_tcp_address e \<noteq> [])"

definition store_ok :: "instances_file \<Rightarrow> bool" where
  "store_ok f \<longleftrightarrow> distinct (map en_pid (entries_of f)) \<and> list_all entry_ok (entries_of f)"

lemma upsert_pids: "map en_pid (upsert e es) =
   (if en_pid e \<in> en_pid ` set es then map en_pid es else map en_pid es @ [en_pid e])"
  by (induction es) auto

lemma set_upsert: "x \<in> set (upsert e es) \<Longrightarrow> x = e \<or> x \<in> set es"
  by (induction es) (auto split: if_splits)

lemma find_upsert: "List.find (\<lambda>x. en_pid x = p) (upsert e es) =
   (if p = en_pid e then Some e else List.find (\<lambda>x. en_pid x = p) es)"
  by (induction es) auto

lemma find_filter_pid: "List.find (\<lambda>x. en_pid x = p) (filter (\<lambda>e. P (en_pid e)) es) =
   (if P p then List.find (\<lambda>x. en_pid x = p) es else None)"
  by (induction es) auto

lemma find_pid_iff: "distinct (map en_pid xs) \<Longrightarrow>
   (List.find (\<lambda>e. en_pid e = p) xs = Some x) = (x \<in> set xs \<and> en_pid x = p)"
  by (induction xs) auto

lemma read_store_entries: "read_store f = Inr es \<Longrightarrow> entries_of f = es"
  by (auto simp: read_store_def entries_of_def split: instances_file.splits)

text \<open>An operation either fails and leaves the file as it was, or the change is made; a failing
  close is the one failure after the change.\<close>

lemma with_lock_cases:
  obtains (unchanged) e where "with_lock env f change = (Some e, f)"
  | (changed) r where "with_lock env f change = (r, Holds (change (entries_of f)))"
      "r = map_option CloseLock (le_close env)" "\<exists>es. read_store f = Inr es"
proof (cases "le_open env = None \<and> le_flock env = None \<and> le_write env = None \<and> le_rename env = None
    \<and> (\<exists>es. read_store f = Inr es)")
  case True
  then obtain es where "read_store f = Inr es" by blast
  with True read_store_entries [OF this] show ?thesis
    by (intro changed [of "map_option CloseLock (le_close env)"]) (auto simp: with_lock_def locked_def)
next
  case False
  then have "\<exists>e. with_lock env f change = (Some e, f)"
    by (cases "le_open env"; cases "le_flock env"; cases "le_write env"; cases "le_rename env"; cases "read_store f")
      (simp_all add: with_lock_def locked_def)
  then show ?thesis using unchanged by blast
qed

lemma with_lock_good: "with_lock good_env f change =
   (case read_store f of Inl e \<Rightarrow> (Some e, f) | Inr es \<Rightarrow> (None, Holds (change es)))"
  by (auto simp: with_lock_def locked_def good_env_def split: sum.splits)

lemma store_ok_with_lock:
  assumes "store_ok f"
    and "\<And>es. distinct (map en_pid es) \<and> list_all entry_ok es \<Longrightarrow>
           distinct (map en_pid (change es)) \<and> list_all entry_ok (change es)"
  shows "store_ok (snd (with_lock env f change))"
  using assms by (cases rule: with_lock_cases [of env f change]) (auto simp: store_ok_def entries_of_def)

lemma store_ok_register: "store_ok f \<Longrightarrow> store_ok (snd (register_instance env e f))"
proof (cases "entry_ok e")
  case True
  assume "store_ok f"
  then have "store_ok (snd (with_lock env f (upsert e)))"
    using True by (rule_tac store_ok_with_lock) (auto simp: upsert_pids list_all_iff dest: set_upsert)
  then show ?thesis using True by (auto simp: register_instance_def entry_ok_def)
qed (auto simp: register_instance_def entry_ok_def)

lemma store_ok_deregister: "store_ok f \<Longrightarrow> store_ok (snd (deregister env pid f))"
  unfolding deregister_def
  by (intro store_ok_with_lock) (auto simp: list_all_iff distinct_map_filter)

lemma snd_list: "snd (list_instances env responds f) = snd (with_lock env f (filter (\<lambda>e. is_alive responds (en_pid e))))"
  by (auto simp: list_instances_def split: prod.split)

lemma store_ok_list: "store_ok f \<Longrightarrow> store_ok (snd (list_instances env responds f))"
  unfolding snd_list by (intro store_ok_with_lock) (auto simp: list_all_iff distinct_map_filter)

text \<open>What the operations do on a readable file with a working disk.\<close>

lemma instance_at_Holds: "instance_at (Holds xs) = (\<lambda>p. List.find (\<lambda>e. en_pid e = p) xs)"
  by (simp add: instance_at_def entries_of_def fun_eq_iff)

lemma instance_at_read: "read_store f = Inr es \<Longrightarrow> instance_at f = (\<lambda>p. List.find (\<lambda>e. en_pid e = p) es)"
  using read_store_entries [of f es] by (simp add: instance_at_def fun_eq_iff)

lemma register_at:
  assumes "read_store f = Inr es"
  shows "instance_at (snd (register_instance good_env e f)) =
      (if entry_ok e then (instance_at f)(en_pid e \<mapsto> e) else instance_at f)
    \<and> (fst (register_instance good_env e f) = None \<longleftrightarrow> entry_ok e)"
proof -
  have reg: "register_instance good_env e f =
      (if entry_ok e then (None, Holds (upsert e es))
       else (Some (if en_pid e \<le> 0 then InvalidPid else InvalidEndpoint), f))"
    by (auto simp: register_instance_def entry_ok_def with_lock_good assms)
  have "(\<lambda>q. List.find (\<lambda>x. en_pid x = q) (upsert e es)) =
      (\<lambda>q. List.find (\<lambda>x. en_pid x = q) es)(en_pid e \<mapsto> e)"
    by (simp add: fun_eq_iff find_upsert)
  then show ?thesis unfolding reg by (simp add: instance_at_Holds instance_at_read [OF assms])
qed

lemma deregister_at:
  assumes "read_store f = Inr es"
  shows "instance_at (snd (deregister good_env p f)) = (instance_at f)(p := None)"
proof -
  have "deregister good_env p f = (None, Holds (filter (\<lambda>e. en_pid e \<noteq> p) es))"
    by (simp add: deregister_def with_lock_good assms)
  then show ?thesis
    by (simp add: instance_at_Holds instance_at_read [OF assms] find_filter_pid [where P = "\<lambda>q. q \<noteq> p"] fun_eq_iff)
qed

lemma list_good:
  assumes "read_store f = Inr es"
  shows "list_instances good_env responds f =
      ((filter (\<lambda>e. is_alive responds (en_pid e)) es, None), Holds (filter (\<lambda>e. is_alive responds (en_pid e)) es))"
  by (simp add: list_instances_def with_lock_good assms) (simp add: good_env_def)

lemma list_at:
  assumes "read_store f = Inr es"
  shows "instance_at (snd (list_instances good_env responds f)) =
      (\<lambda>q. if is_alive responds q then instance_at f q else None)"
  by (simp add: list_good [OF assms] instance_at_Holds instance_at_read [OF assms]
      find_filter_pid [where P = "is_alive responds"] fun_eq_iff)

text \<open>The change of an operation is made exactly when the lock, the file and the temporary file are
  all right; of the errors only a failing close comes after it.\<close>

definition writable :: "lock_env \<Rightarrow> instances_file \<Rightarrow> bool" where
  "writable env f \<longleftrightarrow> le_open env = None \<and> le_flock env = None \<and> le_write env = None \<and> le_rename env = None
     \<and> (case read_store f of Inl _ \<Rightarrow> False | Inr _ \<Rightarrow> True)"

definition carried_out :: "registry_err option \<Rightarrow> bool" where
  "carried_out r = (case r of None \<Rightarrow> True | Some (CloseLock _) \<Rightarrow> True | _ \<Rightarrow> False)"

lemma with_lock_writable:
  "writable env f \<Longrightarrow> with_lock env f change = (map_option CloseLock (le_close env), Holds (change (entries_of f)))"
  using read_store_entries [of f]
  by (auto simp: writable_def with_lock_def locked_def split: sum.splits)

lemma with_lock_refused:
  assumes "\<not> writable env f"
  obtains x where "with_lock env f change = (Some x, f)" "\<not> carried_out (Some x)"
  using assms that
  by (cases "le_open env"; cases "le_flock env"; cases "le_write env"; cases "le_rename env"; cases f)
    (auto simp: writable_def with_lock_def locked_def carried_out_def read_store_def)

lemma with_lock_map:
  assumes "with_lock env f change = (r, f1)"
    and "\<And>es q. P (\<lambda>q. List.find (\<lambda>e. en_pid e = q) es) (\<lambda>q. List.find (\<lambda>e. en_pid e = q) (change es))"
  shows "carried_out r = writable env f"
    "if carried_out r then P (instance_at f) (instance_at f1) else f1 = f"
proof -
  have "carried_out r = writable env f \<and> (if carried_out r then P (instance_at f) (instance_at f1) else f1 = f)"
  proof (cases "writable env f")
    case True
    moreover have "instance_at f = (\<lambda>q. List.find (\<lambda>e. en_pid e = q) (entries_of f))"
      by (simp add: fun_eq_iff instance_at_def)
    ultimately show ?thesis using assms with_lock_writable [OF True, of change]
      by (auto simp: carried_out_def instance_at_Holds split: option.split)
  next
    case False
    then show ?thesis using assms(1) by (cases rule: with_lock_refused [OF False, of change]) auto
  qed
  then show "carried_out r = writable env f" "if carried_out r then P (instance_at f) (instance_at f1) else f1 = f"
    by simp_all
qed

text \<open>C5: the registry is a finite map from process ids to entries, whatever the system calls do.
  Registering stores a valid entry and refuses any other, deregistering deletes the id, and listing
  forgets the processes that are dead and returns exactly the entries that remain.  The change is
  made when the operation succeeds or when nothing but closing the lock file failed; with every
  other error the file is the one it was.\<close>

theorem registry_refines_map:
  assumes "store_ok f"
  shows "(case register_instance env e f of (r, f1) \<Rightarrow>
        (carried_out r \<longleftrightarrow> entry_ok e \<and> writable env f)
        \<and> (if carried_out r then instance_at f1 = (instance_at f)(en_pid e \<mapsto> e) else f1 = f))
    \<and> (case deregister env p f of (r, f1) \<Rightarrow>
        (carried_out r \<longleftrightarrow> writable env f)
        \<and> (if carried_out r then instance_at f1 = (instance_at f)(p := None) else f1 = f))
    \<and> (case list_instances env responds f of ((es, r), f1) \<Rightarrow>
        (carried_out r \<longleftrightarrow> writable env f)
        \<and> (if carried_out r
            then instance_at f1 = (\<lambda>q. if is_alive responds q then instance_at f q else None)
              \<and> set es = ran (instance_at f1)
            else f1 = f))"
proof (intro conjI)
  obtain r f1 where w: "with_lock env f (upsert e) = (r, f1)" by fastforce
  note m = with_lock_map [OF w, of "\<lambda>m m'. m' = m(en_pid e \<mapsto> e)"]
  show "case register_instance env e f of (r, f1) \<Rightarrow> (carried_out r \<longleftrightarrow> entry_ok e \<and> writable env f)
        \<and> (if carried_out r then instance_at f1 = (instance_at f)(en_pid e \<mapsto> e) else f1 = f)"
  proof (cases "entry_ok e")
    case True
    then have "register_instance env e f = (r, f1)" using w by (auto simp: register_instance_def entry_ok_def)
    then show ?thesis using m True by (auto simp: fun_eq_iff find_upsert)
  next
    case False
    then show ?thesis by (auto simp: register_instance_def entry_ok_def carried_out_def)
  qed
next
  obtain r f1 where w: "with_lock env f (filter (\<lambda>e. en_pid e \<noteq> p)) = (r, f1)" by fastforce
  then show "case deregister env p f of (r, f1) \<Rightarrow> (carried_out r \<longleftrightarrow> writable env f)
        \<and> (if carried_out r then instance_at f1 = (instance_at f)(p := None) else f1 = f)"
    using with_lock_map [OF w, of "\<lambda>m m'. m' = m(p := None)"]
    by (simp add: deregister_def fun_eq_iff find_filter_pid [where P = "\<lambda>q. q \<noteq> p"])
next
  let ?live = "filter (\<lambda>e. is_alive responds (en_pid e))"
  obtain es r f1 where l: "list_instances env responds f = ((es, r), f1)" by (metis prod.exhaust)
  then have w: "with_lock env f ?live = (r, f1)" by (auto simp: list_instances_def split: prod.splits)
  note m = with_lock_map [OF w, of "\<lambda>m m'. m' = (\<lambda>q. if is_alive responds q then m q else None)"]
  have "set es = ran (instance_at f1)" if wr: "writable env f"
  proof -
    from wr obtain xs where xs: "read_store f = Inr xs" "le_open env = None" "le_flock env = None"
      by (auto simp: writable_def split: sum.splits)
    then have es: "es = ?live xs" using l by (auto simp: list_instances_def split: prod.splits)
    have f1: "f1 = Holds (?live xs)"
      using with_lock_writable [OF wr, of ?live] w read_store_entries [OF xs(1)] by simp
    have "distinct (map en_pid (?live xs))"
      using assms read_store_entries [OF xs(1)] by (auto simp: store_ok_def distinct_map_filter)
    then show ?thesis unfolding es f1 instance_at_Holds using find_pid_iff [of "?live xs"] by (auto simp: ran_def)
  qed
  then show "case list_instances env responds f of ((es, r), f1) \<Rightarrow> (carried_out r \<longleftrightarrow> writable env f)
        \<and> (if carried_out r
            then instance_at f1 = (\<lambda>q. if is_alive responds q then instance_at f q else None)
              \<and> set es = ran (instance_at f1)
            else f1 = f)"
    using m unfolding l by (auto simp: fun_eq_iff find_filter_pid [where P = "is_alive responds"])
qed

definition sample_entry :: entry where
  "sample_entry =
     \<lparr>en_pid = 7, en_config_file = [], en_pid_file = [], en_log_file = [], en_socket = ''/run/k.sock'',
      en_tcp_address = [], en_auth_enabled = False, en_key_id = [], en_version = [], en_started_at = 0,
      en_delegate = False, en_primary_socket = []\<rparr>"

theorem registry_refines_map_witness:
  "(case register_instance (good_env\<lparr>le_close := Some ''EIO''\<rparr>) sample_entry (Holds []) of (r, f1) \<Rightarrow>
      r = Some (CloseLock ''EIO'') \<and> instance_at f1 7 = Some sample_entry \<and> instance_at f1 8 = None)"
proof -
  let ?env = "good_env\<lparr>le_close := Some ''EIO''\<rparr>"
  have "store_ok (Holds [])" by (simp add: store_ok_def entries_of_def)
  note r = registry_refines_map [OF this, of sample_entry ?env 0 "\<lambda>_. True"]
  have pid: "en_pid sample_entry = 7" by (simp add: sample_entry_def)
  have w: "register_instance ?env sample_entry (Holds []) = (Some (CloseLock ''EIO''), Holds [sample_entry])"
    by (simp add: register_instance_def sample_entry_def with_lock_def locked_def good_env_def read_store_def)
  have "instance_at (Holds [sample_entry]) = (instance_at (Holds []))(7 \<mapsto> sample_entry)"
    using r unfolding w by (simp add: carried_out_def pid)
  then show ?thesis unfolding w by (simp add: instance_at_def entries_of_def pid)
qed

subsection \<open>Many processes\<close>

text \<open>The operations of other processes, with whatever their system calls did.\<close>

datatype registry_op =
    RegisterOp lock_env entry
  | DeregisterOp lock_env int
  | ListOp lock_env "int \<Rightarrow> bool"

fun registry_step :: "registry_op \<Rightarrow> instances_file \<Rightarrow> instances_file" where
  "registry_step (RegisterOp env e) f = snd (register_instance env e f)"
| "registry_step (DeregisterOp env pid) f = snd (deregister env pid f)"
| "registry_step (ListOp env responds) f = snd (list_instances env responds f)"

text \<open>Whether an operation may touch the entry of a process.\<close>

fun may_touch :: "registry_op \<Rightarrow> int \<Rightarrow> bool" where
  "may_touch (RegisterOp env e) p = (en_pid e = p)"
| "may_touch (DeregisterOp env pid) p = (pid = p)"
| "may_touch (ListOp env responds) p = (\<not> is_alive responds p)"

text \<open>A shared table whose operations leave alone the keys they do not touch; its users rely on
  their own entry staying put.\<close>

locale shared_table =
  fixes look :: "'s \<Rightarrow> 'k \<Rightarrow> 'e option"
    and step :: "'o \<Rightarrow> 's \<Rightarrow> 's"
    and touches :: "'o \<Rightarrow> 'k \<Rightarrow> bool"
    and ok :: "'s \<Rightarrow> bool"
  assumes untouched: "ok s \<Longrightarrow> \<not> touches x k \<Longrightarrow> look (step x s) k = look s k"
    and keeps: "ok s \<Longrightarrow> ok (step x s)"
begin

lemma runs_keep: "ok s \<Longrightarrow> ok (foldl (\<lambda>s x. step x s) s xs)"
  by (induction xs arbitrary: s) (simp_all add: keeps)

lemma runs_untouched:
  "ok s \<Longrightarrow> list_all (\<lambda>x. \<not> touches x k) xs \<Longrightarrow> look (foldl (\<lambda>s x. step x s) s xs) k = look s k"
  by (induction xs arbitrary: s) (simp_all add: keeps untouched)

end

lemma instance_at_with_lock:
  assumes "\<And>es. List.find (\<lambda>x. en_pid x = p) (change es) = List.find (\<lambda>x. en_pid x = p) es"
  shows "instance_at (snd (with_lock env f change)) p = instance_at f p"
  by (cases rule: with_lock_cases [of env f change]) (simp_all add: instance_at_def entries_of_def assms)

interpretation registry: shared_table instance_at registry_step may_touch store_ok
proof
  fix f x k
  assume "store_ok f" "\<not> may_touch x k"
  then show "instance_at (registry_step x f) k = instance_at f k"
  proof (cases x)
    case (RegisterOp env e)
    with \<open>\<not> may_touch x k\<close> show ?thesis
      by (auto simp: register_instance_def find_upsert intro: instance_at_with_lock)
  next
    case (DeregisterOp env pid)
    with \<open>\<not> may_touch x k\<close> find_filter_pid [of k "\<lambda>q. q \<noteq> pid"] show ?thesis
      by (auto simp: deregister_def intro: instance_at_with_lock)
  next
    case (ListOp env responds)
    with \<open>\<not> may_touch x k\<close> find_filter_pid [of k "is_alive responds"] show ?thesis
      by (auto simp: snd_list intro: instance_at_with_lock)
  qed
next
  fix f x
  assume "store_ok f"
  then show "store_ok (registry_step x f)"
    by (cases x) (simp_all add: store_ok_register store_ok_deregister store_ok_list)
qed

text \<open>C18: a daemon stays registered while it lives: after it registered, no sequence of
  operations of other processes, failing or not, changes or loses its entry, and every readable
  entry keeps a positive process id and an endpoint.\<close>

theorem registration_survives:
  assumes "store_ok f" "read_store f = Inr es" "entry_ok e"
    and "list_all (\<lambda>x. \<not> may_touch x (en_pid e)) xs"
  shows "instance_at (foldl (\<lambda>s x. registry_step x s) (snd (register_instance good_env e f)) xs) (en_pid e) = Some e
    \<and> store_ok (foldl (\<lambda>s x. registry_step x s) (snd (register_instance good_env e f)) xs)"
proof -
  have s: "store_ok (snd (register_instance good_env e f))" using assms(1) by (rule store_ok_register)
  have "snd (register_instance good_env e f) = Holds (upsert e es)"
    using assms(2,3) by (auto simp: register_instance_def entry_ok_def with_lock_good)
  then have "instance_at (snd (register_instance good_env e f)) (en_pid e) = Some e"
    by (simp add: instance_at_def entries_of_def find_upsert)
  then show ?thesis
    using registry.runs_untouched [OF s assms(4)] registry.runs_keep [OF s] by simp
qed

theorem registration_survives_witness:
  "instance_at (foldl (\<lambda>s x. registry_step x s) (snd (register_instance good_env sample_entry NoFile))
     [RegisterOp good_env (sample_entry\<lparr>en_pid := 8\<rparr>), DeregisterOp good_env 8,
      DeregisterOp (good_env\<lparr>le_rename := Some ''EXDEV''\<rparr>) 8, ListOp good_env (\<lambda>p. p = 7)]) 7
   = Some sample_entry"
proof -
  let ?xs = "[RegisterOp good_env (sample_entry\<lparr>en_pid := 8\<rparr>), DeregisterOp good_env 8,
      DeregisterOp (good_env\<lparr>le_rename := Some ''EXDEV''\<rparr>) 8, ListOp good_env (\<lambda>p. p = 7)]"
  have h: "store_ok NoFile" "read_store NoFile = Inr []" "entry_ok sample_entry"
    by (simp_all add: store_ok_def entries_of_def read_store_def entry_ok_def sample_entry_def)
  have "list_all (\<lambda>x. \<not> may_touch x (en_pid sample_entry)) ?xs"
    by (simp add: sample_entry_def is_alive_def)
  from registration_survives [OF h this] show ?thesis by (simp add: sample_entry_def)
qed

end
