(* ===== verification/External.thy ===== *)
theory External
  imports ManagerView Registry
begin

text \<open>
  Services that another instance already forwards: the matching of
  \<^verbatim>\<open>internal/proxy/external.go\<close>, the discovery of \<^verbatim>\<open>internal/cli/cmd_proxy.go\<close> on top of the registry
  and the other instances' status, and the conflict report and labels of
  \<^verbatim>\<open>internal/cli/cmd_start.go\<close> and \<^verbatim>\<open>internal/cli/cmd_instances.go\<close>.
\<close>

subsection \<open>Matching\<close>

record remote_forward =
  rf_instance :: string
  rf_pid :: int
  rf_config_file :: string
  rf_service_name :: string
  rf_actual_port :: int
  rf_local_port :: int

definition remote_port :: "remote_forward \<Rightarrow> int" where
  "remote_port fw = (if rf_actual_port fw = 0 then rf_local_port fw else rf_actual_port fw)"

text \<open>The two maps of owners; a later forward overwrites an earlier one.\<close>

definition owners_by_name :: "remote_forward list \<Rightarrow> (string, remote_forward) gomap" where
  "owners_by_name remote =
     foldl (\<lambda>m fw. if rf_service_name fw \<noteq> [] then gset (rf_service_name fw) fw m else m) [] remote"

definition owners_by_port :: "remote_forward list \<Rightarrow> (int, remote_forward) gomap" where
  "owners_by_port remote =
     foldl (\<lambda>m fw. if 0 < remote_port fw then gset (remote_port fw) fw m else m) [] remote"

definition owned_by :: "service_config \<Rightarrow> remote_forward \<Rightarrow> external_forward" where
  "owned_by svc fw =
     \<lparr>ef_service = svc, ef_instance = rf_instance fw, ef_pid = rf_pid fw,
      ef_config_file = rf_config_file fw, ef_actual_port = rf_actual_port fw\<rparr>"

definition owner_of ::
    "(string, remote_forward) gomap \<Rightarrow> (int, remote_forward) gomap \<Rightarrow> service_config \<Rightarrow> remote_forward option" where
  "owner_of by_name by_port svc =
     (case gget by_name (svc_name svc) of
        Some fw \<Rightarrow> Some fw
      | None \<Rightarrow> if svc_local_port svc \<noteq> 0 then gget by_port (svc_local_port svc) else None)"

fun detect_loop ::
    "(string, remote_forward) gomap \<Rightarrow> (int, remote_forward) gomap \<Rightarrow> string list \<Rightarrow> service_config list
       \<Rightarrow> external_forward list" where
  "detect_loop by_name by_port seen [] = []"
| "detect_loop by_name by_port seen (svc # rest) =
     (if svc_name svc \<in> set seen then detect_loop by_name by_port seen rest
      else (case owner_of by_name by_port svc of
              None \<Rightarrow> detect_loop by_name by_port seen rest
            | Some fw \<Rightarrow> owned_by svc fw # detect_loop by_name by_port (svc_name svc # seen) rest))"

definition detect_external_conflicts :: "config \<Rightarrow> remote_forward list \<Rightarrow> external_forward list" where
  "detect_external_conflicts cfg remote =
     (if cfg_services cfg = [] \<or> remote = [] then []
      else detect_loop (owners_by_name remote) (owners_by_port remote) [] (cfg_services cfg))"

subsection \<open>Discovery\<close>

text \<open>One live instance: its registry entry and the status it answered with.\<close>

record live_instance =
  li_entry :: entry
  li_forwards :: "forward_status list"

definition remote_of :: "entry \<Rightarrow> forward_status \<Rightarrow> remote_forward" where
  "remote_of e fs =
     \<lparr>rf_instance = (if en_socket e = [] then en_tcp_address e else en_socket e), rf_pid = en_pid e,
      rf_config_file = en_config_file e, rf_service_name = svc_name (fs_service fs),
      rf_actual_port = wrap32 (fs_actual_port fs), rf_local_port = wrap32 (svc_local_port (fs_service fs))\<rparr>"

text \<open>\<open>query\<close> is \<^verbatim>\<open>queryLiveInstances\<close>: the answers of the instances that could be reached.\<close>

definition detect_from_registry ::
    "lock_env \<Rightarrow> (int \<Rightarrow> bool) \<Rightarrow> int \<Rightarrow> (entry list \<Rightarrow> live_instance list) \<Rightarrow> instances_file \<Rightarrow> config
       \<Rightarrow> external_forward list" where
  "detect_from_registry env responds my_pid query f cfg =
     (if cfg_services cfg = [] then []
      else (case fst (list_instances env responds f) of
              (_, Some _) \<Rightarrow> []
            | (es, None) \<Rightarrow>
                (let candidates = filter (\<lambda>e. en_pid e \<noteq> my_pid \<and> \<not> en_delegate e) es
                 in if candidates = [] then []
                    else detect_external_conflicts cfg
                           (concat (map (\<lambda>li. map (remote_of (li_entry li)) (li_forwards li)) (query candidates))))))"

subsection \<open>The conflict report\<close>

record conflict_entry =
  ce_port :: int
  ce_service :: string
  ce_owned_by :: string
  ce_owner_pid :: int
  ce_owner_config :: string

definition status_port :: "forward_status \<Rightarrow> int" where
  "status_port fs =
     (if wrap32 (fs_actual_port fs) = 0 then wrap32 (svc_local_port (fs_service fs)) else wrap32 (fs_actual_port fs))"

definition port_owners :: "live_instance list \<Rightarrow> (int, entry \<times> forward_status) gomap" where
  "port_owners live =
     foldl (\<lambda>m (e, fs). if status_port fs = 0 then m else gset (status_port fs) (e, fs) m) []
       (concat (map (\<lambda>li. map (\<lambda>fs. (li_entry li, fs)) (li_forwards li)) live))"

fun build_conflict_report ::
    "(int, entry \<times> forward_status) gomap \<Rightarrow> service_config list \<Rightarrow> conflict_entry list \<times> service_config list" where
  "build_conflict_report owners [] = ([], [])"
| "build_conflict_report owners (svc # rest) =
     (case build_conflict_report owners rest of
        (conflicts, clean) \<Rightarrow>
          if svc_local_port svc = 0 \<or> is_multi_port svc then (conflicts, svc # clean)
          else (case gget owners (svc_local_port svc) of
                  None \<Rightarrow> (conflicts, svc # clean)
                | Some (e, fs) \<Rightarrow>
                    (\<lparr>ce_port = svc_local_port svc, ce_service = svc_name svc,
                      ce_owned_by = svc_name (fs_service fs), ce_owner_pid = en_pid e,
                      ce_owner_config = en_config_file e\<rparr> # conflicts, clean)))"

subsection \<open>Labels\<close>

definition entry_endpoint :: "entry \<Rightarrow> string" where
  "entry_endpoint e = (if en_tcp_address e \<noteq> [] then ''tcp://'' @ en_tcp_address e else en_socket e)"

definition entry_config_label :: "entry \<Rightarrow> string" where
  "entry_config_label e = (if en_config_file e = [] then ''(in-memory)'' else en_config_file e)"

definition entry_auth_label :: "entry \<Rightarrow> string" where
  "entry_auth_label e =
     (if \<not> en_auth_enabled e then ''none''
      else if en_key_id e \<noteq> [] then ''yes ('' @ en_key_id e @ '')'' else ''yes'')"

text \<open>\<^verbatim>\<open>formatUptime\<close>, for a duration in nanoseconds.\<close>

definition format_uptime :: "int \<Rightarrow> string" where
  "format_uptime d0 =
     (let d = quot d0 sec * sec; s = quot d sec; m = quot d minute; h = quot d hour
      in if d < minute then itoa s @ ''s''
         else if d < hour then itoa m @ ''m'' @ itoa (s mod 60) @ ''s''
         else if m mod 60 = 0 then itoa h @ ''h'' else itoa h @ ''h'' @ itoa (m mod 60) @ ''m'')"

subsection \<open>What is detected\<close>

definition claimed :: "remote_forward list \<Rightarrow> service_config \<Rightarrow> bool" where
  "claimed remote svc \<longleftrightarrow>
     (\<exists>fw \<in> set remote. rf_service_name fw = svc_name svc \<and> svc_name svc \<noteq> [])
     \<or> (\<exists>fw \<in> set remote. remote_port fw = svc_local_port svc \<and> 0 < svc_local_port svc)"

lemma fold_index:
  "gget (foldl (\<lambda>m fw. if P fw then gset (key fw) fw m else m) m0 fws) k =
     (case List.find (\<lambda>fw. P fw \<and> key fw = k) (rev fws) of Some fw \<Rightarrow> Some fw | None \<Rightarrow> gget m0 k)"
  by (induction fws rule: rev_induct) auto

lemma owner_of_claimed:
  "(owner_of (owners_by_name remote) (owners_by_port remote) svc \<noteq> None) = claimed remote svc"
proof -
  have n: "(gget (owners_by_name remote) k \<noteq> None) = (\<exists>fw \<in> set remote. rf_service_name fw = k \<and> k \<noteq> [])" for k
    unfolding owners_by_name_def fold_index by (auto simp: find_None_iff split: option.splits dest!: find_memD)
  have p: "(gget (owners_by_port remote) k \<noteq> None) = (\<exists>fw \<in> set remote. remote_port fw = k \<and> 0 < k)" for k
    unfolding owners_by_port_def fold_index by (auto simp: find_None_iff split: option.splits dest!: find_memD)
  show ?thesis
    using n [of "svc_name svc"] p [of "svc_local_port svc"]
    by (auto simp: owner_of_def claimed_def split: option.splits)
qed

lemma detect_loop_names:
  "distinct (map (svc_name \<circ> ef_service) (detect_loop bn bp seen svcs))
   \<and> set (map (svc_name \<circ> ef_service) (detect_loop bn bp seen svcs)) =
       {svc_name s |s. s \<in> set svcs \<and> svc_name s \<notin> set seen \<and> owner_of bn bp s \<noteq> None}"
proof (induction bn bp seen svcs rule: detect_loop.induct)
  case (1 bn bp seen)
  then show ?case by simp
next
  case (2 bn bp seen svc rest)
  consider "svc_name svc \<in> set seen" | "svc_name svc \<notin> set seen" "owner_of bn bp svc = None"
    | fw where "svc_name svc \<notin> set seen" "owner_of bn bp svc = Some fw" by (cases "owner_of bn bp svc") auto
  then show ?case
  proof cases
    case 1
    then show ?thesis using 2(1) by auto
  next
    case x: 2
    then show ?thesis using 2(2) by auto
  next
    case (3 fw)
    then show ?thesis using 2(3) [OF 3] by (auto simp: owned_by_def)
  qed
qed

text \<open>C24: the detection is exact.  A service is reported as external, once, exactly when another
  instance reports a service of its name or holds its static local port.\<close>

theorem detection_exact:
  "distinct (map (svc_name \<circ> ef_service) (detect_external_conflicts cfg remote))
   \<and> set (map (svc_name \<circ> ef_service) (detect_external_conflicts cfg remote)) =
       {svc_name s |s. s \<in> set (cfg_services cfg) \<and> claimed remote s}"
proof (cases "cfg_services cfg = [] \<or> remote = []")
  case True
  then show ?thesis by (auto simp: detect_external_conflicts_def claimed_def)
next
  case False
  then have "detect_external_conflicts cfg remote =
      detect_loop (owners_by_name remote) (owners_by_port remote) [] (cfg_services cfg)"
    by (simp add: detect_external_conflicts_def)
  then show ?thesis
    using detect_loop_names [of "owners_by_name remote" "owners_by_port remote" "[]" "cfg_services cfg"]
      owner_of_claimed [of remote] by simp
qed

subsection \<open>Two instances that defer to each other\<close>

text \<open>What an instance's detector sees of one other instance.\<close>

definition seen_by :: "entry \<Rightarrow> manager \<Rightarrow> config \<Rightarrow> external_forward list" where
  "seen_by e other cfg =
     detect_external_conflicts cfg
       (map (remote_of e) (case status (\<lambda>_. True) other of None \<Rightarrow> [] | Some ss \<Rightarrow> ss))"

definition one_service :: config where
  "one_service = zero_config\<lparr>cfg_services :=
     [zero_service\<lparr>svc_name := ''web'', svc_service := ''web'', svc_local_port := 8080, svc_remote_port := 80\<rparr>]\<rparr>"

definition instance_a :: manager where
  "instance_a = start (new_manager one_service)"

definition instance_b :: "entry \<Rightarrow> manager" where
  "instance_b ea =
     start (snd (set_external_forwards (seen_by ea instance_a one_service) (new_manager one_service)))"

definition reload_seeing :: "entry \<Rightarrow> manager \<Rightarrow> manager \<Rightarrow> manager" where
  "reload_seeing e other m =
     snd (reload (\<lambda>_. id) one_service (set_external_detector (Some (seen_by e other)) m))"

lemma external_entry_listed:
  assumes "status is_open m = Some ss" "gget (mg_external m) n = Some ef"
  shows "external_status ef \<in> set ss"
proof -
  have "(n, ef) \<in> set (mg_external m)" using assms(2) by (rule map_of_SomeD)
  then have "external_status ef \<in> (\<lambda>(_, x). external_status x) ` set (mg_external m)" by force
  then show ?thesis using assms(1) by (auto simp: status_def)
qed

lemma external_entry_claims:
  assumes "status is_open m = Some ss" "gget (mg_external m) n = Some ef" "svc_name (ef_service ef) = n"
    and "svc_name svc = n" "n \<noteq> []"
  shows "claimed (map (remote_of e) ss) svc"
  using external_entry_listed [OF assms(1,2)] assms(3-5)
  by (auto simp: claimed_def remote_of_def external_status_def intro!: bexI [where x = "external_status ef"])

text \<open>Deferring is taken for owning.  Instance A forwards a service; B starts with the same
  service and rightly defers to A.  When A reloads, B's report of A's service makes A defer to B:
  A stops its forward, B's reload does not take it back, and no instance forwards it any more.\<close>

theorem mutual_deferral:
  "mg_order instance_a = [''web'']
   \<and> mg_forwards (instance_b sample_entry) = []
   \<and> mg_forwards (reload_seeing (sample_entry\<lparr>en_pid := 8\<rparr>) (instance_b sample_entry) instance_a) = []
   \<and> mg_forwards (reload_seeing sample_entry
        (reload_seeing (sample_entry\<lparr>en_pid := 8\<rparr>) (instance_b sample_entry) instance_a)
        (instance_b sample_entry)) = []"
proof (intro conjI)
  show "mg_order instance_a = [''web'']" by code_simp
  show "mg_forwards (instance_b sample_entry) = []" by code_simp
  show "mg_forwards (reload_seeing (sample_entry\<lparr>en_pid := 8\<rparr>) (instance_b sample_entry) instance_a) = []"
    by code_simp
  show "mg_forwards (reload_seeing sample_entry
        (reload_seeing (sample_entry\<lparr>en_pid := 8\<rparr>) (instance_b sample_entry) instance_a)
        (instance_b sample_entry)) = []" by code_simp
qed

end
