(* ===== verification/Socks.thy ===== *)
theory Socks
  imports Paths "HOL-Library.Word"
begin

text \<open>
  The SOCKS5 server (\<^verbatim>\<open>pkg/proxy/socks.go\<close>): negotiation, user/password sub-negotiation and the
  CONNECT request, byte by byte.  A connection is the bytes still to be read, the bytes written,
  and the number of writes that go through before the peer is gone.  Dialling (through the address
  translation) is a parameter; after the handshake bytes are only copied.
\<close>

unbundle bit_operations_syntax

type_synonym bytes = "8 word list"

subsection \<open>Bytes and texts\<close>

definition bytes_of :: "string \<Rightarrow> bytes" where
  "bytes_of s = map (\<lambda>c. word_of_nat (char_val c)) s"

definition text_of :: "bytes \<Rightarrow> string" where
  "text_of bs = map (\<lambda>b. char_of (unat b)) bs"

definition byte_text :: "8 word \<Rightarrow> string" where
  "byte_text b = itoa (uint b)"

definition ip4_text :: "bytes \<Rightarrow> string" where
  "ip4_text bs = join ''.'' (map byte_text bs)"

definition hex_char :: "nat \<Rightarrow> char" where
  "hex_char n = (if n < 10 then char_of (48 + n) else char_of (87 + n))"

definition hex_group :: "16 word \<Rightarrow> string" where
  "hex_group w =
     (let ds = map (\<lambda>i. unat (drop_bit (4 * i) w AND 15)) [3, 2, 1, 0]
      in map hex_char (if w = 0 then [0] else dropWhile (\<lambda>d. d = 0) ds))"

fun groups :: "bytes \<Rightarrow> 16 word list" where
  "groups (a # b # bs) = (push_bit 8 (ucast a) OR ucast b) # groups bs"
| "groups _ = []"

text \<open>The first longest run of at least two zero groups, as start and length.\<close>

definition zero_run :: "16 word list \<Rightarrow> nat \<times> nat" where
  "zero_run gs =
     foldl (\<lambda>(s, l) i. let n = length (takeWhile (\<lambda>g. g = 0) (drop i gs))
                       in if 2 \<le> n \<and> l < n then (i, n) else (s, l))
       (255, 0) [0..<length gs]"

definition ip6_text :: "bytes \<Rightarrow> string" where
  "ip6_text bs =
     (let gs = groups bs
      in case zero_run gs of
           (s, l) \<Rightarrow>
             if l = 0 then join '':'' (map hex_group gs)
             else join '':'' (map hex_group (take s gs)) @ ''::'' @ join '':'' (map hex_group (drop (s + l) gs)))"

text \<open>\<^verbatim>\<open>net.IP.String\<close> for 4 or 16 bytes: a mapped IPv4 address is shown dotted.\<close>

definition ip_text :: "bytes \<Rightarrow> string" where
  "ip_text bs =
     (if length bs = 4 then ip4_text bs
      else if take 12 bs = replicate 10 0 @ [255, 255] then ip4_text (drop 12 bs)
      else ip6_text bs)"

subsection \<open>Connections\<close>

record conn =
  cn_in :: bytes
  cn_out :: bytes
  cn_writes :: nat

datatype socks_err =
    ShortRead
  | WriteFailed
  | BadVersion "8 word"
  | NoAcceptableMethod
  | NoUserPassMethod
  | BadAuthVersion "8 word"
  | AuthenticationFailed
  | BadRequestVersion "8 word"
  | UnsupportedCommand "8 word"
  | UnsupportedAddress "8 word"

type_synonym 'a socks = "conn \<Rightarrow> (socks_err + 'a) \<times> conn"

definition seq :: "'a socks \<Rightarrow> ('a \<Rightarrow> 'b socks) \<Rightarrow> 'b socks" where
  "seq m f c = (case m c of (Inl e, c1) \<Rightarrow> (Inl e, c1) | (Inr x, c1) \<Rightarrow> f x c1)"

definition give :: "'a \<Rightarrow> 'a socks" where
  "give x c = (Inr x, c)"

definition fail :: "socks_err \<Rightarrow> 'a socks" where
  "fail e c = (Inl e, c)"

definition read_full :: "nat \<Rightarrow> bytes socks" where
  "read_full n c =
     (if n \<le> length (cn_in c) then (Inr (take n (cn_in c)), c\<lparr>cn_in := drop n (cn_in c)\<rparr>)
      else (Inl ShortRead, c\<lparr>cn_in := []\<rparr>))"

definition write_bytes :: "bytes \<Rightarrow> unit socks" where
  "write_bytes bs c =
     (case cn_writes c of
        0 \<Rightarrow> (Inl WriteFailed, c)
      | Suc k \<Rightarrow> (Inr (), c\<lparr>cn_out := cn_out c @ bs, cn_writes := k\<rparr>))"

text \<open>A write whose error is ignored.\<close>

definition try_write :: "bytes \<Rightarrow> unit socks" where
  "try_write bs c = (Inr (), snd (write_bytes bs c))"

subsection \<open>The handshake\<close>

record socks_server =
  ss_username :: string
  ss_password :: string

definition requires_auth :: "socks_server \<Rightarrow> bool" where
  "requires_auth s = (ss_username s \<noteq> [] \<or> ss_password s \<noteq> [])"

definition read_counted :: "bytes socks" where
  "read_counted = seq (read_full 1) (\<lambda>n. read_full (unat (hd n)))"

definition negotiate_user_pass :: "socks_server \<Rightarrow> bytes \<Rightarrow> unit socks" where
  "negotiate_user_pass s methods =
     (if 2 \<notin> set methods then seq (try_write [5, 255]) (\<lambda>_. fail NoUserPassMethod)
      else seq (write_bytes [5, 2]) (\<lambda>_.
        seq (read_full 1) (\<lambda>ver.
          if hd ver \<noteq> 1 then fail (BadAuthVersion (hd ver))
          else seq read_counted (\<lambda>uname. seq read_counted (\<lambda>passwd.
            if uname \<noteq> bytes_of (ss_username s) \<or> passwd \<noteq> bytes_of (ss_password s)
            then seq (try_write [1, 1]) (\<lambda>_. fail AuthenticationFailed)
            else write_bytes [1, 0])))))"

definition negotiate :: "socks_server \<Rightarrow> unit socks" where
  "negotiate s =
     seq (read_full 2) (\<lambda>buf.
       if hd buf \<noteq> 5 then fail (BadVersion (hd buf))
       else seq (read_full (unat (buf ! 1))) (\<lambda>methods.
         if requires_auth s then negotiate_user_pass s methods
         else if 0 \<in> set methods then write_bytes [5, 0]
         else seq (try_write [5, 255]) (\<lambda>_. fail NoAcceptableMethod)))"

definition send_reply :: "8 word \<Rightarrow> unit socks" where
  "send_reply r = try_write [5, r, 0, 1, 0, 0, 0, 0, 0, 0]"

definition read_host :: "8 word \<Rightarrow> string socks" where
  "read_host atyp =
     (if atyp = 1 then seq (read_full 4) (\<lambda>ip. give (ip_text ip))
      else if atyp = 3 then seq read_counted (\<lambda>d. give (text_of d))
      else if atyp = 4 then seq (read_full 16) (\<lambda>ip. give (ip_text ip))
      else seq (send_reply 8) (\<lambda>_. fail (UnsupportedAddress atyp)))"

definition port_of :: "bytes \<Rightarrow> 16 word" where
  "port_of bs = push_bit 8 (ucast (bs ! 0)) OR ucast (bs ! 1)"

definition read_request :: "string socks" where
  "read_request =
     seq (read_full 4) (\<lambda>buf.
       if buf ! 0 \<noteq> 5 then fail (BadRequestVersion (buf ! 0))
       else if buf ! 1 \<noteq> 1 then seq (send_reply 7) (\<lambda>_. fail (UnsupportedCommand (buf ! 1)))
       else seq (read_host (buf ! 3)) (\<lambda>host.
         seq (read_full 2) (\<lambda>port.
           give (join_host_port host (itoa (uint (port_of port)))))))"

datatype socks_end = NegotiateFailed socks_err | RequestFailed socks_err | DialFailed string | Relaying string

definition handle_conn :: "socks_server \<Rightarrow> (string \<Rightarrow> bool) \<Rightarrow> conn \<Rightarrow> socks_end \<times> conn" where
  "handle_conn s dial c =
     (case negotiate s c of
        (Inl e, c1) \<Rightarrow> (NegotiateFailed e, c1)
      | (Inr _, c1) \<Rightarrow>
          (case read_request c1 of
             (Inl e, c2) \<Rightarrow> (RequestFailed e, c2)
           | (Inr addr, c2) \<Rightarrow>
               if dial addr then (Relaying addr, snd (send_reply 0 c2))
               else (DialFailed addr, snd (send_reply 1 c2))))"

subsection \<open>What the handshake accepts\<close>

definition credentials :: "socks_server \<Rightarrow> bytes" where
  "credentials s =
     (if requires_auth s
      then [1, word_of_nat (length (ss_username s))] @ bytes_of (ss_username s)
           @ [word_of_nat (length (ss_password s))] @ bytes_of (ss_password s)
      else [])"

definition credentials_fit :: "socks_server \<Rightarrow> bool" where
  "credentials_fit s = (requires_auth s \<longrightarrow> length (ss_username s) < 256 \<and> length (ss_password s) < 256)"

definition auth_method :: "socks_server \<Rightarrow> 8 word" where
  "auth_method s = (if requires_auth s then 2 else 0)"

definition server_hello :: "socks_server \<Rightarrow> bytes" where
  "server_hello s = (if requires_auth s then [5, 2, 1, 0] else [5, 0])"

definition hello_writes :: "socks_server \<Rightarrow> nat" where
  "hello_writes s = (if requires_auth s then 2 else 1)"

lemma length_bytes_of [simp]: "length (bytes_of s) = length s"
  by (simp add: bytes_of_def)

lemma text_of_bytes_of [simp]: "text_of (bytes_of s) = s"
proof (induction s)
  case (Cons c s)
  have "char_of (unat (word_of_nat (char_val c) :: 8 word)) = c"
    using char_val_less [of c] by (simp add: unat_of_nat char_val_def)
  with Cons show ?case by (simp add: text_of_def bytes_of_def)
qed (simp add: text_of_def bytes_of_def)

lemma seq_Inr_iff:
  "(seq m f c = (Inr y, c2)) = (\<exists>x c1. m c = (Inr x, c1) \<and> f x c1 = (Inr y, c2))"
  by (auto simp: seq_def split: prod.splits sum.splits)

lemma seq_Inr: "m c = (Inr x, c1) \<Longrightarrow> seq m f c = f x c1"
  by (simp add: seq_def)

lemma read_full_iff:
  "(read_full n c = (Inr bs, c1)) =
     (\<exists>rest. length bs = n \<and> cn_in c = bs @ rest \<and> c1 = c\<lparr>cn_in := rest\<rparr>)"
proof
  assume "read_full n c = (Inr bs, c1)"
  then have "n \<le> length (cn_in c)" "bs = take n (cn_in c)" "c1 = c\<lparr>cn_in := drop n (cn_in c)\<rparr>"
    by (auto simp: read_full_def split: if_splits)
  then show "\<exists>rest. length bs = n \<and> cn_in c = bs @ rest \<and> c1 = c\<lparr>cn_in := rest\<rparr>"
    by (intro exI [of _ "drop n (cn_in c)"]) simp
next
  assume "\<exists>rest. length bs = n \<and> cn_in c = bs @ rest \<and> c1 = c\<lparr>cn_in := rest\<rparr>"
  then show "read_full n c = (Inr bs, c1)" by (auto simp: read_full_def)
qed

lemma word8_length: "length bs < 256 \<Longrightarrow> unat (word_of_nat (length bs) :: 8 word) = length bs"
  by (simp add: unat_of_nat)

lemma read_counted_iff:
  "(read_counted c = (Inr bs, c1)) =
     (\<exists>rest. length bs < 256 \<and> cn_in c = word_of_nat (length bs) # bs @ rest \<and> c1 = c\<lparr>cn_in := rest\<rparr>)"
proof
  assume "read_counted c = (Inr bs, c1)"
  then obtain n0 c0 where r: "read_full 1 c = (Inr n0, c0)" "read_full (unat (hd n0)) c0 = (Inr bs, c1)"
    by (auto simp: read_counted_def seq_Inr_iff)
  then obtain n where n: "n0 = [n]" unfolding read_full_iff by (cases n0) auto
  have "length bs = unat n" using r(2) n by (auto simp: read_full_iff)
  moreover from this have "word_of_nat (length bs) = n" "length bs < 256"
    using unsigned_less [where ?'b = 8 and ?'a = nat, of n] by simp_all
  ultimately show "\<exists>rest. length bs < 256 \<and> cn_in c = word_of_nat (length bs) # bs @ rest \<and> c1 = c\<lparr>cn_in := rest\<rparr>"
    using r n by (auto simp: read_full_iff)
next
  assume "\<exists>rest. length bs < 256 \<and> cn_in c = word_of_nat (length bs) # bs @ rest \<and> c1 = c\<lparr>cn_in := rest\<rparr>"
  then obtain rest where a: "length bs < 256" "cn_in c = word_of_nat (length bs) # bs @ rest" "c1 = c\<lparr>cn_in := rest\<rparr>"
    by blast
  then have "read_full 1 c = (Inr [word_of_nat (length bs)], c\<lparr>cn_in := bs @ rest\<rparr>)"
    by (auto simp: read_full_iff)
  moreover have "read_full (length bs) (c\<lparr>cn_in := bs @ rest\<rparr>) = (Inr bs, c1)"
    using a by (simp add: read_full_def)
  ultimately show "read_counted c = (Inr bs, c1)"
    using a by (simp add: read_counted_def seq_Inr word8_length)
qed

lemma write_bytes_iff:
  "(write_bytes bs c = (Inr u, c1)) =
     (0 < cn_writes c \<and> c1 = c\<lparr>cn_out := cn_out c @ bs, cn_writes := cn_writes c - 1\<rparr>)"
  by (auto simp: write_bytes_def split: nat.splits)

lemma fail_not_Inr [simp]: "fail e c \<noteq> (Inr x, c1)"
  by (simp add: fail_def)

lemma fail_after_not_Inr [simp]: "seq m (\<lambda>_. fail e) c \<noteq> (Inr x, c1)"
  by (simp add: seq_Inr_iff)

lemmas socks_iffs = seq_Inr_iff read_full_iff read_counted_iff write_bytes_iff

lemma one_byte: "(length bs = Suc 0 \<and> hd bs = b) = (bs = [b])"
  by (cases bs) auto

lemma two_bytes: "(length bs = 2 \<and> hd bs = a \<and> bs ! 1 = b) = (bs = [a, b])"
  by (cases bs; cases "tl bs") auto

lemma negotiate_user_pass_iff:
  "(negotiate_user_pass s methods c = (Inr u, c')) =
     (\<exists>rest. 2 \<in> set methods \<and> 2 \<le> cn_writes c \<and> length (ss_username s) < 256 \<and> length (ss_password s) < 256
      \<and> cn_in c = [1, word_of_nat (length (ss_username s))] @ bytes_of (ss_username s)
           @ [word_of_nat (length (ss_password s))] @ bytes_of (ss_password s) @ rest
      \<and> c' = c\<lparr>cn_in := rest, cn_out := cn_out c @ [5, 2, 1, 0], cn_writes := cn_writes c - 2\<rparr>)"
  (is "?run = ?spec")
proof
  assume ?run
  then obtain c1 c2 c3 c4 ver where
    m: "2 \<in> set methods" and s1: "write_bytes [5, 2] c = (Inr (), c1)"
    and s2: "read_full 1 c1 = (Inr ver, c2)" "hd ver = 1"
    and s3: "read_counted c2 = (Inr (bytes_of (ss_username s)), c3)"
    and s4: "read_counted c3 = (Inr (bytes_of (ss_password s)), c4)"
    and s5: "write_bytes [1, 0] c4 = (Inr u, c')"
    by (auto simp: negotiate_user_pass_def seq_Inr_iff split: if_splits)
  have v: "ver = [1]" using s2 unfolding read_full_iff by (cases ver) auto
  show ?spec using m s1 s2 s3 s4 s5 v by (auto simp: socks_iffs numeral_2_eq_2)
next
  assume ?spec
  then obtain rest where a: "2 \<in> set methods" "2 \<le> cn_writes c" "length (ss_username s) < 256"
    "length (ss_password s) < 256"
    "cn_in c = [1, word_of_nat (length (ss_username s))] @ bytes_of (ss_username s)
           @ [word_of_nat (length (ss_password s))] @ bytes_of (ss_password s) @ rest"
    "c' = c\<lparr>cn_in := rest, cn_out := cn_out c @ [5, 2, 1, 0], cn_writes := cn_writes c - 2\<rparr>" by blast
  let ?c1 = "c\<lparr>cn_out := cn_out c @ [5, 2], cn_writes := cn_writes c - Suc 0\<rparr>"
  have w1: "write_bytes [5, 2] c = (Inr (), ?c1)" using a by (simp add: write_bytes_iff)
  have r1: "read_full (Suc 0) ?c1 = (Inr [1], ?c1\<lparr>cn_in := tl (cn_in c)\<rparr>)" using a by (simp add: read_full_iff)
  let ?i3 = "[word_of_nat (length (ss_password s))] @ bytes_of (ss_password s) @ rest"
  have r2: "read_counted (?c1\<lparr>cn_in := tl (cn_in c)\<rparr>) = (Inr (bytes_of (ss_username s)), ?c1\<lparr>cn_in := ?i3\<rparr>)"
    using a by (simp add: read_counted_iff)
  have r3: "read_counted (?c1\<lparr>cn_in := ?i3\<rparr>) = (Inr (bytes_of (ss_password s)), ?c1\<lparr>cn_in := rest\<rparr>)"
    using a by (simp add: read_counted_iff)
  have w2: "write_bytes [1, 0] (?c1\<lparr>cn_in := rest\<rparr>) = (Inr u, c')"
    using a by (simp add: write_bytes_iff numeral_2_eq_2)
  show ?run
    using a(1) r1 r2 r3 w2 by (simp add: negotiate_user_pass_def seq_def w1)
qed

lemma socks_handshake_iff:
  "(negotiate s c = (Inr (), c')) =
     (\<exists>methods rest. length methods < 256 \<and> auth_method s \<in> set methods \<and> credentials_fit s
        \<and> hello_writes s \<le> cn_writes c
        \<and> cn_in c = [5, word_of_nat (length methods)] @ methods @ credentials s @ rest
        \<and> c' = c\<lparr>cn_in := rest, cn_out := cn_out c @ server_hello s, cn_writes := cn_writes c - hello_writes s\<rparr>)"
  (is "?run = ?spec")
proof
  assume ?run
  then obtain buf c1 methods c2 where
    b: "read_full 2 c = (Inr buf, c1)" "hd buf = 5" "read_full (unat (buf ! 1)) c1 = (Inr methods, c2)"
    and f: "(if requires_auth s then negotiate_user_pass s methods c2
             else if 0 \<in> set methods then write_bytes [5, 0] c2
             else seq (try_write [5, 255]) (\<lambda>_. fail NoAcceptableMethod) c2) = (Inr (), c')"
    by (auto simp: negotiate_def seq_Inr_iff split: if_splits)
  then have l: "length methods = unat (buf ! 1)" by (auto simp: read_full_iff)
  then have m: "length methods < 256" "buf ! 1 = word_of_nat (length methods)"
    using unsigned_less [where ?'b = 8 and ?'a = nat, of "buf ! 1"] by simp_all
  have buf: "buf = [5, word_of_nat (length methods)]"
    using b m(2) two_bytes [of buf 5] by (auto simp: read_full_iff)
  show ?spec
    using b buf f m(1)
    by (intro exI [of _ methods] exI [of _ "cn_in c'"])
      (auto simp: read_full_iff negotiate_user_pass_iff write_bytes_iff auth_method_def credentials_fit_def
        hello_writes_def credentials_def server_hello_def split: if_splits)
next
  assume ?spec
  then obtain methods rest where a: "length methods < 256" "auth_method s \<in> set methods" "credentials_fit s"
    "hello_writes s \<le> cn_writes c" "cn_in c = [5, word_of_nat (length methods)] @ methods @ credentials s @ rest"
    "c' = c\<lparr>cn_in := rest, cn_out := cn_out c @ server_hello s, cn_writes := cn_writes c - hello_writes s\<rparr>"
    by blast
  have r1: "read_full 2 c = (Inr [5, word_of_nat (length methods)], c\<lparr>cn_in := methods @ credentials s @ rest\<rparr>)"
    using a(5) by (simp add: read_full_iff)
  have r2: "read_full (length methods) (c\<lparr>cn_in := methods @ credentials s @ rest\<rparr>)
      = (Inr methods, c\<lparr>cn_in := credentials s @ rest\<rparr>)"
    by (simp add: read_full_iff)
  have n: "negotiate s c = (if requires_auth s then negotiate_user_pass s methods (c\<lparr>cn_in := credentials s @ rest\<rparr>)
      else write_bytes [5, 0] (c\<lparr>cn_in := credentials s @ rest\<rparr>))"
    using a(1,2) by (auto simp: negotiate_def seq_def r1 r2 word8_length auth_method_def split: if_splits)
  show ?run
    using a n by (auto simp: negotiate_user_pass_iff write_bytes_iff auth_method_def credentials_fit_def
        hello_writes_def credentials_def server_hello_def split: if_splits)
qed

text \<open>C8: the SOCKS handshake succeeds exactly when the client speaks version 5, offers the method
  the server asks for and, when credentials are set, sends those credentials and no others; it
  then has read exactly the handshake, and nothing of what follows it.\<close>

theorem socks_handshake_exact:
  "(negotiate s c = (Inr (), c')) =
     (\<exists>methods rest. length methods < 256 \<and> auth_method s \<in> set methods \<and> credentials_fit s
        \<and> hello_writes s \<le> cn_writes c
        \<and> cn_in c = [5, word_of_nat (length methods)] @ methods @ credentials s @ rest
        \<and> c' = c\<lparr>cn_in := rest, cn_out := cn_out c @ server_hello s, cn_writes := cn_writes c - hello_writes s\<rparr>)"
  by (rule socks_handshake_iff)

subsection \<open>What the text of an address means\<close>

text \<open>How a text names an address, independently of how the server writes it: four decimal numbers with
  dots between them; or the eight groups of an IPv6 address as hexadecimal numbers with colons between
  them, where one run of zero groups may be left out between two colons (RFC 4291).\<close>

definition names_byte :: "string \<Rightarrow> 8 word \<Rightarrow> bool" where
  "names_byte p b \<longleftrightarrow> p \<noteq> [] \<and> list_all is_digit p \<and> atoi p = Some (uint b)"

definition names_ip4 :: "string \<Rightarrow> bytes \<Rightarrow> bool" where
  "names_ip4 t bs \<longleftrightarrow> (\<exists>ps. t = join ''.'' ps \<and> length ps = 4 \<and> list_all2 names_byte ps bs)"

definition hex_value :: "char \<Rightarrow> nat" where
  "hex_value c = (if is_digit c then char_val c - 48 else char_val c - 87)"

definition is_hex :: "char \<Rightarrow> bool" where
  "is_hex c \<longleftrightarrow> is_digit c \<or> (97 \<le> char_val c \<and> char_val c \<le> 102)"

definition names_group :: "string \<Rightarrow> nat \<Rightarrow> bool" where
  "names_group p g \<longleftrightarrow> p \<noteq> [] \<and> length p \<le> 4 \<and> list_all is_hex p \<and> foldl (\<lambda>n c. 16 * n + hex_value c) 0 p = g"

definition group_values :: "bytes \<Rightarrow> nat list" where
  "group_values bs = map (\<lambda>i. 256 * unat (bs ! (2 * i)) + unat (bs ! (2 * i + 1))) [0..<8]"

definition names_ip6 :: "string \<Rightarrow> bytes \<Rightarrow> bool" where
  "names_ip6 t bs \<longleftrightarrow>
     (\<exists>ps. t = join '':'' ps \<and> list_all2 names_group ps (group_values bs))
     \<or> (\<exists>ps qs gs hs n. t = join '':'' ps @ ''::'' @ join '':'' qs \<and> 0 < n
          \<and> group_values bs = gs @ replicate n 0 @ hs \<and> list_all2 names_group ps gs \<and> list_all2 names_group qs hs)"

lemma names_byte_text: "names_byte (byte_text b) b"
proof -
  have "list_all is_digit (itoa (uint b))" "itoa (uint b) \<noteq> []" by (simp_all add: itoa_def nat_digits_all)
  moreover have "atoi (itoa (uint b)) = Some (uint b)"
  proof (rule atoi_itoa)
    show "- (2 ^ 63) \<le> uint b" by (rule order_trans [of _ 0]) simp_all
    have "uint b < 256" using uint_lt2p [of b] by simp
    then show "uint b < 2 ^ 63" by simp
  qed
  ultimately show ?thesis by (simp add: names_byte_def byte_text_def)
qed

lemma names_ip4_text:
  assumes "length bs = 4" shows "names_ip4 (ip4_text bs) bs"
  unfolding names_ip4_def ip4_text_def using assms
  by (intro exI [of _ "map byte_text bs"]) (simp add: list_all2_map1 list_all2_same names_byte_text)

lemma nibble: "unat (drop_bit k (w :: 16 word) AND 15) = unat w div 2 ^ k mod 16"
proof -
  have "drop_bit k w AND 15 = take_bit 4 (drop_bit k w)"
    by (simp add: take_bit_eq_mask mask_eq_exp_minus_1)
  moreover have "unat (take_bit 4 (drop_bit k w)) = take_bit 4 (drop_bit k (unat w))"
  proof -
    have "take_bit 16 (unat w) = unat w"
      using unsigned_less [where ?'b = 16 and ?'a = nat, of w] by (simp add: take_bit_nat_eq_self)
    then show ?thesis by (simp only: unsigned_take_bit_eq unsigned_drop_bit_eq) simp
  qed
  ultimately show ?thesis by (simp only: take_bit_eq_mod drop_bit_eq_div) simp
qed

lemma hex_char_value:
  assumes "d < 16" shows "hex_value (hex_char d) = d" "is_hex (hex_char d)"
  using assms by (auto simp: hex_char_def hex_value_def is_digit_def is_hex_def char_val_def of_char_of)

lemma hex_chars_value:
  "list_all (\<lambda>d. d < 16) ds \<Longrightarrow>
   foldl (\<lambda>n c. 16 * n + hex_value c) n (map hex_char ds) = foldl (\<lambda>n d. 16 * n + d) n ds"
  by (induction ds arbitrary: n) (auto simp: hex_char_value)

lemma drop_zeros_value:
  "foldl (\<lambda>n d. 16 * n + d) 0 (dropWhile (\<lambda>d. d = 0) ds) = foldl (\<lambda>n d. 16 * n + d) (0 :: nat) ds"
  by (induction ds) auto

lemma four_nibbles:
  assumes "n < 65536"
  shows "foldl (\<lambda>n d. 16 * n + d) 0 (map (\<lambda>i. n div 2 ^ (4 * i) mod 16) [3, 2, 1, 0]) = (n :: nat)"
proof -
  have "n div 4096 mod 16 = n div 4096" using assms by simp
  moreover have "16 * (n div 4096) + n div 256 mod 16 = n div 256" using div_mult2_eq [of n 256 16] by simp
  moreover have "16 * (n div 256) + n div 16 mod 16 = n div 16" using div_mult2_eq [of n 16 16] by simp
  moreover have "16 * (n div 16) + n mod 16 = n" by simp
  ultimately show ?thesis by simp
qed

lemma names_group_hex: "names_group (hex_group w) (unat w)"
proof -
  define ds where "ds = map (\<lambda>i. unat (drop_bit (4 * i) w AND 15)) [3, 2, 1, 0]"
  have small: "list_all (\<lambda>d. d < 16) ds" by (simp add: ds_def nibble)
  have u: "unat w < 65536" using unsigned_less [where ?'b = 16 and ?'a = nat, of w] by simp
  have value_ds: "foldl (\<lambda>n d. 16 * n + d) 0 ds = unat w"
    unfolding ds_def nibble using u by (rule four_nibbles)
  show ?thesis
  proof (cases "w = 0")
    case True
    then have "hex_group w = [hex_char 0]" by (simp add: hex_group_def)
    then show ?thesis using True hex_char_value [of 0] by (simp add: names_group_def)
  next
    case False
    let ?d = "dropWhile (\<lambda>d. d = 0) ds"
    have "hex_group w = map hex_char ?d" using False by (simp add: hex_group_def ds_def)
    moreover have "?d \<noteq> []"
    proof
      assume "?d = []"
      then have "foldl (\<lambda>n d. 16 * n + d) 0 ?d = 0" by (simp only: foldl.simps)
      then have "unat w = 0" using value_ds by (simp only: drop_zeros_value)
      then show False using False by (simp add: unsigned_eq_0_iff)
    qed
    moreover have sd: "list_all (\<lambda>d. d < 16) ?d" using small by (auto simp: list_all_iff dest: set_dropWhileD)
    moreover have "length ?d \<le> 4" using length_dropWhile_le [of "\<lambda>d. d = 0" ds] by (simp add: ds_def)
    moreover have "list_all is_hex (map hex_char ?d)" using sd hex_char_value by (auto simp: list_all_iff)
    ultimately show ?thesis
      using hex_chars_value [OF sd, of 0] drop_zeros_value [of ds] value_ds by (simp add: names_group_def)
  qed
qed

lemma group_value: "unat (push_bit 8 (ucast a) OR ucast b :: 16 word) = 256 * unat a + unat (b :: 8 word)"
  for a :: "8 word"
proof -
  have a: "unat a < 256" and b: "unat b < 256"
    using unsigned_less [where ?'b = 8 and ?'a = nat, of a] unsigned_less [where ?'b = 8 and ?'a = nat, of b] by simp_all
  have "(push_bit 8 (ucast a) AND ucast b :: 16 word) = 0"
  proof (rule bit_word_eqI)
    fix n
    have "\<not> bit b (n)" if "8 \<le> n" for n using that bit_imp_le_length [of b n] by auto
    then show "bit (push_bit 8 (ucast a) AND ucast b :: 16 word) n = bit (0 :: 16 word) n"
      by (auto simp: bit_simps)
  qed
  then have "(push_bit 8 (ucast a) OR ucast b :: 16 word) = push_bit 8 (ucast a) + ucast b"
    by (simp add: disjunctive_add_eq_or)
  moreover have "(push_bit 8 (ucast a) :: 16 word) = word_of_nat (256 * unat a)"
    by (simp add: push_bit_eq_mult mult.commute)
  moreover have "(ucast b :: 16 word) = word_of_nat (unat b)" by simp
  ultimately have "(push_bit 8 (ucast a) OR ucast b :: 16 word) = word_of_nat (256 * unat a + unat b)"
    by (simp only: of_nat_add)
  moreover have "unat (word_of_nat (256 * unat a + unat b) :: 16 word) = 256 * unat a + unat b"
    unfolding unat_of_nat using a b by simp
  ultimately show ?thesis by (simp only:)
qed

lemma groups_values:
  assumes "length bs = 16" shows "map unat (groups bs) = group_values bs"
proof -
  obtain a0 a1 a2 a3 a4 a5 a6 a7 a8 a9 b0 b1 b2 b3 b4 b5
    where bs: "bs = [a0, a1, a2, a3, a4, a5, a6, a7, a8, a9, b0, b1, b2, b3, b4, b5]"
    using assms by (auto simp: numeral_eq_Suc length_Suc_conv)
  show ?thesis unfolding bs group_values_def by (simp add: group_value upt_rec)
qed

lemma zero_run_zeros:
  "zero_run gs = (s, l) \<Longrightarrow> l = 0 \<or> (s + l \<le> length gs \<and> gs = take s gs @ replicate l 0 @ drop (s + l) gs)"
proof -
  let ?ok = "\<lambda>(s, l). l = 0 \<or> (s + l \<le> length gs \<and> take l (drop s gs) = replicate l 0)"
  have run: "?ok (foldl (\<lambda>(s, l) i. let n = length (takeWhile (\<lambda>g. g = 0) (drop i gs))
                       in if 2 \<le> n \<and> l < n then (i, n) else (s, l)) p is)" if "?ok p" for p "is"
    using that
  proof (induction "is" arbitrary: p)
    case (Cons i "is")
    obtain s l where p: "p = (s, l)" by (cases p)
    let ?n = "length (takeWhile (\<lambda>g. g = 0) (drop i gs))"
    have n: "?n \<le> length (drop i gs)" by (rule length_takeWhile_le)
    have "takeWhile (\<lambda>g. g = 0) (drop i gs) = take ?n (drop i gs)" by (rule takeWhile_eq_take)
    moreover have "takeWhile (\<lambda>g. g = 0) (drop i gs) = replicate ?n 0"
      by (rule replicate_eqI) (auto dest: set_takeWhileD)
    ultimately have "?ok (i, ?n)" using n by auto
    then show ?case using Cons p by (simp add: Let_def)
  qed simp
  assume z: "zero_run gs = (s, l)"
  have "?ok (zero_run gs)" unfolding zero_run_def by (rule run) simp
  then consider "l = 0" | "s + l \<le> length gs" "take l (drop s gs) = replicate l 0" unfolding z by auto
  then show ?thesis
  proof cases
    case 2
    have "gs = take s gs @ take l (drop s gs) @ drop l (drop s gs)" by (simp only: append_take_drop_id)
    then show ?thesis using 2 by (simp only: drop_drop add.commute) simp
  qed simp
qed

lemma names_groups: "list_all2 names_group (map hex_group gs) (map unat gs)"
  by (simp add: list_all2_map1 list_all2_map2 list_all2_same names_group_hex)

lemma names_ip6_text:
  assumes "length bs = 16" shows "names_ip6 (ip6_text bs) bs"
proof -
  obtain s l where z: "zero_run (groups bs) = (s, l)" by fastforce
  show ?thesis
  proof (cases "l = 0")
    case True
    then show ?thesis using z names_groups [of "groups bs"] groups_values [OF assms]
      by (auto simp: names_ip6_def ip6_text_def)
  next
    case False
    let ?g = "groups bs"
    have "?g = take s ?g @ replicate l 0 @ drop (s + l) ?g" using zero_run_zeros [OF z] False by simp
    then have "map unat ?g = map unat (take s ?g @ replicate l 0 @ drop (s + l) ?g)" by (rule arg_cong)
    then have "group_values bs = map unat (take s ?g) @ replicate l 0 @ map unat (drop (s + l) ?g)"
      using groups_values [OF assms] by (simp only: map_append map_replicate unsigned_0)
    then show ?thesis using z False names_groups
      unfolding names_ip6_def ip6_text_def Let_def z prod.case
      by (intro disjI2 exI [of _ "map hex_group (take s ?g)"] exI [of _ "map hex_group (drop (s + l) ?g)"]
          exI [of _ "map unat (take s ?g)"] exI [of _ "map unat (drop (s + l) ?g)"] exI [of _ l]) simp
  qed
qed

subsection \<open>A client and the server\<close>

text \<open>What a client that follows RFC 1928 and 1929 sends for a domain name or an address.\<close>

datatype host_request = Domain string | Ip4 bytes | Ip6 bytes

definition client_hello :: "socks_server \<Rightarrow> bytes" where
  "client_hello s = [5, 1, auth_method s] @ credentials s"

definition connect_request :: "host_request \<Rightarrow> 16 word \<Rightarrow> bytes" where
  "connect_request h port =
     [5, 1, 0] @ (case h of Domain d \<Rightarrow> [3, word_of_nat (length d)] @ bytes_of d | Ip4 ip \<Rightarrow> 1 # ip | Ip6 ip \<Rightarrow> 4 # ip)
       @ [ucast (drop_bit 8 port), ucast port]"

fun request_fits :: "host_request \<Rightarrow> bool" where
  "request_fits (Domain d) = (length d < 256)"
| "request_fits (Ip4 ip) = (length ip = 4)"
| "request_fits (Ip6 ip) = (length ip = 16)"

text \<open>The IPv6 address of an IPv4 host names that host.\<close>

fun names_host :: "string \<Rightarrow> host_request \<Rightarrow> bool" where
  "names_host t (Domain d) = (t = d)"
| "names_host t (Ip4 ip) = names_ip4 t ip"
| "names_host t (Ip6 ip) = (if take 12 ip = replicate 10 0 @ [255, 255] then names_ip4 t (drop 12 ip) else names_ip6 t ip)"

lemma port_of_parts: "port_of [ucast (drop_bit 8 p), ucast p] = p"
  by (rule bit_word_eqI) (auto simp: port_of_def bit_simps)

definition host_text :: "host_request \<Rightarrow> string" where
  "host_text h = (case h of Domain d \<Rightarrow> d | Ip4 ip \<Rightarrow> ip_text ip | Ip6 ip \<Rightarrow> ip_text ip)"

lemma host_text_names: "request_fits h \<Longrightarrow> names_host (host_text h) h"
  by (cases h) (simp_all add: host_text_def ip_text_def names_ip4_text names_ip6_text)

lemma read_request_host:
  assumes "request_fits h"
  shows "read_request (c\<lparr>cn_in := connect_request h port @ rest\<rparr>) =
    (Inr (join_host_port (host_text h) (itoa (uint port))), c\<lparr>cn_in := rest\<rparr>)"
proof -
  let ?ports = "[ucast (drop_bit 8 port), ucast port] :: bytes"
  obtain atyp body where b: "connect_request h port = [5, 1, 0, atyp] @ body @ ?ports"
    and t: "(\<exists>d. h = Domain d \<and> atyp = 3 \<and> body = word_of_nat (length d) # bytes_of d \<and> length d < 256)
      \<or> (h = Ip4 body \<and> atyp = 1 \<and> length body = 4) \<or> (h = Ip6 body \<and> atyp = 4 \<and> length body = 16)"
    using assms that by (cases h) (auto simp: connect_request_def)
  have r1: "read_full 4 (c\<lparr>cn_in := connect_request h port @ rest\<rparr>)
      = (Inr [5, 1, 0, atyp], c\<lparr>cn_in := body @ ?ports @ rest\<rparr>)"
    by (simp add: read_full_iff b)
  have r2: "read_host atyp (c\<lparr>cn_in := body @ ?ports @ rest\<rparr>) = (Inr (host_text h), c\<lparr>cn_in := ?ports @ rest\<rparr>)"
    using t
  proof (elim disjE conjE exE)
    fix d assume d: "h = Domain d" "atyp = 3" "body = word_of_nat (length d) # bytes_of d" "length d < 256"
    have "read_counted (c\<lparr>cn_in := body @ ?ports @ rest\<rparr>) = (Inr (bytes_of d), c\<lparr>cn_in := ?ports @ rest\<rparr>)"
      using d(4) by (simp add: read_counted_iff d(3))
    then show ?thesis using d(1,2) by (simp add: read_host_def seq_def give_def host_text_def)
  qed (simp_all add: read_host_def seq_def give_def host_text_def read_full_def)
  have r3: "read_full 2 (c\<lparr>cn_in := ?ports @ rest\<rparr>) = (Inr ?ports, c\<lparr>cn_in := rest\<rparr>)"
    by (simp add: read_full_iff)
  show ?thesis
    using r2 r3 port_of_parts [of port] by (simp add: read_request_def seq_def r1 give_def)
qed

text \<open>C35: a client is connected to what it asked for.  After the client's hello and a CONNECT to a
  domain name, an IPv4 address or an IPv6 address, the server dials that port of a host whose text is
  the domain name or names exactly the bytes of the address, answers with success or general failure
  as the dialling went, and leaves every later byte to the relay.  The credentials are those of the
  server, when it has any, and of at most 255 bytes each; a domain name has at most 255 bytes.\<close>

theorem socks_round_trip:
  assumes "credentials_fit s" "request_fits h" "hello_writes s < w"
  shows "\<exists>host addr. names_host host h \<and> addr = join_host_port host (itoa (uint port))
    \<and> handle_conn s dial \<lparr>cn_in = client_hello s @ connect_request h port @ payload, cn_out = [], cn_writes = w\<rparr> =
    (if dial addr then Relaying addr else DialFailed addr,
     \<lparr>cn_in = payload,
      cn_out = server_hello s @ [5, if dial addr then 0 else 1, 0, 1, 0, 0, 0, 0, 0, 0],
      cn_writes = w - hello_writes s - 1\<rparr>)"
proof -
  define addr where "addr = join_host_port (host_text h) (itoa (uint port))"
  let ?c = "\<lparr>cn_in = client_hello s @ connect_request h port @ payload, cn_out = [], cn_writes = w\<rparr>"
  let ?c1 = "\<lparr>cn_in = connect_request h port @ payload, cn_out = server_hello s, cn_writes = w - hello_writes s\<rparr>"
  have "negotiate s ?c = (Inr (), ?c1)"
    unfolding socks_handshake_iff
    using assms(1,3)
    by (intro exI [of _ "[auth_method s]"] exI [of _ "connect_request h port @ payload"]) (simp add: client_hello_def)
  moreover have "read_request ?c1 = (Inr addr, ?c1\<lparr>cn_in := payload\<rparr>)"
    using read_request_host [OF assms(2), where c = ?c1 and port = port and rest = payload] by (simp add: addr_def)
  ultimately have "handle_conn s dial ?c =
    (if dial addr then Relaying addr else DialFailed addr,
     \<lparr>cn_in = payload,
      cn_out = server_hello s @ [5, if dial addr then 0 else 1, 0, 1, 0, 0, 0, 0, 0, 0],
      cn_writes = w - hello_writes s - 1\<rparr>)"
    using assms(3) by (auto simp: handle_conn_def send_reply_def try_write_def write_bytes_def split: nat.split)
  then show ?thesis using host_text_names [OF assms(2)] addr_def by blast
qed

theorem socks_round_trip_witness:
  "fst (handle_conn \<lparr>ss_username = ''u'', ss_password = ''p''\<rparr> (\<lambda>_. True)
     \<lparr>cn_in = [5, 1, 2, 1, 1, 117, 1, 112, 5, 1, 0, 3, 3, 119, 101, 98, 0, 80, 71], cn_out = [], cn_writes = 3\<rparr>)
     = Relaying ''web:80''"
proof -
  let ?s = "\<lparr>ss_username = ''u'', ss_password = ''p''\<rparr>"
  have i: "client_hello ?s @ connect_request (Domain ''web'') 80 @ [71] = [5, 1, 2, 1, 1, 117, 1, 112, 5, 1, 0, 3, 3, 119, 101, 98, 0, 80, 71]"
    by (simp add: client_hello_def credentials_def requires_auth_def auth_method_def connect_request_def bytes_of_def char_val_def)
  have f: "credentials_fit ?s" "hello_writes ?s < 3" "request_fits (Domain ''web'')"
    by (simp_all add: credentials_fit_def hello_writes_def)
  have j: "join_host_port ''web'' (itoa (uint (80 :: 16 word))) = ''web:80''"
    by code_simp
  show ?thesis
    using socks_round_trip [OF f(1,3,2), of 80 "\<lambda>_. True" "[71]"] i j by simp
qed

end
