(* ===== verification/HttpProxy.thy ===== *)
theory HttpProxy
  imports Paths
begin

text \<open>
  The HTTP proxy (\<^verbatim>\<open>pkg/proxy/httpproxy.go\<close>): basic authentication, CONNECT tunnels, and the
  forwarding of plain requests over a connection that is kept alive.  The parsing and printing of
  HTTP messages is the standard library's: a request is the record it parses to.  The base64
  decoding of the credentials is written out.
\<close>

subsection \<open>Base64\<close>

definition b64_alphabet :: string where
  "b64_alphabet = ''ABCDEFGHIJKLMNOPQRSTUVWXYZabcdefghijklmnopqrstuvwxyz0123456789+/''"

definition b64_char :: "nat \<Rightarrow> char" where
  "b64_char n = b64_alphabet ! n"

definition b64_val :: "char \<Rightarrow> nat option" where
  "b64_val c = map_of (zip b64_alphabet [0..<64]) c"

text \<open>The bytes of a quantum of two, three or four digits; surplus bits are ignored.\<close>

definition b64_bytes :: "nat list \<Rightarrow> string" where
  "b64_bytes ds =
     (case ds of
        [a, b] \<Rightarrow> [char_of (a * 4 + b div 16)]
      | [a, b, c] \<Rightarrow> [char_of (a * 4 + b div 16), char_of (b mod 16 * 16 + c div 4)]
      | [a, b, c, d] \<Rightarrow>
          [char_of (a * 4 + b div 16), char_of (b mod 16 * 16 + c div 4), char_of (c mod 4 * 64 + d)]
      | _ \<Rightarrow> [])"

definition b64_quantum :: "char list \<Rightarrow> string option" where
  "b64_quantum cs = map_option b64_bytes (those (map b64_val cs))"

fun b64_quanta :: "string \<Rightarrow> string option" where
  "b64_quanta [] = Some []"
| "b64_quanta [a, b, c, d] =
     (if d = CHR ''='' then b64_quantum (if c = CHR ''='' then [a, b] else [a, b, c])
      else b64_quantum [a, b, c, d])"
| "b64_quanta (a # b # c # d # cs) =
     (case b64_quantum [a, b, c, d] of
        None \<Rightarrow> None
      | Some x \<Rightarrow> map_option (\<lambda>y. x @ y) (b64_quanta cs))"
| "b64_quanta _ = None"

text \<open>\<^verbatim>\<open>base64.StdEncoding.DecodeString\<close>, which skips line ends.\<close>

definition b64_decode :: "string \<Rightarrow> string option" where
  "b64_decode s = b64_quanta (filter (\<lambda>c. char_val c \<noteq> 10 \<and> char_val c \<noteq> 13) s)"

text \<open>The encoding a client uses.\<close>

fun b64_encode :: "string \<Rightarrow> string" where
  "b64_encode [] = []"
| "b64_encode [x] =
     [b64_char (char_val x div 4), b64_char (char_val x mod 4 * 16), CHR ''='', CHR ''='']"
| "b64_encode [x, y] =
     [b64_char (char_val x div 4), b64_char (char_val x mod 4 * 16 + char_val y div 16),
      b64_char (char_val y mod 16 * 4), CHR ''='']"
| "b64_encode (x # y # z # s) =
     [b64_char (char_val x div 4), b64_char (char_val x mod 4 * 16 + char_val y div 16),
      b64_char (char_val y mod 16 * 4 + char_val z div 64), b64_char (char_val z mod 64)] @ b64_encode s"

subsection \<open>Requests\<close>

record http_request =
  hr_method :: string
  hr_host :: string
  hr_headers :: "(string, string list) gomap"
  hr_url :: string
  hr_uri :: string
  hr_close :: bool

definition header_get :: "string \<Rightarrow> http_request \<Rightarrow> string" where
  "header_get k r = (case gget0 [] (hr_headers r) k of [] \<Rightarrow> [] | v # _ \<Rightarrow> v)"

record http_server =
  hs_username :: string
  hs_password :: string

definition http_requires_auth :: "http_server \<Rightarrow> bool" where
  "http_requires_auth s = (hs_username s \<noteq> [] \<or> hs_password s \<noteq> [])"

definition check_auth :: "http_server \<Rightarrow> http_request \<Rightarrow> bool" where
  "check_auth s r =
     (let auth = header_get ''Proxy-Authorization'' r
      in if auth = [] then False
         else if \<not> has_prefix auth ''Basic '' then False
         else (case b64_decode (trim_prefix auth ''Basic '') of
                 None \<Rightarrow> False
               | Some decoded \<Rightarrow>
                   (case cut decoded '':'' of
                      None \<Rightarrow> False
                    | Some (user, pass) \<Rightarrow> user = hs_username s \<and> pass = hs_password s)))"

subsection \<open>Forwarding\<close>

definition forward_addr :: "http_request \<Rightarrow> string" where
  "forward_addr r = (if contains (hr_host r) '':'' then hr_host r else hr_host r @ '':80'')"

text \<open>The request that is written upstream.\<close>

definition strip_proxy_headers :: "http_request \<Rightarrow> http_request" where
  "strip_proxy_headers r =
     r\<lparr>hr_headers := gdel ''Proxy-Connection'' (gdel ''Proxy-Authorization'' (hr_headers r)), hr_uri := hr_url r\<rparr>"

text \<open>How one exchange with the upstream server and the client went: whether the request could be
  written, the response's status and whether it closes the connection, whether the response
  could be written, and the next request, if one could be read.\<close>

record exchange =
  ex_request_written :: bool
  ex_response :: "(int \<times> bool) option"
  ex_response_written :: bool
  ex_next :: "http_request option"

datatype http_end =
    RequestWriteFailed
  | ResponseReadFailed
  | ResponseWriteFailed
  | ConnectionClosed
  | NoNextRequest
  | HostChanged string
  | StillOpen

text \<open>The loop: the requests sent upstream, the statuses sent to the client, and how it ended.\<close>

fun http_loop :: "string \<Rightarrow> http_request \<Rightarrow> exchange list \<Rightarrow> http_request list \<times> int list \<times> http_end" where
  "http_loop addr r [] = ([], [], StillOpen)"
| "http_loop addr r (x # xs) =
     (if \<not> ex_request_written x then ([], [], RequestWriteFailed)
      else (case ex_response x of
              None \<Rightarrow> ([strip_proxy_headers r], [], ResponseReadFailed)
            | Some (code, closes) \<Rightarrow>
                if \<not> ex_response_written x then ([strip_proxy_headers r], [], ResponseWriteFailed)
                else if hr_close r \<or> closes then ([strip_proxy_headers r], [code], ConnectionClosed)
                else (case ex_next x of
                        None \<Rightarrow> ([strip_proxy_headers r], [code], NoNextRequest)
                      | Some r1 \<Rightarrow>
                          if forward_addr r1 \<noteq> addr
                          then ([strip_proxy_headers r], [code, 400], HostChanged (forward_addr r1))
                          else (case http_loop addr r1 xs of
                                  (fwd, codes, e) \<Rightarrow> (strip_proxy_headers r # fwd, code # codes, e)))))"

datatype http_outcome =
    BadRequest
  | AuthRequired
  | BadGateway string
  | Tunnel string
  | Forwarded string "http_request list" "int list" http_end

definition handle_http_conn ::
    "http_server \<Rightarrow> (string \<Rightarrow> bool) \<Rightarrow> http_request option \<Rightarrow> exchange list \<Rightarrow> http_outcome" where
  "handle_http_conn s dial first xs =
     (case first of
        None \<Rightarrow> BadRequest
      | Some r \<Rightarrow>
          if http_requires_auth s \<and> \<not> check_auth s r then AuthRequired
          else if hr_method r = ''CONNECT''
          then (if dial (hr_host r) then Tunnel (hr_host r) else BadGateway (hr_host r))
          else if dial (forward_addr r)
          then (case http_loop (forward_addr r) r xs of
                  (fwd, codes, e) \<Rightarrow> Forwarded (forward_addr r) fwd codes e)
          else BadGateway (forward_addr r))"

subsection \<open>Base64 is read back\<close>

lemma b64_alphabet_length: "length b64_alphabet = 64"
  by (simp add: b64_alphabet_def)

lemma b64_val_char: "n < 64 \<Longrightarrow> b64_val (b64_char n) = Some n"
proof -
  assume n: "n < 64"
  have d: "distinct b64_alphabet" by code_simp
  show ?thesis
    using n d map_of_zip_nth [of b64_alphabet "[0..<64]" n] b64_alphabet_length
    by (simp add: b64_val_def b64_char_def)
qed

lemma b64_char_clean:
  "n < 64 \<Longrightarrow> b64_char n \<noteq> CHR ''='' \<and> char_val (b64_char n) \<noteq> 10 \<and> char_val (b64_char n) \<noteq> 13"
proof -
  assume n: "n < 64"
  have "list_all (\<lambda>c. c \<noteq> CHR ''='' \<and> char_val c \<noteq> 10 \<and> char_val c \<noteq> 13) b64_alphabet" by code_simp
  moreover have "b64_char n \<in> set b64_alphabet"
    unfolding b64_char_def using n b64_alphabet_length by (intro nth_mem) simp
  ultimately show ?thesis by (simp add: list_all_iff)
qed

lemma char_of_val [simp]: "char_of (char_val c) = c"
  by (simp add: char_val_def)

lemma first_byte: "x div 4 * 4 + (x mod 4 * 16 + y div 16) div 16 = (x :: nat)" if "y < 256"
proof -
  have "(x mod 4 * 16 + y div 16) div 16 = x mod 4" using that by simp
  then show ?thesis by simp
qed

lemma second_byte: "(x mod 4 * 16 + y div 16) mod 16 * 16 + (y mod 16 * 4 + z div 64) div 4 = (y :: nat)"
  if "y < 256" "z < 256"
proof -
  have "(x mod 4 * 16 + y div 16) mod 16 = y div 16" "(y mod 16 * 4 + z div 64) div 4 = y mod 16"
    using that by simp_all
  then show ?thesis by simp
qed

lemma third_byte: "(y mod 16 * 4 + z div 64) mod 4 * 64 + z mod 64 = (z :: nat)" if "z < 256"
proof -
  have "(y mod 16 * 4 + z div 64) mod 4 = z div 64" using that by simp
  then show ?thesis by simp
qed

lemma digit_ranges:
  assumes "x < 256" "y < 256" "z < 256"
  shows "x div 4 < 64" "x mod 4 * 16 + y div 16 < (64 :: nat)" "y mod 16 * 4 + z div 64 < (64 :: nat)"
    "x mod 4 * 16 < (64 :: nat)" "y mod 16 * 4 < (64 :: nat)"
proof -
  have "x mod 4 < 4" "y mod 16 < 16" "y div 16 < 16" "z div 64 < 4" using assms by simp_all
  then show "x div 4 < 64" "x mod 4 * 16 + y div 16 < (64 :: nat)" "y mod 16 * 4 + z div 64 < (64 :: nat)"
    "x mod 4 * 16 < (64 :: nat)" "y mod 16 * 4 < (64 :: nat)" using assms by linarith+
qed

lemmas b64_ranges = digit_ranges [OF char_val_less char_val_less char_val_less]

lemma char_parts:
  "char_val y div 16 div 16 = 0" "char_val y div 16 mod 16 = char_val y div 16"
  "char_val y div 64 div 4 = 0" "char_val y div 64 mod 4 = char_val y div 64"
proof -
  have "char_val y div 16 < 16" "char_val y div 64 < 4" using char_val_less [of y] by linarith+
  then show "char_val y div 16 div 16 = 0" "char_val y div 16 mod 16 = char_val y div 16"
    "char_val y div 64 div 4 = 0" "char_val y div 64 mod 4 = char_val y div 64" by simp_all
qed

lemma b64_three:
  "b64_quantum [b64_char (char_val x div 4), b64_char (char_val x mod 4 * 16 + char_val y div 16),
      b64_char (char_val y mod 16 * 4 + char_val z div 64), b64_char (char_val z mod 64)] = Some [x, y, z]"
  by (simp add: b64_ranges b64_quantum_def b64_val_char b64_bytes_def first_byte second_byte third_byte char_parts)

lemma b64_two:
  "b64_quantum [b64_char (char_val x div 4), b64_char (char_val x mod 4 * 16 + char_val y div 16),
      b64_char (char_val y mod 16 * 4)] = Some [x, y]"
  using b64_ranges second_byte [of "char_val y" 0 "char_val x"]
  by (simp add: b64_quantum_def b64_val_char b64_bytes_def first_byte)

lemma b64_one:
  "b64_quantum [b64_char (char_val x div 4), b64_char (char_val x mod 4 * 16)] = Some [x]"
  using b64_ranges first_byte [of 0 "char_val x"]
  by (simp add: b64_quantum_def b64_val_char b64_bytes_def)

lemma b64_quanta_more: "cs \<noteq> [] \<Longrightarrow> b64_quanta (a # b # c # d # cs) =
     (case b64_quantum [a, b, c, d] of
        None \<Rightarrow> None
      | Some x \<Rightarrow> map_option (\<lambda>y. x @ y) (b64_quanta cs))"
  by (cases cs) (simp_all split: option.split)

lemma b64_encode_empty [simp]: "(b64_encode s = []) = (s = [])"
  by (cases s rule: b64_encode.cases) simp_all

lemma b64_quanta_encode: "b64_quanta (b64_encode s) = Some s"
proof (induction s rule: b64_encode.induct)
  case (2 x)
  then show ?case using b64_one [of x] by simp
next
  case (3 x y)
  then show ?case using b64_two [of x y] b64_char_clean by (simp add: b64_ranges)
next
  case (4 x y z s)
  show ?case
  proof (cases "s = []")
    case True
    then show ?thesis using b64_three [of x y z] b64_char_clean by (simp add: b64_ranges)
  next
    case False
    then show ?thesis using 4 b64_three [of x y z] by (simp add: b64_quanta_more del: b64_quanta.simps(2,3))
  qed
qed simp

lemma b64_encode_clean: "filter (\<lambda>c. char_val c \<noteq> 10 \<and> char_val c \<noteq> 13) (b64_encode s) = b64_encode s"
proof (induction s rule: b64_encode.induct)
  case (2 x)
  have "char_val (CHR ''='') = 61" by code_simp
  then show ?case using b64_char_clean by (simp add: b64_ranges)
next
  case (3 x y)
  have "char_val (CHR ''='') = 61" by code_simp
  then show ?case using b64_char_clean by (simp add: b64_ranges)
next
  case (4 x y z s)
  then show ?case using b64_char_clean by (simp add: b64_ranges)
qed simp

lemma b64_round_trip: "b64_decode (b64_encode s) = Some s"
  by (simp add: b64_decode_def b64_encode_clean b64_quanta_encode)

subsection \<open>Who is let in\<close>

lemma index_of_first: "index_of d [c] = Some i \<Longrightarrow> c \<notin> set (take i d)"
  by (induction d arbitrary: i) (auto split: if_splits option.splits)

lemma cut_colon: "(cut d '':'' = Some (u, p)) = (d = u @ '':'' @ p \<and> CHR '':'' \<notin> set u)"
proof
  assume a: "cut d '':'' = Some (u, p)"
  then obtain i where "index_of d '':'' = Some i" "u = take i d" by (auto simp: cut_def split: option.splits)
  then have "CHR '':'' \<notin> set u" by (simp only: index_of_first not_False_eq_True)
  with cut_parts [OF a] show "d = u @ '':'' @ p \<and> CHR '':'' \<notin> set u" by (intro conjI)
next
  assume "d = u @ '':'' @ p \<and> CHR '':'' \<notin> set u"
  then show "cut d '':'' = Some (u, p)" by simp
qed

lemma check_auth_iff:
  "check_auth s r =
     (\<exists>enc. header_get ''Proxy-Authorization'' r = ''Basic '' @ enc
        \<and> b64_decode enc = Some (hs_username s @ '':'' @ hs_password s) \<and> CHR '':'' \<notin> set (hs_username s))"
proof (cases "has_prefix (header_get ''Proxy-Authorization'' r) ''Basic ''")
  case True
  then obtain enc where e: "header_get ''Proxy-Authorization'' r = ''Basic '' @ enc" by (auto simp: has_prefix_iff)
  have t: "trim_prefix (''Basic '' @ enc) ''Basic '' = enc" by (rule trim_prefix_append)
  have c: "(case cut d '':'' of None \<Rightarrow> False | Some (u, p) \<Rightarrow> u = a \<and> p = b) = (cut d '':'' = Some (a, b))" for d a b
    by (auto split: option.splits)
  show ?thesis
    unfolding check_auth_def Let_def e t c cut_colon by (auto split: option.splits)
next
  case False
  then show ?thesis by (auto simp: check_auth_def Let_def)
qed

text \<open>C30: the HTTP proxy asks for authentication exactly when credentials are set and the request's
  header does not decode to them; a client that sends the right credentials is refused exactly
  when the configured user name contains a colon.\<close>

theorem http_auth_exact:
  "(handle_http_conn s dial (Some r) xs = AuthRequired) =
     (http_requires_auth s \<and>
      \<not> (\<exists>enc. header_get ''Proxy-Authorization'' r = ''Basic '' @ enc
           \<and> b64_decode enc = Some (hs_username s @ '':'' @ hs_password s) \<and> CHR '':'' \<notin> set (hs_username s)))
   \<and> (handle_http_conn s dial (Some (r\<lparr>hr_headers := [(''Proxy-Authorization'',
            [''Basic '' @ b64_encode (hs_username s @ '':'' @ hs_password s)])]\<rparr>)) xs = AuthRequired) =
     (http_requires_auth s \<and> CHR '':'' \<in> set (hs_username s))"
proof -
  have outcome: "(handle_http_conn s dial (Some q) xs = AuthRequired) = (http_requires_auth s \<and> \<not> check_auth s q)" for q
    by (auto simp: handle_http_conn_def split: prod.splits)
  have "check_auth s (r\<lparr>hr_headers := [(''Proxy-Authorization'',
            [''Basic '' @ b64_encode (hs_username s @ '':'' @ hs_password s)])]\<rparr>) = (CHR '':'' \<notin> set (hs_username s))"
    unfolding check_auth_iff by (simp add: header_get_def gget0_def b64_round_trip)
  then show ?thesis unfolding outcome by (simp add: check_auth_iff)
qed

lemma http_loop_sound:
  assumes "http_loop addr r xs = (fwd, codes, e)" "forward_addr r = addr"
  shows "list_all (\<lambda>q. gget (hr_headers q) ''Proxy-Authorization'' = None
      \<and> gget (hr_headers q) ''Proxy-Connection'' = None \<and> forward_addr q = addr) fwd
    \<and> length fwd \<le> length xs \<and> length codes \<le> Suc (length fwd)"
  using assms
proof (induction addr r xs arbitrary: fwd codes e rule: http_loop.induct)
  case (2 addr r x xs)
  have s: "gget (hr_headers (strip_proxy_headers r)) ''Proxy-Authorization'' = None"
    "gget (hr_headers (strip_proxy_headers r)) ''Proxy-Connection'' = None"
    "forward_addr (strip_proxy_headers r) = addr"
    using 2(3) by (simp_all add: strip_proxy_headers_def forward_addr_def split: if_splits)
  show ?case
    using 2 s by (auto simp: strip_proxy_headers_def split: if_splits option.splits prod.splits)
qed simp

text \<open>C40: whatever the client and the upstream server do, requests are forwarded only after a first
  one that, when credentials are set, carries exactly them in its header; that request is the first to
  be written upstream, every request the proxy writes upstream goes to the host of that one and
  carries no proxy credentials, and each costs one exchange.\<close>

theorem http_forwarding_sound:
  assumes "handle_http_conn s dial (Some r) xs = Forwarded addr fwd codes e"
  shows "(hs_username s \<noteq> [] \<or> hs_password s \<noteq> [] \<longrightarrow>
        (\<exists>enc. header_get ''Proxy-Authorization'' r = ''Basic '' @ enc
          \<and> b64_decode enc = Some (hs_username s @ '':'' @ hs_password s)))
    \<and> addr = forward_addr r \<and> dial addr
    \<and> (fwd = [] \<or> hd fwd = strip_proxy_headers r)
    \<and> list_all (\<lambda>q. gget (hr_headers q) ''Proxy-Authorization'' = None
         \<and> gget (hr_headers q) ''Proxy-Connection'' = None \<and> forward_addr q = addr) fwd
    \<and> length fwd \<le> length xs"
proof -
  have l: "http_loop (forward_addr r) r xs = (fwd, codes, e)" "addr = forward_addr r" "dial addr"
    and a: "\<not> (http_requires_auth s \<and> \<not> check_auth s r)"
    using assms by (auto simp: handle_http_conn_def split: if_splits prod.splits)
  have "fwd = [] \<or> hd fwd = strip_proxy_headers r"
    using l(1) by (cases xs) (auto split: if_splits option.splits prod.splits)
  moreover have "hs_username s \<noteq> [] \<or> hs_password s \<noteq> [] \<longrightarrow>
        (\<exists>enc. header_get ''Proxy-Authorization'' r = ''Basic '' @ enc
          \<and> b64_decode enc = Some (hs_username s @ '':'' @ hs_password s))"
    using a check_auth_iff [of s r] by (auto simp: http_requires_auth_def)
  ultimately show ?thesis using http_loop_sound [OF l(1) refl] l(2,3) by simp
qed

definition example_request :: http_request where
  "example_request = \<lparr>hr_method = ''GET'', hr_host = ''web'',
     hr_headers = [(''Proxy-Authorization'', [''Basic dTpw'']), (''Accept'', [''*/*''])],
     hr_url = ''/'', hr_uri = ''http://web/'', hr_close = False\<rparr>"

theorem http_forwarding_sound_witness:
  "\<exists>q codes e. handle_http_conn \<lparr>hs_username = ''u'', hs_password = ''p''\<rparr> (\<lambda>_. True) (Some example_request)
       [\<lparr>ex_request_written = True, ex_response = Some (200, True), ex_response_written = True, ex_next = None\<rparr>]
     = Forwarded ''web:80'' [q] codes e \<and> gget (hr_headers q) ''Proxy-Authorization'' = None"
proof -
  have run: "handle_http_conn \<lparr>hs_username = ''u'', hs_password = ''p''\<rparr> (\<lambda>_. True) (Some example_request)
       [\<lparr>ex_request_written = True, ex_response = Some (200, True), ex_response_written = True, ex_next = None\<rparr>]
     = Forwarded ''web:80'' [strip_proxy_headers example_request] [200] ConnectionClosed"
    by code_simp
  from http_forwarding_sound [OF this] run show ?thesis by simp
qed

end
