(* ===== verification/Update.thy ===== *)
theory Update
  imports Files
begin

text \<open>
  Self update (\<^verbatim>\<open>internal/update/update.go\<close>, \<^verbatim>\<open>github.go\<close>, \<^verbatim>\<open>internal/cli/cmd_update.go\<close>): versions and
  their order, the release provider with its URLs and checksum file, and the replacement of the
  executable.  Parameters are the answers of the HTTP server, the hash function, the decoding of
  the archive, and which file operations fail.
\<close>

subsection \<open>Versions\<close>

text \<open>The digits of \<^verbatim>\<open>fmt.Sscanf(s, "%d", &v)\<close>; \<open>None\<close> is an error, which leaves the variable at 0.\<close>

fun skip_space :: "string \<Rightarrow> string option" where
  "skip_space [] = Some []"
| "skip_space (c # s) =
     (if c = CHR 0x0D \<and> take 1 s = [CHR 0x0A] then skip_space s
      else if c = CHR 0x0A then None
      else if is_space c then skip_space s
      else Some (c # s))"

definition scan_int :: "string \<Rightarrow> int option" where
  "scan_int s =
     (case skip_space s of
        None \<Rightarrow> None
      | Some t \<Rightarrow>
          (let sign = takeWhile (\<lambda>c. c = CHR ''-'' \<or> c = CHR ''+'') (take 1 t)
           in atoi (sign @ takeWhile is_digit (drop (length sign) t))))"

record version =
  ver_major :: int
  ver_minor :: int
  ver_patch :: int
  ver_prefix :: string
  ver_raw :: string

definition scanned :: "string \<Rightarrow> int" where
  "scanned s = (case scan_int s of None \<Rightarrow> 0 | Some n \<Rightarrow> n)"

definition parse_version :: "string \<Rightarrow> version" where
  "parse_version s =
     (let t = trim_prefix s ''v'';
          parts = split_char_n (CHR ''-'') 2 t;
          segs = split_char (CHR ''.'') (hd parts);
          v = \<lparr>ver_major = 0, ver_minor = 0, ver_patch = 0, ver_prefix = [], ver_raw = s\<rparr>;
          v1 = (if 3 \<le> length segs
                then v\<lparr>ver_major := scanned (segs ! 0), ver_minor := scanned (segs ! 1), ver_patch := scanned (segs ! 2)\<rparr>
                else v)
      in if 1 < length parts then v1\<lparr>ver_prefix := parts ! 1\<rparr> else v1)"

definition is_newer :: "version \<Rightarrow> version \<Rightarrow> bool" where
  "is_newer current latest =
     (if ver_major latest \<noteq> ver_major current then ver_major current < ver_major latest
      else if ver_minor latest \<noteq> ver_minor current then ver_minor current < ver_minor latest
      else ver_patch current < ver_patch latest)"

text \<open>The order it is meant to be: that of the three numbers.\<close>

datatype semver = Semver int int int

instantiation semver :: linorder
begin

fun less_semver :: "semver \<Rightarrow> semver \<Rightarrow> bool" where
  "less_semver (Semver a b c) (Semver x y z) \<longleftrightarrow> a < x \<or> (a = x \<and> (b < y \<or> (b = y \<and> c < z)))"

definition less_eq_semver :: "semver \<Rightarrow> semver \<Rightarrow> bool" where
  "less_eq_semver v w \<longleftrightarrow> v < w \<or> v = w"

instance
proof
  fix u v w :: semver
  show "v < w \<longleftrightarrow> v \<le> w \<and> \<not> w \<le> v" by (cases v; cases w) (auto simp: less_eq_semver_def)
  show "v \<le> v" by (simp add: less_eq_semver_def)
  show "u \<le> v \<Longrightarrow> v \<le> w \<Longrightarrow> u \<le> w" by (cases u; cases v; cases w) (auto simp: less_eq_semver_def)
  show "v \<le> w \<Longrightarrow> w \<le> v \<Longrightarrow> v = w" by (cases v; cases w) (auto simp: less_eq_semver_def)
  show "v \<le> w \<or> w \<le> v" by (cases v; cases w) (auto simp: less_eq_semver_def)
qed

end

definition semver_of :: "version \<Rightarrow> semver" where
  "semver_of v = Semver (ver_major v) (ver_minor v) (ver_patch v)"

subsection \<open>The release provider\<close>

record release =
  rl_version :: string
  rl_tag :: string
  rl_url :: string

datatype update_err =
    NotHttps string
  | HostNotAllowed string
  | RequestFailed string
  | BadStatus int
  | DecodeResponse
  | ChecksumNotFound string
  | ChecksumMismatch string string
  | WriteFailed
  | OpenGzip
  | ReadTar
  | BinaryTooBig
  | BinaryNotFound
  | ReplaceBinary

text \<open>An HTTP exchange: a failure, or a status and a body.\<close>

type_synonym http_answer = "string + int \<times> string"

record github =
  gh_owner :: string
  gh_repo :: string
  gh_checksum :: string

definition allowed_hosts :: "string list" where
  "allowed_hosts = [''api.github.com'', ''github.com'', ''objects.githubusercontent.com'']"

definition url_authority :: "string \<Rightarrow> string" where
  "url_authority rest = (case cut rest ''/'' of None \<Rightarrow> rest | Some (h, _) \<Rightarrow> h)"

definition strip_port :: "string \<Rightarrow> string" where
  "strip_port h = (case last_index_char h (CHR '':'') of None \<Rightarrow> h | Some i \<Rightarrow> take i h)"

definition validate_github_url :: "string \<Rightarrow> update_err + unit" where
  "validate_github_url url =
     (if \<not> has_prefix url ''https://'' then Inl (NotHttps url)
      else (let host = strip_port (url_authority (trim_prefix url ''https://''))
            in if host \<in> set allowed_hosts then Inr () else Inl (HostNotAllowed host)))"

definition max_response :: nat where
  "max_response = 512 * 2 ^ 20"

definition download_url :: "(string \<Rightarrow> http_answer) \<Rightarrow> string \<Rightarrow> update_err + string" where
  "download_url fetch url =
     sbind (validate_github_url url) (\<lambda>_.
       (case fetch url of
          Inl t \<Rightarrow> Inl (RequestFailed t)
        | Inr (code, body) \<Rightarrow> if code \<noteq> 200 then Inl (BadStatus code) else Inr (take max_response body)))"

definition api_url :: "github \<Rightarrow> string" where
  "api_url g = ''https://api.github.com/repos/'' @ gh_owner g @ ''/'' @ gh_repo g @ ''/releases/latest''"

definition asset_url :: "github \<Rightarrow> release \<Rightarrow> string \<Rightarrow> string" where
  "asset_url g r asset =
     ''https://github.com/'' @ gh_owner g @ ''/'' @ gh_repo g @ ''/releases/download/'' @ rl_tag r @ ''/'' @ asset"

text \<open>\<open>decode\<close> is the JSON decoding of the API's answer: the tag and the page.\<close>

definition latest_release ::
    "(string \<Rightarrow> http_answer) \<Rightarrow> (string \<Rightarrow> (string \<times> string) option) \<Rightarrow> github \<Rightarrow> update_err + release" where
  "latest_release fetch decode g =
     sbind (validate_github_url (api_url g)) (\<lambda>_.
       (case fetch (api_url g) of
          Inl t \<Rightarrow> Inl (RequestFailed t)
        | Inr (code, body) \<Rightarrow>
            if code \<noteq> 200 then Inl (BadStatus code)
            else (case decode body of
                    None \<Rightarrow> Inl DecodeResponse
                  | Some (tag, page) \<Rightarrow> Inr \<lparr>rl_version = trim_prefix tag ''v'', rl_tag = tag, rl_url = page\<rparr>)))"

definition check_update :: "update_err + release \<Rightarrow> version \<Rightarrow> update_err + (release \<times> bool)" where
  "check_update latest current =
     sbind latest (\<lambda>r. Inr (r, is_newer current (parse_version (rl_version r))))"

subsection \<open>Checksums\<close>

fun words_loop :: "string \<Rightarrow> string \<Rightarrow> string list" where
  "words_loop w [] = (if w = [] then [] else [rev w])"
| "words_loop w (c # s) =
     (if is_space c then (if w = [] then words_loop [] s else rev w # words_loop [] s)
      else words_loop (c # w) s)"

text \<open>\<^verbatim>\<open>strings.Fields\<close>.\<close>

definition fields :: "string \<Rightarrow> string list" where
  "fields s = words_loop [] s"

text \<open>\<^verbatim>\<open>bufio.Scanner\<close> stops, and the loop with it, at a line that does not fit its buffer.\<close>

definition scan_lines :: "string \<Rightarrow> string list" where
  "scan_lines s =
     map (\<lambda>l. trim_suffix l [CHR 0x0D]) (takeWhile (\<lambda>l. length l < 65536) (split_char (CHR 0x0A) s))"

fun checksum_in :: "string list \<Rightarrow> string \<Rightarrow> string option" where
  "checksum_in [] asset = None"
| "checksum_in (l # ls) asset =
     (case fields (trim_space l) of
        [digest, file] \<Rightarrow> if file = asset then Some digest else checksum_in ls asset
      | _ \<Rightarrow> checksum_in ls asset)"

definition find_checksum :: "string \<Rightarrow> string \<Rightarrow> update_err + string" where
  "find_checksum content asset =
     (case checksum_in (scan_lines content) asset of
        None \<Rightarrow> Inl (ChecksumNotFound asset)
      | Some s \<Rightarrow> Inr s)"

definition verify_asset ::
    "(string \<Rightarrow> http_answer) \<Rightarrow> (string \<Rightarrow> string) \<Rightarrow> github \<Rightarrow> release \<Rightarrow> string \<Rightarrow> string \<Rightarrow> update_err + unit" where
  "verify_asset fetch hash g r asset data =
     sbind (download_url fetch (asset_url g r (gh_checksum g))) (\<lambda>listing.
     sbind (find_checksum listing asset) (\<lambda>expected.
       (let actual = hex_encode (hash data)
        in if equal_fold actual expected then Inr () else Inl (ChecksumMismatch expected actual))))"

text \<open>The bytes written to the destination, and whether they could be.\<close>

definition download_and_verify ::
    "(string \<Rightarrow> http_answer) \<Rightarrow> (string \<Rightarrow> string) \<Rightarrow> bool \<Rightarrow> github \<Rightarrow> release \<Rightarrow> string \<Rightarrow> update_err + string" where
  "download_and_verify fetch hash writable g r asset =
     sbind (download_url fetch (asset_url g r asset)) (\<lambda>data.
     sbind (verify_asset fetch hash g r asset data) (\<lambda>_.
       if writable then Inr data else Inl WriteFailed))"

subsection \<open>Installing\<close>

datatype tar_item = TarEntry string bool string | TarError

definition max_binary :: nat where
  "max_binary = 256 * 2 ^ 20"

fun find_binary :: "string \<Rightarrow> tar_item list \<Rightarrow> update_err + string" where
  "find_binary name [] = Inl BinaryNotFound"
| "find_binary name (TarError # items) = Inl ReadTar"
| "find_binary name (TarEntry file regular data # items) =
     (if path_base file = name \<and> regular
      then (if max_binary < length data then Inl BinaryTooBig else Inr data)
      else find_binary name items)"

text \<open>\<open>untar\<close> is what the archive's bytes decompress to, if they are a gzip stream.\<close>

definition extract_binary :: "(string \<Rightarrow> tar_item list option) \<Rightarrow> string \<Rightarrow> string \<Rightarrow> update_err + string" where
  "extract_binary untar archive name =
     (case untar archive of None \<Rightarrow> Inl OpenGzip | Some items \<Rightarrow> find_binary name items)"

text \<open>The executable, and the temporary file beside it while it exists.\<close>

record install =
  in_exec :: string
  in_tmp :: "string option"

datatype replace_fault = NoFault | FailCreate | FailWrite | FailChmod | FailClose | FailRename

definition replace_binary :: "replace_fault \<Rightarrow> string \<Rightarrow> install \<Rightarrow> update_err option \<times> install" where
  "replace_binary fault data i =
     (case fault of
        FailCreate \<Rightarrow> (Some ReplaceBinary, i)
      | NoFault \<Rightarrow> (None, i\<lparr>in_exec := data, in_tmp := None\<rparr>)
      | _ \<Rightarrow> (Some ReplaceBinary, i\<lparr>in_tmp := None\<rparr>))"

definition update_asset :: "string \<Rightarrow> string \<Rightarrow> release \<Rightarrow> string" where
  "update_asset os arch r = ''kubeport_'' @ rl_version r @ ''_'' @ os @ ''_'' @ arch @ ''.tar.gz''"

record update_world =
  uw_fetch :: "string \<Rightarrow> http_answer"
  uw_decode :: "string \<Rightarrow> (string \<times> string) option"
  uw_hash :: "string \<Rightarrow> string"
  uw_untar :: "string \<Rightarrow> tar_item list option"
  uw_tmp_writable :: bool
  uw_fault :: replace_fault
  uw_os :: string
  uw_arch :: string

definition kubeport_repo :: github where
  "kubeport_repo = \<lparr>gh_owner = ''rbaliyan'', gh_repo = ''kubeport'', gh_checksum = ''checksums.txt''\<rparr>"

definition do_update_apply :: "update_world \<Rightarrow> version \<Rightarrow> install \<Rightarrow> (update_err + release option) \<times> install" where
  "do_update_apply u current i =
     (case check_update (latest_release (uw_fetch u) (uw_decode u) kubeport_repo) current of
        Inl e \<Rightarrow> (Inl e, i)
      | Inr (r, available) \<Rightarrow>
          if \<not> available then (Inr None, i)
          else (case download_and_verify (uw_fetch u) (uw_hash u) (uw_tmp_writable u) kubeport_repo r
                       (update_asset (uw_os u) (uw_arch u) r) of
                  Inl e \<Rightarrow> (Inl e, i)
                | Inr archive \<Rightarrow>
                    (case extract_binary (uw_untar u) archive ''kubeport'' of
                       Inl e \<Rightarrow> (Inl e, i)
                     | Inr bin \<Rightarrow>
                         (case replace_binary (uw_fault u) bin i of
                            (Some e, i1) \<Rightarrow> (Inl e, i1)
                          | (None, i1) \<Rightarrow> (Inr (Some r), i1)))))"

subsection \<open>The order of versions\<close>

lemma is_newer_semver: "is_newer current latest = (semver_of current < semver_of latest)"
  by (auto simp: is_newer_def semver_of_def)

lemma itoa_first: "0 \<le> n \<Longrightarrow> \<exists>c s. itoa n = c # s \<and> is_digit c \<and> list_all is_digit s"
  using itoa_digits [of n] itoa_not_Nil [of n] by (cases "itoa n") auto

lemma takeWhile_digits: "list_all is_digit s \<Longrightarrow> takeWhile is_digit s = s"
  by (simp add: list_all_iff)

lemma digit_plain: "is_digit c \<Longrightarrow> c \<noteq> CHR ''-'' \<and> c \<noteq> CHR ''+'' \<and> c \<noteq> CHR ''.'' \<and> c \<noteq> CHR ''v'' \<and> c \<noteq> CHR 0x0D \<and> c \<noteq> CHR 0x0A"
proof -
  have "\<not> is_digit (CHR ''-'')" "\<not> is_digit (CHR ''+'')" "\<not> is_digit (CHR ''.'')" "\<not> is_digit (CHR ''v'')"
    "\<not> is_digit (CHR 0x0D)" "\<not> is_digit (CHR 0x0A)" by code_simp+
  then show "is_digit c \<Longrightarrow> ?thesis" by metis
qed

lemma scan_itoa:
  assumes "0 \<le> n" "n < 2 ^ 63"
  shows "scanned (itoa n) = n"
proof -
  obtain c s where i: "itoa n = c # s" "is_digit c" "list_all is_digit s" using itoa_first [OF assms(1)] by blast
  have "skip_space (c # s) = Some (c # s)"
    using digit_plain [OF i(2)] digit_not_space [OF i(2)] by simp
  moreover have "takeWhile is_digit (c # s) = c # s" using i by (intro takeWhile_digits) simp
  ultimately have "scan_int (itoa n) = atoi (itoa n)"
    using digit_plain [OF i(2)] i(1) by (simp add: scan_int_def Let_def)
  then show ?thesis using assms by (simp add: scanned_def)
qed

lemma itoa_free: "0 \<le> n \<Longrightarrow> CHR ''-'' \<notin> set (itoa n) \<and> CHR ''.'' \<notin> set (itoa n)"
  using itoa_digits [of n] digit_plain by (auto simp: list_all_iff)

definition version_text :: "int \<Rightarrow> int \<Rightarrow> int \<Rightarrow> string" where
  "version_text a b c = itoa a @ ''.'' @ itoa b @ ''.'' @ itoa c"

lemma version_text_parts:
  assumes "0 \<le> a" "0 \<le> b" "0 \<le> c"
  shows "split_char (CHR ''.'') (version_text a b c) = [itoa a, itoa b, itoa c]"
    "CHR ''-'' \<notin> set (version_text a b c)" "\<not> has_prefix (version_text a b c) ''v''"
proof -
  show "split_char (CHR ''.'') (version_text a b c) = [itoa a, itoa b, itoa c]"
    using itoa_free assms by (simp add: version_text_def split_char_append split_char_free)
  show "CHR ''-'' \<notin> set (version_text a b c)" using itoa_free assms by (auto simp: version_text_def)
  show "\<not> has_prefix (version_text a b c) ''v''"
    using itoa_first [OF assms(1)] digit_plain by (auto simp: version_text_def has_prefix_iff)
qed

lemma parse_version_text:
  assumes "0 \<le> a" "0 \<le> b" "0 \<le> c" "a < 2 ^ 63" "b < 2 ^ 63" "c < 2 ^ 63"
  shows "semver_of (parse_version (version_text a b c)) = Semver a b c"
    "semver_of (parse_version (version_text a b c @ ''-'' @ pre)) = Semver a b c"
proof -
  note parts = version_text_parts [OF assms(1-3)]
  have t: "trim_prefix (version_text a b c) ''v'' = version_text a b c"
    "trim_prefix (version_text a b c @ CHR ''-'' # pre) ''v'' = version_text a b c @ CHR ''-'' # pre"
    using parts(3) itoa_first [OF assms(1)] by (auto simp: trim_prefix_def has_prefix_iff version_text_def)
  have n: "split_char_n (CHR ''-'') 2 (version_text a b c) = [version_text a b c]"
    "split_char_n (CHR ''-'') 2 (version_text a b c @ CHR ''-'' # pre) = [version_text a b c, pre]"
    using parts(2) by (simp_all add: numeral_2_eq_2 cut_char_None)
  show "semver_of (parse_version (version_text a b c)) = Semver a b c"
    "semver_of (parse_version (version_text a b c @ ''-'' @ pre)) = Semver a b c"
    using assms by (simp_all add: parse_version_def t n parts(1) scan_itoa semver_of_def Let_def)
qed

text \<open>An update is offered exactly when the released version is greater in the order of the three
  numbers, which are read from the texts as written; a suffix such as that of a release candidate
  does not count, so that the final release is not offered over its own candidates.\<close>

theorem update_offered_exactly:
  assumes "list_all (\<lambda>n. 0 \<le> n \<and> n < 2 ^ 63) [a, b, c, x, y, z]"
    and "rl_version r = version_text x y z"
    and "current = version_text a b c \<or> current = version_text a b c @ ''-'' @ pre"
  shows "check_update (Inr r) (parse_version current) = Inr (r, Semver a b c < Semver x y z)"
  using assms(3)
proof
  assume "current = version_text a b c"
  with assms(1,2) show ?thesis by (simp add: check_update_def is_newer_semver parse_version_text)
next
  assume "current = version_text a b c @ ''-'' @ pre"
  with assms(1,2) show ?thesis
    using parse_version_text(2) [of a b c pre] parse_version_text(1) [of x y z]
    by (simp add: check_update_def is_newer_semver)
qed

theorem update_offered_exactly_witness:
  "check_update (Inr \<lparr>rl_version = ''0.7.0'', rl_tag = ''v0.7.0'', rl_url = []\<rparr>) (parse_version ''0.7.0-rc1'')
     = Inr (\<lparr>rl_version = ''0.7.0'', rl_tag = ''v0.7.0'', rl_url = []\<rparr>, False)"
proof -
  have v: "version_text 0 7 0 = ''0.7.0''" by code_simp
  show ?thesis
    using update_offered_exactly [of 0 7 0 0 7 0 "\<lparr>rl_version = ''0.7.0'', rl_tag = ''v0.7.0'', rl_url = []\<rparr>"
        "''0.7.0-rc1''" "''rc1''"] v by simp
qed

subsection \<open>What an update installs\<close>

definition github_url :: "string \<Rightarrow> bool" where
  "github_url url = (has_prefix url ''https://github.com/'' \<or> has_prefix url ''https://api.github.com/'')"

lemma urls_on_github: "github_url (api_url g)" "github_url (asset_url g r asset)"
  by (simp_all add: github_url_def api_url_def asset_url_def)

text \<open>What the checksum file says of the archive that was downloaded.\<close>

definition vouched :: "update_world \<Rightarrow> release \<Rightarrow> string \<Rightarrow> bool" where
  "vouched u r archive \<longleftrightarrow>
     (\<exists>listing digest. download_url (uw_fetch u) (asset_url kubeport_repo r ''checksums.txt'') = Inr listing
        \<and> checksum_in (scan_lines listing) (update_asset (uw_os u) (uw_arch u) r) = Some digest
        \<and> equal_fold (hex_encode (uw_hash u archive)) digest)"

text \<open>C13: the executable is replaced only by a verified, newer one.  If the update reports a release,
  then that release is newer, the new executable is the file of the archive, and the checksum
  file of the release lists the archive's hash; if it reports an error or nothing to do, then the
  executable is untouched; no temporary file is left either way.\<close>

theorem update_installs_verified:
  assumes "do_update_apply u current i = (res, i')" "in_tmp i = None"
  shows "(case res of
      Inr (Some r) \<Rightarrow>
        is_newer current (parse_version (rl_version r))
        \<and> (\<exists>archive items. vouched u r archive \<and> uw_untar u archive = Some items
             \<and> find_binary ''kubeport'' items = Inr (in_exec i') \<and> length (in_exec i') \<le> max_binary)
    | _ \<Rightarrow> in_exec i' = in_exec i)
    \<and> in_tmp i' = None"
proof -
  have size: "find_binary n items = Inr d \<Longrightarrow> length d \<le> max_binary" for n items d
    by (induction n items rule: find_binary.induct) (auto split: if_splits)
  have ok: "in_exec i1 = d \<and> in_tmp i1 = None" if "replace_binary f d i = (None, i1)" for f d i1
    using that assms(2) by (auto simp: replace_binary_def split: replace_fault.splits)
  have failed: "in_exec i1 = in_exec i \<and> in_tmp i1 = None" if "replace_binary f d i = (Some e, i1)" for f d e i1
    using that assms(2) by (auto simp: replace_binary_def split: replace_fault.splits)
  have vouch: "vouched u r archive"
    if "download_and_verify (uw_fetch u) (uw_hash u) w kubeport_repo r (update_asset (uw_os u) (uw_arch u) r) = Inr archive"
    for w r archive
    using that
    by (auto simp: download_and_verify_def verify_asset_def find_checksum_def vouched_def result_simps Let_def
        kubeport_repo_def split: option.splits if_splits)
  show ?thesis
    using assms
    by (auto dest!: ok failed dest: size vouch simp: do_update_apply_def check_update_def extract_binary_def result_simps
        split: sum.splits option.splits prod.splits if_splits)
qed

text \<open>The world of an example: one archive, its checksum and a hash that is the identity.\<close>

definition example_world :: update_world where
  "example_world =
     \<lparr>uw_fetch = (\<lambda>url. if has_prefix url ''https://api.github.com/'' then Inr (200, ''{}'')
                  else if has_suffix url ''checksums.txt'' then Inr (200, ''4142 kubeport_1.0.0_linux_amd64.tar.gz'')
                  else Inr (200, ''AB'')),
      uw_decode = (\<lambda>_. Some (''v1.0.0'', [])), uw_hash = (\<lambda>d. d),
      uw_untar = (\<lambda>_. Some [TarEntry ''kubeport/kubeport'' True ''new'']),
      uw_tmp_writable = True, uw_fault = NoFault, uw_os = ''linux'', uw_arch = ''amd64''\<rparr>"

lemma download_small:
  "validate_github_url url = Inr () \<Longrightarrow> fetch url = Inr (200, body) \<Longrightarrow> length body \<le> 1000 \<Longrightarrow> download_url fetch url = Inr body"
  by (simp add: download_url_def max_response_def)

lemma example_update:
  "do_update_apply example_world (parse_version ''v0.9.0'') \<lparr>in_exec = ''old'', in_tmp = None\<rparr>
     = (Inr (Some \<lparr>rl_version = ''1.0.0'', rl_tag = ''v1.0.0'', rl_url = []\<rparr>), \<lparr>in_exec = ''new'', in_tmp = None\<rparr>)"
proof -
  let ?r = "\<lparr>rl_version = ''1.0.0'', rl_tag = ''v1.0.0'', rl_url = []\<rparr>"
  let ?asset = "update_asset (uw_os example_world) (uw_arch example_world) ?r"
  have 1: "check_update (latest_release (uw_fetch example_world) (uw_decode example_world) kubeport_repo)
      (parse_version ''v0.9.0'') = Inr (?r, True)" by code_simp
  have 2: "download_url (uw_fetch example_world) (asset_url kubeport_repo ?r ?asset) = Inr ''AB''"
  proof (rule download_small)
    show "validate_github_url (asset_url kubeport_repo ?r ?asset) = Inr ()" by code_simp
    show "uw_fetch example_world (asset_url kubeport_repo ?r ?asset) = Inr (200, ''AB'')" by code_simp
  qed simp
  have 3: "download_url (uw_fetch example_world) (asset_url kubeport_repo ?r (gh_checksum kubeport_repo))
      = Inr ''4142 kubeport_1.0.0_linux_amd64.tar.gz''"
  proof (rule download_small)
    show "validate_github_url (asset_url kubeport_repo ?r (gh_checksum kubeport_repo)) = Inr ()" by code_simp
    show "uw_fetch example_world (asset_url kubeport_repo ?r (gh_checksum kubeport_repo))
        = Inr (200, ''4142 kubeport_1.0.0_linux_amd64.tar.gz'')" by code_simp
  qed simp
  have "checksum_in [''4142 kubeport_1.0.0_linux_amd64.tar.gz''] ?asset = Some ''4142''" by code_simp
  then have 4: "find_checksum ''4142 kubeport_1.0.0_linux_amd64.tar.gz'' ?asset = Inr ''4142''"
    by (simp add: find_checksum_def scan_lines_def trim_suffix_def has_suffix_def)
  have 5: "equal_fold (hex_encode (uw_hash example_world ''AB'')) ''4142''" by code_simp
  have 6: "path_base ''kubeport/kubeport'' = ''kubeport''" by code_simp
  have 7: "extract_binary (uw_untar example_world) ''AB'' ''kubeport'' = Inr ''new''"
    by (simp add: extract_binary_def example_world_def 6 max_binary_def)
  have 8: "uw_tmp_writable example_world" "uw_fault example_world = NoFault" by (simp_all add: example_world_def)
  show ?thesis
    by (simp add: do_update_apply_def 1 download_and_verify_def 2 verify_asset_def 3 4 5 7 8 Let_def replace_binary_def)
qed

theorem update_installs_verified_witness:
  "\<exists>archive. vouched example_world \<lparr>rl_version = ''1.0.0'', rl_tag = ''v1.0.0'', rl_url = []\<rparr> archive"
  using update_installs_verified [OF example_update] by auto

text \<open>An update talks to GitHub only: two worlds whose servers differ elsewhere at most give the
  same update.\<close>

theorem update_stays_on_github:
  assumes "\<And>url. github_url url \<Longrightarrow> f1 url = f2 url"
  shows "do_update_apply (u\<lparr>uw_fetch := f1\<rparr>) current i = do_update_apply (u\<lparr>uw_fetch := f2\<rparr>) current i"
proof -
  have urls: "f1 (api_url g) = f2 (api_url g)" "f1 (asset_url g r asset) = f2 (asset_url g r asset)" for g r asset
    by (rule assms, rule urls_on_github)+
  have "latest_release f1 = latest_release f2"
    by (intro ext) (simp add: latest_release_def urls)
  moreover have d: "download_url f1 (asset_url g r asset) = download_url f2 (asset_url g r asset)" for g r asset
    by (simp add: download_url_def urls)
  moreover have "verify_asset f1 = verify_asset f2"
    by (intro ext) (simp add: verify_asset_def d)
  ultimately have "download_and_verify f1 = download_and_verify f2"
    by (intro ext) (simp add: download_and_verify_def)
  with \<open>latest_release f1 = latest_release f2\<close> show ?thesis
    by (simp add: do_update_apply_def cong: sum.case_cong prod.case_cong if_cong)
qed

theorem update_stays_on_github_witness:
  "do_update_apply (example_world\<lparr>uw_fetch := (\<lambda>url. if github_url url then Inl ''down'' else Inr (200, []))\<rparr>)
       (parse_version ''v1.0.0'') \<lparr>in_exec = ''old'', in_tmp = None\<rparr>
     = do_update_apply (example_world\<lparr>uw_fetch := (\<lambda>_. Inl ''down'')\<rparr>)
       (parse_version ''v1.0.0'') \<lparr>in_exec = ''old'', in_tmp = None\<rparr>"
  by (rule update_stays_on_github) simp

end
