(* ===== verification/Cli.thy ===== *)
theory Cli
  imports Validate Files Registry
begin

text \<open>
  The command line (\<^verbatim>\<open>internal/cli/cli.go\<close>, \<^verbatim>\<open>loglevel.go\<close>): the global flags, the \<^verbatim>\<open>--svc\<close>
  specifications, the configuration a command works with, the daemon it talks to, and the flags
  with which the background daemon is started (\<^verbatim>\<open>launchDaemon\<close> of \<^verbatim>\<open>cmd_start.go\<close>).  What the
  commands print is left out; an \<^verbatim>\<open>os.Exit\<close> is the value it exits with.
\<close>

subsection \<open>Global flags\<close>

record app =
  ap_config_file :: string
  ap_no_config :: bool
  ap_cfg :: "config option"
  ap_context :: string
  ap_namespace :: string
  ap_services :: "string list"
  ap_disabled :: "string list"
  ap_wait :: bool
  ap_timeout :: int
  ap_offload :: bool
  ap_delegate :: bool
  ap_primary_socket :: string
  ap_json :: bool
  ap_sort :: bool
  ap_host :: string
  ap_api_key :: string
  ap_interval :: int
  ap_verbose :: bool

definition new_app :: app where
  "new_app =
     \<lparr>ap_config_file = [], ap_no_config = False, ap_cfg = None, ap_context = [], ap_namespace = [],
      ap_services = [], ap_disabled = [], ap_wait = False, ap_timeout = 0, ap_offload = False,
      ap_delegate = False, ap_primary_socket = [], ap_json = False, ap_sort = False, ap_host = [],
      ap_api_key = [], ap_interval = 0, ap_verbose = False\<rparr>"

datatype cli_exit =
    MissingValue string
  | BadDuration string string
  | UnknownFlag string
  | ShowHelp
  | ShowVersion

text \<open>The flags with a value; all but the short ones can be written \<^verbatim>\<open>--flag=value\<close>.\<close>

definition inline_flags :: "string list" where
  "inline_flags =
     [''--config'', ''--context'', ''--kube-context'', ''--namespace'', ''--svc'', ''--disable-svc'',
      ''--primary-socket'', ''--timeout'', ''--host'', ''--api-key'', ''--time'']"

definition value_flags :: "string list" where
  "value_flags = [''-c'', ''-n''] @ inline_flags"

definition set_flag :: "string \<Rightarrow> string \<Rightarrow> app \<Rightarrow> cli_exit + app" where
  "set_flag flag v a =
     (if flag = ''--config'' \<or> flag = ''-c'' then Inr (a\<lparr>ap_config_file := v\<rparr>)
      else if flag = ''--context'' \<or> flag = ''--kube-context'' then Inr (a\<lparr>ap_context := v\<rparr>)
      else if flag = ''--namespace'' \<or> flag = ''-n'' then Inr (a\<lparr>ap_namespace := v\<rparr>)
      else if flag = ''--svc'' then Inr (a\<lparr>ap_services := ap_services a @ [v]\<rparr>)
      else if flag = ''--disable-svc'' then Inr (a\<lparr>ap_disabled := ap_disabled a @ [v]\<rparr>)
      else if flag = ''--primary-socket'' then Inr (a\<lparr>ap_primary_socket := v\<rparr>)
      else if flag = ''--timeout'' then
        (case parse_duration v of
           None \<Rightarrow> Inl (BadDuration flag v)
         | Some d \<Rightarrow> Inr (a\<lparr>ap_timeout := d, ap_wait := True\<rparr>))
      else if flag = ''--host'' then Inr (a\<lparr>ap_host := v\<rparr>)
      else if flag = ''--api-key'' then Inr (a\<lparr>ap_api_key := v\<rparr>)
      else (case parse_duration v of
              None \<Rightarrow> Inl (BadDuration flag v)
            | Some d \<Rightarrow> Inr (a\<lparr>ap_interval := d\<rparr>)))"

definition switch_flags :: "string list" where
  "switch_flags = [''--no-config'', ''--json'', ''--sort'', ''--offload'', ''--delegate'', ''--wait'', ''--verbose'']"

definition set_switch :: "string \<Rightarrow> app \<Rightarrow> app" where
  "set_switch flag a =
     (if flag = ''--no-config'' then a\<lparr>ap_no_config := True\<rparr>
      else if flag = ''--json'' then a\<lparr>ap_json := True\<rparr>
      else if flag = ''--sort'' then a\<lparr>ap_sort := True\<rparr>
      else if flag = ''--offload'' then a\<lparr>ap_offload := True\<rparr>
      else if flag = ''--delegate'' then a\<lparr>ap_delegate := True\<rparr>
      else if flag = ''--wait'' then a\<lparr>ap_wait := True\<rparr>
      else a\<lparr>ap_verbose := True\<rparr>)"

definition inline_flag :: "string \<Rightarrow> string option" where
  "inline_flag arg = List.find (\<lambda>f. has_prefix arg (f @ ''='')) inline_flags"

fun parse_loop :: "string list \<Rightarrow> app \<Rightarrow> string \<Rightarrow> string list \<Rightarrow> cli_exit + app \<times> string \<times> string list" where
  "parse_loop [] a cmd rest = Inr (a, cmd, rest)"
| "parse_loop (arg # args) a cmd rest =
     (if arg \<in> set value_flags then
        (case args of
           [] \<Rightarrow> Inl (MissingValue arg)
         | v # args1 \<Rightarrow> (case set_flag arg v a of Inl e \<Rightarrow> Inl e | Inr a1 \<Rightarrow> parse_loop args1 a1 cmd rest))
      else (case inline_flag arg of
              Some f \<Rightarrow>
                (case set_flag f (drop (length f + 1) arg) a of
                   Inl e \<Rightarrow> Inl e
                 | Inr a1 \<Rightarrow> parse_loop args a1 cmd rest)
            | None \<Rightarrow>
                if arg \<in> set switch_flags then parse_loop args (set_switch arg a) cmd rest
                else if arg = ''--help'' \<or> arg = ''-h'' then Inl ShowHelp
                else if arg = ''--version'' \<or> arg = ''-v'' then Inl ShowVersion
                else if cmd = [] then
                  (if has_prefix arg ''-'' then Inl (UnknownFlag arg) else parse_loop args a arg rest)
                else parse_loop args a cmd (rest @ [arg])))"

definition parse_args :: "string list \<Rightarrow> cli_exit + app \<times> string \<times> string list" where
  "parse_args args = parse_loop args new_app [] []"

subsection \<open>Service specifications\<close>

datatype spec_err =
    SpecFormat
  | SpecTarget
  | SpecType string
  | SpecOffset string
  | SpecRemotePort string
  | SpecLocalPort string

definition is_numeric :: "string \<Rightarrow> bool" where
  "is_numeric s = (atoi s \<noteq> None)"

definition spec_ports :: "string \<Rightarrow> ports_config" where
  "spec_ports port_spec =
     (if port_spec = ''all'' then \<lparr>pc_all = True, pc_selectors = []\<rparr>
      else \<lparr>pc_all = False,
            pc_selectors = map (\<lambda>n. \<lparr>sel_name = n, sel_port = 0, sel_local_port = 0\<rparr>)
              (filter (\<lambda>n. n \<noteq> []) (map trim_space (split_char (CHR '','') port_spec)))\<rparr>)"

definition part :: "nat \<Rightarrow> string list \<Rightarrow> string" where
  "part i parts = (if i < length parts then parts ! i else [])"

definition spec_multi :: "string list \<Rightarrow> service_config \<Rightarrow> spec_err + service_config" where
  "spec_multi parts svc0 =
     (let svc = svc0\<lparr>svc_ports := spec_ports (parts ! 2)\<rparr>;
          namespaced = (\<lambda>s. if part 4 parts \<noteq> [] then s\<lparr>svc_namespace := part 4 parts\<rparr> else s)
      in if part 3 parts = [] then Inr (namespaced svc)
         else if has_prefix (part 3 parts) ''+'' then
           (case atoi (drop 1 (part 3 parts)) of
              None \<Rightarrow> Inl (SpecOffset (part 3 parts))
            | Some off \<Rightarrow> Inr (namespaced (svc\<lparr>svc_local_port_offset := off\<rparr>)))
         else Inr (svc\<lparr>svc_namespace := part 3 parts\<rparr>))"

definition spec_single :: "string list \<Rightarrow> service_config \<Rightarrow> spec_err + service_config" where
  "spec_single parts svc =
     (if length parts < 4 then Inl SpecFormat
      else (case atoi (parts ! 2) of
              None \<Rightarrow> Inl (SpecRemotePort (parts ! 2))
            | Some remote \<Rightarrow>
                (case atoi (parts ! 3) of
                   None \<Rightarrow> Inl (SpecLocalPort (parts ! 3))
                 | Some local \<Rightarrow>
                     (let s = svc\<lparr>svc_remote_port := remote, svc_local_port := local\<rparr>
                      in Inr (if length parts = 5 \<and> parts ! 4 \<noteq> [] then s\<lparr>svc_namespace := parts ! 4\<rparr> else s)))))"

definition spec_target :: "string \<Rightarrow> service_config \<Rightarrow> spec_err + service_config" where
  "spec_target text svc =
     (case split_char_n (CHR ''/'') 2 text of
        [kind, name] \<Rightarrow>
          if name = [] then Inl SpecTarget
          else if kind = ''svc'' \<or> kind = ''service'' then Inr (svc\<lparr>svc_service := name\<rparr>)
          else if kind = ''pod'' then Inr (svc\<lparr>svc_pod := name\<rparr>)
          else Inl (SpecType kind)
      | _ \<Rightarrow> Inl SpecTarget)"

definition parse_svc_flag :: "string \<Rightarrow> spec_err + service_config" where
  "parse_svc_flag s =
     (let parts = split_char_n (CHR '':'') 5 s
      in if length parts < 3 then Inl SpecFormat
         else sbind (spec_target (parts ! 1) (zero_service\<lparr>svc_name := parts ! 0\<rparr>)) (\<lambda>svc.
           if parts ! 2 = ''all'' \<or> (\<not> is_numeric (parts ! 2) \<and> contains (parts ! 2) '','')
           then spec_multi parts svc
           else spec_single parts svc))"

subsection \<open>The configuration of a command\<close>

datatype cli_cfg_err =
    BadSpec spec_err
  | NoServicesGiven
  | NoConfigFound
  | LoadFailed load_err
  | ConfigInvalid cfg_err

definition build_config_from_cli :: "service_config list \<Rightarrow> app \<Rightarrow> cli_cfg_err + app" where
  "build_config_from_cli services a =
     (if services = [] then Inl NoServicesGiven
      else (let cfg = new_in_memory (ap_context a) (if ap_namespace a = [] then ''default'' else ap_namespace a) services
            in sbind (wrap_err ConfigInvalid (validate_config cfg)) (\<lambda>_. Inr (a\<lparr>ap_cfg := Some cfg\<rparr>))))"

definition disable_services :: "string list \<Rightarrow> service_config list \<Rightarrow> service_config list" where
  "disable_services names svcs = filter (\<lambda>s. to_lower (svc_name s) \<notin> set (map to_lower names)) svcs"

fun override_one :: "service_config \<Rightarrow> service_config list \<Rightarrow> service_config list" where
  "override_one cs [] = [cs]"
| "override_one cs (s # ss) = (if equal_fold (svc_name s) (svc_name cs) then cs # ss else s # override_one cs ss)"

definition override_services :: "service_config list \<Rightarrow> service_config list \<Rightarrow> service_config list" where
  "override_services cli svcs = foldl (\<lambda>ss cs. override_one cs ss) svcs cli"

definition apply_overrides :: "app \<Rightarrow> service_config list \<Rightarrow> config \<Rightarrow> config" where
  "apply_overrides a cli cfg =
     cfg\<lparr>cfg_context := (if ap_context a \<noteq> [] then ap_context a else cfg_context cfg),
         cfg_namespace := (if ap_namespace a \<noteq> [] then ap_namespace a else cfg_namespace cfg),
         cfg_services := override_services cli (disable_services (ap_disabled a) (cfg_services cfg))\<rparr>"

definition load_file :: "os_env \<Rightarrow> codecs \<Rightarrow> service_config list \<Rightarrow> string \<Rightarrow> app \<Rightarrow> cli_cfg_err + app" where
  "load_file env cd cli path a =
     sbind (wrap_err LoadFailed (load_config env cd path)) (\<lambda>cfg0.
       let cfg = apply_overrides a cli cfg0
       in sbind (wrap_err ConfigInvalid (validate_config cfg)) (\<lambda>_.
            Inr (a\<lparr>ap_config_file := path, ap_cfg := Some cfg\<rparr>)))"

definition load_app_config :: "os_env \<Rightarrow> codecs \<Rightarrow> app \<Rightarrow> cli_cfg_err + app" where
  "load_app_config env cd a =
     sbind (wrap_err BadSpec (map_result parse_svc_flag (ap_services a))) (\<lambda>cli.
       if ap_no_config a \<or> (cli \<noteq> [] \<and> ap_config_file a = [] \<and> discover env = None)
       then build_config_from_cli cli a
       else if ap_config_file a \<noteq> [] then load_file env cd cli (ap_config_file a) a
       else (case discover env of
               None \<Rightarrow> if cli \<noteq> [] then build_config_from_cli cli a else Inl NoConfigFound
             | Some path \<Rightarrow> load_file env cd cli path a))"

subsection \<open>Dispatch\<close>

datatype command =
    CmdConfig | CmdChaos | CmdVersion | CmdUpdate | CmdHelp | CmdStart | CmdStop | CmdStatus | CmdLogs
  | CmdRestart | CmdForeground | CmdAdd | CmdRemove | CmdReload | CmdApply | CmdMappings | CmdWatch
  | CmdSocks | CmdHTTPProxy | CmdInstances | CmdDaemon

definition command_table :: "(string \<times> command) list" where
  "command_table =
     [([], CmdHelp), (''help'', CmdHelp), (''--help'', CmdHelp), (''-h'', CmdHelp), (''start'', CmdStart),
      (''stop'', CmdStop), (''status'', CmdStatus), (''logs'', CmdLogs), (''restart'', CmdRestart),
      (''fg'', CmdForeground), (''foreground'', CmdForeground), (''add'', CmdAdd), (''remove'', CmdRemove),
      (''reload'', CmdReload), (''apply'', CmdApply), (''mappings'', CmdMappings), (''watch'', CmdWatch),
      (''socks'', CmdSocks), (''http-proxy'', CmdHTTPProxy), (''instances'', CmdInstances),
      (''_daemon'', CmdDaemon)]"

definition needs_no_config :: "string list" where
  "needs_no_config =
     [''stop'', ''status'', ''logs'', ''add'', ''remove'', ''reload'', ''apply'', ''mappings'', ''watch'',
      ''socks'', ''http-proxy'', ''instances'']"

datatype dispatch_err = ConfigError cli_cfg_err | UnknownCommand string

definition dispatch :: "os_env \<Rightarrow> codecs \<Rightarrow> string \<Rightarrow> app \<Rightarrow> dispatch_err + command \<times> app" where
  "dispatch env cd cmd a =
     (if cmd = ''config'' then Inr (CmdConfig, a)
      else if cmd = ''chaos'' then Inr (CmdChaos, a)
      else if cmd = ''version'' \<or> cmd = ''--version'' then Inr (CmdVersion, a)
      else if cmd = ''update'' then Inr (CmdUpdate, a)
      else (let run = (\<lambda>a1. case map_of command_table cmd of
                              None \<Rightarrow> Inl (UnknownCommand cmd)
                            | Some c \<Rightarrow> Inr (c, a1))
            in if cmd \<in> {''help'', ''--help'', ''-h''} then run a
               else (case load_app_config env cd a of
                       Inr a1 \<Rightarrow> run a1
                     | Inl e \<Rightarrow> if cmd \<in> set needs_no_config then run a else Inl (ConfigError e))))"

subsection \<open>The daemon a command talks to\<close>

definition socket_path :: "os_env \<Rightarrow> (string \<Rightarrow> string) \<Rightarrow> app \<Rightarrow> string" where
  "socket_path env sha256 a =
     (case ap_cfg a of None \<Rightarrow> ''.kubeport.sock'' | Some cfg \<Rightarrow> socket_file env sha256 cfg)"

definition resolve_host :: "app \<Rightarrow> string" where
  "resolve_host a =
     (if ap_host a \<noteq> [] then ap_host a
      else case ap_cfg a of None \<Rightarrow> [] | Some cfg \<Rightarrow> cfg_host cfg)"

definition resolve_api_key :: "os_env \<Rightarrow> app \<Rightarrow> string" where
  "resolve_api_key env a =
     (if ap_api_key a \<noteq> [] then ap_api_key a
      else if getenv env ''KUBEPORT_API_KEY'' \<noteq> [] then getenv env ''KUBEPORT_API_KEY''
      else case ap_cfg a of None \<Rightarrow> [] | Some cfg \<Rightarrow> cfg_api_key cfg)"

definition resolve_cert_file :: "app \<Rightarrow> string" where
  "resolve_cert_file a =
     (case ap_cfg a of
        None \<Rightarrow> []
      | Some cfg \<Rightarrow> if cfg_file_path cfg \<noteq> [] then path_dir (cfg_file_path cfg) @ ''/.kubeport-tls.crt'' else [])"

datatype dial_target = DialTCP string string string | DialUnix string | NotRunning | KeyRequired

definition dial_target_of :: "os_env \<Rightarrow> (string \<Rightarrow> string) \<Rightarrow> app \<Rightarrow> dial_target" where
  "dial_target_of env sha256 a =
     (if resolve_host a \<noteq> [] then
        (if resolve_api_key env a = [] then KeyRequired
         else DialTCP (resolve_host a) (resolve_api_key env a) (resolve_cert_file a))
      else if file_exists env (socket_path env sha256 a) then DialUnix (socket_path env sha256 a)
      else NotRunning)"

definition registry_dir :: "os_env \<Rightarrow> app \<Rightarrow> string" where
  "registry_dir env a = central_dir env (case ap_cfg a of None \<Rightarrow> [] | Some cfg \<Rightarrow> cfg_file_path cfg)"

text \<open>\<^verbatim>\<open>isRunning\<close>: the process id on file, if that process answers; the file of a dead one goes.\<close>

definition remove_file :: "string \<Rightarrow> os_env \<Rightarrow> os_env" where
  "remove_file path env = env\<lparr>os_files := gdel (path_abs (os_cwd env) path) (os_files env)\<rparr>"

definition is_running :: "(int \<Rightarrow> bool) \<Rightarrow> (string \<Rightarrow> string) \<Rightarrow> app \<Rightarrow> os_env \<Rightarrow> int option \<times> os_env" where
  "is_running responds sha256 a env =
     (let file = (case ap_cfg a of None \<Rightarrow> ''.kubeport.pid'' | Some cfg \<Rightarrow> pid_file env sha256 cfg)
      in case read_file env file of
           None \<Rightarrow> (None, env)
         | Some data \<Rightarrow>
             (case atoi (trim_space data) of
                None \<Rightarrow> (None, env)
              | Some pid \<Rightarrow> if responds pid then (Some pid, env) else (None, remove_file file env)))"

subsection \<open>Log levels\<close>

datatype log_level = LevelDebug | LevelInfo | LevelWarn | LevelError

definition parse_log_level :: "string \<Rightarrow> log_level option" where
  "parse_log_level s =
     map_of [(''debug'', LevelDebug), (''info'', LevelInfo), (''warn'', LevelWarn), (''warning'', LevelWarn),
             (''error'', LevelError)] (to_lower (trim_space s))"

definition resolve_log_level :: "app \<Rightarrow> log_level" where
  "resolve_log_level a =
     (if ap_verbose a then LevelDebug
      else case ap_cfg a of
             None \<Rightarrow> LevelInfo
           | Some cfg \<Rightarrow> (case parse_log_level (cfg_log_level cfg) of None \<Rightarrow> LevelInfo | Some l \<Rightarrow> l))"

definition warn_invalid_log_level :: "app \<Rightarrow> bool" where
  "warn_invalid_log_level a =
     (case ap_cfg a of
        None \<Rightarrow> False
      | Some cfg \<Rightarrow> cfg_log_level cfg \<noteq> [] \<and> parse_log_level (cfg_log_level cfg) = None)"

subsection \<open>Starting the daemon\<close>

definition launch_args :: "app \<Rightarrow> string list" where
  "launch_args a =
     [''_daemon''] @
     (if ap_no_config a then [''--no-config'']
      else if ap_config_file a \<noteq> [] then [''--config'', ap_config_file a] else []) @
     (if ap_context a \<noteq> [] then [''--context'', ap_context a] else []) @
     (if ap_namespace a \<noteq> [] then [''--namespace'', ap_namespace a] else []) @
     concat (map (\<lambda>s. [''--svc'', s]) (ap_services a)) @
     concat (map (\<lambda>s. [''--disable-svc'', s]) (ap_disabled a)) @
     (if ap_verbose a then [''--verbose''] else [])"

definition delegate_args :: "string \<Rightarrow> app \<Rightarrow> string list" where
  "delegate_args primary a =
     [''_daemon'', ''--delegate'', ''--primary-socket'', primary] @
     (if ap_config_file a \<noteq> [] then [''--config'', ap_config_file a] else []) @
     (if ap_context a \<noteq> [] then [''--context'', ap_context a] else []) @
     (if ap_namespace a \<noteq> [] then [''--namespace'', ap_namespace a] else []) @
     (if ap_verbose a then [''--verbose''] else [])"

subsection \<open>Both spellings of a flag\<close>

lemma flags_plain: "list_all (\<lambda>f. CHR ''='' \<notin> set f) value_flags"
  by code_simp

lemma flag_plain: "f \<in> set inline_flags \<Longrightarrow> CHR ''='' \<notin> set f"
  using flags_plain by (simp add: value_flags_def list_all_iff)

lemma prefix_at_equals:
  assumes "CHR ''='' \<notin> set f" "CHR ''='' \<notin> set g"
  shows "has_prefix (f @ CHR ''='' # v) (g @ ''='') = (g = f)"
proof -
  have "f = g" if "f @ CHR ''='' # v = g @ CHR ''='' # t" for t
  proof -
    have "takeWhile (\<lambda>c. c \<noteq> CHR ''='') (f @ CHR ''='' # v) = f"
      "takeWhile (\<lambda>c. c \<noteq> CHR ''='') (g @ CHR ''='' # t) = g"
      using assms by (subst takeWhile_append2; fastforce)+
    with that show ?thesis by simp
  qed
  then show ?thesis by (auto simp: has_prefix_iff)
qed

lemma find_equal: "f \<in> set fs \<Longrightarrow> List.find (\<lambda>g. g = f) fs = Some f"
  by (induction fs) auto

lemma find_cong: "(\<And>g. g \<in> set fs \<Longrightarrow> P g = Q g) \<Longrightarrow> List.find P fs = List.find Q fs"
  by (induction fs) auto

lemma inline_flag_found: "f \<in> set inline_flags \<Longrightarrow> inline_flag (f @ CHR ''='' # v) = Some f"
proof -
  assume f: "f \<in> set inline_flags"
  have "inline_flag (f @ CHR ''='' # v) = List.find (\<lambda>g. g = f) inline_flags"
    unfolding inline_flag_def by (rule find_cong) (simp only: prefix_at_equals flag_plain f not_False_eq_True)
  with find_equal [OF f] show ?thesis by simp
qed

lemma inline_not_value: "f @ CHR ''='' # v \<notin> set value_flags"
  using flags_plain by (auto simp: list_all_iff)

lemma inline_in_value: "f \<in> set inline_flags \<Longrightarrow> f \<in> set value_flags"
  by (simp add: value_flags_def)

text \<open>Every flag that takes a value means the same written as two arguments and as one.\<close>

theorem flag_spellings_agree:
  "list_all (\<lambda>f. parse_loop ((f @ ''='' @ v) # args) a cmd rest = parse_loop (f # v # args) a cmd rest) inline_flags"
proof -
  have "parse_loop ((f @ ''='' @ v) # args) a cmd rest = parse_loop (f # v # args) a cmd rest"
    if "f \<in> set inline_flags" for f
    using inline_flag_found [OF that] inline_not_value [of f v] inline_in_value [OF that] by simp
  then show ?thesis by (simp add: list_all_iff)
qed

subsection \<open>The daemon is started with what was checked\<close>

lemma parse_value_flag:
  "f \<in> set value_flags \<Longrightarrow> set_flag f v a = Inr a1 \<Longrightarrow> parse_loop (f # v # args) a cmd rest = parse_loop args a1 cmd rest"
  by simp

lemma parse_services:
  "parse_loop (concat (map (\<lambda>s. [''--svc'', s]) ss) @ args) a cmd rest =
     parse_loop args (a\<lparr>ap_services := ap_services a @ ss\<rparr>) cmd rest"
proof (induction ss arbitrary: a)
  case (Cons s ss)
  have "set_flag ''--svc'' s a = Inr (a\<lparr>ap_services := ap_services a @ [s]\<rparr>)" by (simp add: set_flag_def)
  then show ?case using Cons by (simp add: value_flags_def inline_flags_def)
qed simp

lemma parse_disabled:
  "parse_loop (concat (map (\<lambda>s. [''--disable-svc'', s]) ss) @ args) a cmd rest =
     parse_loop args (a\<lparr>ap_disabled := ap_disabled a @ ss\<rparr>) cmd rest"
proof (induction ss arbitrary: a)
  case (Cons s ss)
  have "set_flag ''--disable-svc'' s a = Inr (a\<lparr>ap_disabled := ap_disabled a @ [s]\<rparr>)" by (simp add: set_flag_def)
  then show ?case using Cons by (simp add: value_flags_def inline_flags_def)
qed simp

lemma parse_optional:
  assumes "f \<in> set value_flags" "v \<noteq> [] \<Longrightarrow> set_flag f v a = Inr a1" "v = [] \<Longrightarrow> a1 = a"
  shows "parse_loop ((if v \<noteq> [] then [f, v] else []) @ args) a cmd rest = parse_loop args a1 cmd rest"
  using assms by simp

definition daemon_app :: "app \<Rightarrow> app" where
  "daemon_app a =
     new_app\<lparr>ap_config_file := (if ap_no_config a then [] else ap_config_file a), ap_no_config := ap_no_config a,
       ap_context := ap_context a, ap_namespace := ap_namespace a, ap_services := ap_services a,
       ap_disabled := ap_disabled a, ap_verbose := ap_verbose a\<rparr>"

lemma launch_parsed: "parse_args (launch_args a) = Inr (daemon_app a, ''_daemon'', [])"
proof -
  let ?a1 = "new_app\<lparr>ap_config_file := (if ap_no_config a then [] else ap_config_file a), ap_no_config := ap_no_config a\<rparr>"
  let ?a2 = "?a1\<lparr>ap_context := ap_context a\<rparr>" let ?a3 = "?a2\<lparr>ap_namespace := ap_namespace a\<rparr>"
  have 0: "parse_loop (''_daemon'' # args) new_app [] [] = parse_loop args new_app ''_daemon'' []" for args
    by (simp add: value_flags_def inline_flags_def inline_flag_def switch_flags_def)
  have 1: "parse_loop ((if ap_no_config a then [''--no-config'']
        else if ap_config_file a \<noteq> [] then [''--config'', ap_config_file a] else []) @ args) new_app ''_daemon'' []
      = parse_loop args ?a1 ''_daemon'' []" for args
    by (simp add: value_flags_def inline_flags_def inline_flag_def switch_flags_def set_flag_def set_switch_def new_app_def)
  have 2: "parse_loop ((if ap_context a \<noteq> [] then [''--context'', ap_context a] else []) @ args) ?a1 ''_daemon'' []
      = parse_loop args ?a2 ''_daemon'' []" for args
    by (rule parse_optional) (simp_all add: value_flags_def inline_flags_def set_flag_def new_app_def)
  have 3: "parse_loop ((if ap_namespace a \<noteq> [] then [''--namespace'', ap_namespace a] else []) @ args) ?a2 ''_daemon'' []
      = parse_loop args ?a3 ''_daemon'' []" for args
    by (rule parse_optional) (simp_all add: value_flags_def inline_flags_def set_flag_def new_app_def)
  have 4: "parse_loop (if ap_verbose a then [''--verbose''] else []) b ''_daemon'' [] =
      Inr (b\<lparr>ap_verbose := ap_verbose a \<or> ap_verbose b\<rparr>, ''_daemon'', [])" for b
    by (simp add: value_flags_def inline_flags_def inline_flag_def switch_flags_def set_switch_def)
  show ?thesis
    unfolding parse_args_def launch_args_def append_Cons append_Nil 0 1 2 3 parse_services parse_disabled 4
    by (simp add: daemon_app_def new_app_def)
qed

lemma load_file_daemon:
  assumes "load_file env cd cli path a0 = Inr a" "path \<noteq> [] \<or> ap_config_file d = []"
    and "ap_context d = ap_context a0" "ap_namespace d = ap_namespace a0" "ap_disabled d = ap_disabled a0"
  shows "\<exists>d'. load_file env cd cli path d = Inr d' \<and> ap_cfg d' = ap_cfg a"
proof -
  have "apply_overrides d cli cfg = apply_overrides a0 cli cfg" for cfg
    using assms(3-5) by (simp add: apply_overrides_def)
  with assms(1) show ?thesis by (auto simp: load_file_def Let_def result_simps)
qed

lemma build_daemon:
  assumes "build_config_from_cli cli a0 = Inr a" "ap_context d = ap_context a0" "ap_namespace d = ap_namespace a0"
  shows "\<exists>d'. build_config_from_cli cli d = Inr d' \<and> ap_cfg d' = ap_cfg a"
  using assms by (auto simp: build_config_from_cli_def Let_def result_simps split: if_splits)

lemma build_keeps: "build_config_from_cli cli a0 = Inr a \<Longrightarrow> a = a0\<lparr>ap_cfg := ap_cfg a\<rparr>"
  by (auto simp: build_config_from_cli_def Let_def result_simps split: if_splits)

lemma load_file_keeps: "load_file env cd cli path a0 = Inr a \<Longrightarrow> a = a0\<lparr>ap_config_file := path, ap_cfg := ap_cfg a\<rparr>"
  by (auto simp: load_file_def Let_def result_simps)

lemma load_daemon:
  assumes "load_app_config env cd a0 = Inr a"
  shows "\<exists>d'. load_app_config env cd (daemon_app a) = Inr d' \<and> ap_cfg d' = ap_cfg a"
proof -
  let ?d = "daemon_app a"
  from assms obtain cli where cli: "map_result parse_svc_flag (ap_services a0) = Inr cli"
    by (auto simp: load_app_config_def result_simps)
  consider
      (built) "ap_no_config a0 \<or> (cli \<noteq> [] \<and> ap_config_file a0 = [] \<and> discover env = None)"
        and "build_config_from_cli cli a0 = Inr a"
    | (named) "\<not> ap_no_config a0" and "ap_config_file a0 \<noteq> []"
        and "load_file env cd cli (ap_config_file a0) a0 = Inr a"
    | (found) path where "\<not> ap_no_config a0" and "ap_config_file a0 = []" and "discover env = Some path"
        and "load_file env cd cli path a0 = Inr a"
    using assms cli by (auto simp: load_app_config_def result_simps split: if_splits option.splits)
  then show ?thesis
  proof cases
    case built
    then have k: "a = a0\<lparr>ap_cfg := ap_cfg a\<rparr>" by (intro build_keeps)
    have f: "ap_no_config a = ap_no_config a0" "ap_config_file a = ap_config_file a0" "ap_services a = ap_services a0"
      "ap_context a = ap_context a0" "ap_namespace a = ap_namespace a0" by (subst k, simp)+
    have "\<exists>d'. build_config_from_cli cli ?d = Inr d' \<and> ap_cfg d' = ap_cfg a"
      using built(2) by (rule build_daemon) (simp_all add: daemon_app_def f)
    then show ?thesis using built(1) cli by (auto simp: load_app_config_def result_simps daemon_app_def f)
  next
    case named
    then have k: "a = a0\<lparr>ap_config_file := ap_config_file a0, ap_cfg := ap_cfg a\<rparr>" by (intro load_file_keeps)
    have f: "ap_no_config a = ap_no_config a0" "ap_config_file a = ap_config_file a0" "ap_services a = ap_services a0"
      "ap_context a = ap_context a0" "ap_namespace a = ap_namespace a0" "ap_disabled a = ap_disabled a0"
      by (subst k, simp)+
    have "\<exists>d'. load_file env cd cli (ap_config_file a0) ?d = Inr d' \<and> ap_cfg d' = ap_cfg a"
      using named(3) by (rule load_file_daemon) (simp_all add: named(2) daemon_app_def f)
    then show ?thesis using named(1,2) cli by (auto simp: load_app_config_def result_simps daemon_app_def f)
  next
    case (found path)
    then have k: "a = a0\<lparr>ap_config_file := path, ap_cfg := ap_cfg a\<rparr>" by (intro load_file_keeps)
    have f: "ap_no_config a = ap_no_config a0" "ap_config_file a = path" "ap_services a = ap_services a0"
      "ap_context a = ap_context a0" "ap_namespace a = ap_namespace a0" "ap_disabled a = ap_disabled a0"
      by (subst k, simp)+
    have "\<exists>d'. load_file env cd cli path ?d = Inr d' \<and> ap_cfg d' = ap_cfg a"
      using found(4) by (rule load_file_daemon) (auto simp: daemon_app_def f)
    then show ?thesis using found(1,3) cli by (auto simp: load_app_config_def result_simps daemon_app_def f)
  qed
qed

text \<open>C9: the background daemon runs the configuration that the start command checked.  The flags it
  is started with are parsed without error, and the configuration it loads by them, whether from
  a file, with overrides, or from flags alone, is the one the command had loaded.\<close>

theorem daemon_runs_checked_config:
  assumes "load_app_config env cd a0 = Inr a"
  shows "\<exists>d d'. parse_args (launch_args a) = Inr (d, ''_daemon'', [])
    \<and> load_app_config env cd d = Inr d' \<and> ap_cfg d' = ap_cfg a \<and> ap_cfg a \<noteq> None"
proof -
  have "ap_cfg a \<noteq> None"
    using assms
    by (auto simp: load_app_config_def build_config_from_cli_def load_file_def Let_def result_simps
        split: if_splits option.splits)
  with launch_parsed load_daemon [OF assms] show ?thesis by blast
qed

subsection \<open>Specifications are read back\<close>

text \<open>What a \<^verbatim>\<open>--svc\<close> text can say of the ports, the text, and the service it stands for.\<close>

datatype port_choice = OnePort int int | AllPorts int | NamedPorts "string list" int

definition ports_text :: "port_choice \<Rightarrow> string" where
  "ports_text p =
     (case p of
        OnePort remote local \<Rightarrow> itoa remote @ '':'' @ itoa local
      | AllPorts off \<Rightarrow> ''all:+'' @ itoa off
      | NamedPorts names off \<Rightarrow> join '','' names @ '':+'' @ itoa off)"

definition spec_text :: "string \<Rightarrow> bool \<Rightarrow> string \<Rightarrow> port_choice \<Rightarrow> string \<Rightarrow> string" where
  "spec_text name pod t p nspace =
     name @ '':'' @ (if pod then ''pod/'' else ''svc/'') @ t @ '':'' @ ports_text p @ '':'' @ nspace"

definition spec_service :: "string \<Rightarrow> bool \<Rightarrow> string \<Rightarrow> port_choice \<Rightarrow> string \<Rightarrow> service_config" where
  "spec_service name pod t p nspace =
     (let svc = zero_service\<lparr>svc_name := name, svc_service := (if pod then [] else t),
            svc_pod := (if pod then t else []), svc_namespace := nspace\<rparr>
      in case p of
           OnePort remote local \<Rightarrow> svc\<lparr>svc_remote_port := remote, svc_local_port := local\<rparr>
         | AllPorts off \<Rightarrow> svc\<lparr>svc_ports := \<lparr>pc_all = True, pc_selectors = []\<rparr>, svc_local_port_offset := off\<rparr>
         | NamedPorts names off \<Rightarrow>
             svc\<lparr>svc_ports := \<lparr>pc_all = False,
                   pc_selectors = map (\<lambda>n. \<lparr>sel_name = n, sel_port = 0, sel_local_port = 0\<rparr>) names\<rparr>,
                 svc_local_port_offset := off\<rparr>)"

definition in_range :: "int \<Rightarrow> bool" where
  "in_range n \<longleftrightarrow> 0 \<le> n \<and> n < 2 ^ 63"

definition plain_name :: "string \<Rightarrow> bool" where
  "plain_name n \<longleftrightarrow> n \<noteq> [] \<and> list_all (\<lambda>c. c \<noteq> CHR '':'' \<and> c \<noteq> CHR '','' \<and> \<not> is_space c) n"

definition plain_choice :: "port_choice \<Rightarrow> bool" where
  "plain_choice p =
     (case p of
        OnePort remote local \<Rightarrow> in_range remote \<and> in_range local
      | AllPorts off \<Rightarrow> in_range off
      | NamedPorts names off \<Rightarrow> in_range off \<and> 2 \<le> length names \<and> list_all plain_name names)"

lemma five_parts:
  assumes "CHR '':'' \<notin> set a" "CHR '':'' \<notin> set b" "CHR '':'' \<notin> set c" "CHR '':'' \<notin> set d"
  shows "split_char_n (CHR '':'') 5 (a @ CHR '':'' # b @ CHR '':'' # c @ CHR '':'' # d @ CHR '':'' # e) = [a, b, c, d, e]"
  using assms by (simp add: numeral_eq_Suc cut_char)

lemma digit_not_colon: "in_range n \<Longrightarrow> CHR '':'' \<notin> set (itoa n)"
proof
  assume "in_range n" "CHR '':'' \<in> set (itoa n)"
  then have "is_digit (CHR '':'')" by (auto simp: in_range_def intro: itoa_char)
  moreover have "\<not> is_digit (CHR '':'')" by code_simp
  ultimately show False by blast
qed

lemma atoi_in_range: "in_range n \<Longrightarrow> atoi (itoa n) = Some n"
  by (simp add: in_range_def)

lemma spec_target_text: "t \<noteq> [] \<Longrightarrow>
  spec_target ((if pod then ''pod/'' else ''svc/'') @ t) s = Inr (if pod then s\<lparr>svc_pod := t\<rparr> else s\<lparr>svc_service := t\<rparr>)"
  using cut_char [of "CHR ''/''" "''pod''" t] cut_char [of "CHR ''/''" "''svc''" t]
  by (simp add: spec_target_def numeral_2_eq_2)

lemma atoi_comma: "CHR '','' \<in> set s \<Longrightarrow> atoi s = None"
proof -
  assume c: "CHR '','' \<in> set s"
  have "\<not> is_digit (CHR '','')" by code_simp
  with c show ?thesis
    by (cases s) (auto simp: atoi_def parse_digits_def list_all_iff split: if_splits)
qed

lemma join_mem: "c \<in> set (join sep ws) \<Longrightarrow> c \<in> set sep \<or> (\<exists>w\<in>set ws. c \<in> set w)"
  by (induction sep ws rule: join.induct) auto

lemma plain_names_split:
  assumes "list_all plain_name names" "2 \<le> length names"
  shows "spec_ports (join '','' names) = \<lparr>pc_all = False,
      pc_selectors = map (\<lambda>n. \<lparr>sel_name = n, sel_port = 0, sel_local_port = 0\<rparr>) names\<rparr>"
    and "CHR '','' \<in> set (join '','' names)" and "CHR '':'' \<notin> set (join '','' names)"
proof -
  have ne: "names \<noteq> []" using assms(2) by auto
  have "split_char (CHR '','') (join '','' names) = names"
    using assms(1) by (intro split_join ne) (auto simp: list_all_iff plain_name_def)
  moreover have "filter (\<lambda>n. n \<noteq> []) (map trim_space names) = names"
    using assms(1) by (induction names) (auto simp: plain_name_def list_all_iff trim_space_no_space)
  moreover show comma: "CHR '','' \<in> set (join '','' names)"
    using assms(2) by (cases names; cases "tl names") auto
  then have "join '','' names \<noteq> ''all''" by auto
  ultimately show "spec_ports (join '','' names) = \<lparr>pc_all = False,
      pc_selectors = map (\<lambda>n. \<lparr>sel_name = n, sel_port = 0, sel_local_port = 0\<rparr>) names\<rparr>"
    by (simp add: spec_ports_def)
  show "CHR '':'' \<notin> set (join '','' names)"
    using assms(1) join_mem [of "CHR '':''" "'',''" names] by (auto simp: list_all_iff plain_name_def)
qed

lemma spec_text_parts:
  assumes "CHR '':'' \<notin> set name" "CHR '':'' \<notin> set t" "CHR '':'' \<notin> set x" "CHR '':'' \<notin> set y"
  shows "split_char_n (CHR '':'') 5 (name @ '':'' @ (if pod then ''pod/'' else ''svc/'') @ t @ '':'' @ (x @ '':'' @ y) @ '':'' @ z) =
     [name, (if pod then ''pod/'' else ''svc/'') @ t, x, y, z]"
  using five_parts [of name "(if pod then ''pod/'' else ''svc/'') @ t" x y z] assms by (cases pod) simp_all

text \<open>A service written as a \<^verbatim>\<open>--svc\<close> text is the service that is read from it, with one port,
  with a list of port names, or with every port; only a colon in a name makes it ambiguous.\<close>

theorem svc_flag_round_trip:
  assumes "CHR '':'' \<notin> set name" and "t \<noteq> []" "CHR '':'' \<notin> set t" and "plain_choice p"
  shows "parse_svc_flag (spec_text name pod t p nspace) = Inr (spec_service name pod t p nspace)"
proof (cases p)
  case (OnePort remote local)
  with assms(4) have r: "in_range remote" "in_range local" by (auto simp: plain_choice_def)
  have "itoa remote \<noteq> ''all''" using atoi_in_range [OF r(1)] by (auto simp: atoi_def parse_digits_def is_digit_def char_val_def)
  then show ?thesis
    using spec_text_parts [OF assms(1,3) digit_not_colon [OF r(1)] digit_not_colon [OF r(2)], of pod nspace] assms(2)
    by (simp add: parse_svc_flag_def spec_text_def ports_text_def OnePort spec_service_def spec_target_text Let_def
        is_numeric_def atoi_in_range r spec_single_def zero_service_def)
next
  case (AllPorts off)
  with assms(4) have r: "in_range off" by (simp add: plain_choice_def)
  have "CHR '':'' \<notin> set (''+'' @ itoa off)" using digit_not_colon [OF r] by simp
  then show ?thesis
    using spec_text_parts [OF assms(1,3), of "''all''" "''+'' @ itoa off" pod nspace] assms(2)
    by (simp add: parse_svc_flag_def spec_text_def ports_text_def AllPorts spec_service_def spec_target_text Let_def
        atoi_in_range r spec_multi_def part_def spec_ports_def zero_service_def)
next
  case (NamedPorts names off)
  with assms(4) have r: "in_range off" and n: "2 \<le> length names" "list_all plain_name names"
    by (auto simp: plain_choice_def)
  note names = plain_names_split [OF n(2,1)]
  have "CHR '':'' \<notin> set (''+'' @ itoa off)" using digit_not_colon [OF r] by simp
  then show ?thesis
    using spec_text_parts [OF assms(1,3) names(3), of "''+'' @ itoa off" pod nspace] assms(2) names(2)
    by (simp add: parse_svc_flag_def spec_text_def ports_text_def NamedPorts spec_service_def spec_target_text Let_def
        atoi_in_range r spec_multi_def part_def names(1) is_numeric_def atoi_comma zero_service_def)
qed

theorem svc_flag_round_trip_witness:
  "parse_svc_flag (spec_text ''db'' False ''postgres'' (NamedPorts [''sql'', ''metrics''] 10000) ''prod'') =
     Inr (spec_service ''db'' False ''postgres'' (NamedPorts [''sql'', ''metrics''] 10000) ''prod'')"
proof (rule svc_flag_round_trip)
  show "plain_choice (NamedPorts [''sql'', ''metrics''] 10000)"
    by (simp add: plain_choice_def in_range_def plain_name_def is_space_def char_val_def)
qed simp_all

subsection \<open>Flags override the file\<close>

definition first_named :: "string \<Rightarrow> service_config list \<Rightarrow> service_config option" where
  "first_named n svcs = List.find (\<lambda>s. to_lower (svc_name s) = n) svcs"

lemma first_named_simps [simp]:
  "first_named n [] = None"
  "first_named n (s # ss) = (if to_lower (svc_name s) = n then Some s else first_named n ss)"
  by (simp_all add: first_named_def)

lemma first_named_override:
  "first_named n (override_one cs svcs) = (if to_lower (svc_name cs) = n then Some cs else first_named n svcs)"
  by (induction svcs) (auto simp: equal_fold_def)

lemma first_named_append:
  "first_named n (xs @ ys) = (case first_named n xs of Some s \<Rightarrow> Some s | None \<Rightarrow> first_named n ys)"
  by (induction xs) auto

lemma first_named_overrides:
  "first_named n (override_services cli svcs) =
     (case first_named n (rev cli) of Some s \<Rightarrow> Some s | None \<Rightarrow> first_named n svcs)"
  unfolding override_services_def
  by (induction cli arbitrary: svcs) (auto simp: first_named_override first_named_append split: option.splits)

lemma first_named_disabled:
  "first_named n (disable_services names svcs) = (if n \<in> to_lower ` set names then None else first_named n svcs)"
  unfolding disable_services_def by (induction svcs) auto

text \<open>C32: the flags override the configuration file service by service.  Whatever the names in the
  file and on the command line, a name, its case aside, stands for the last \<^verbatim>\<open>--svc\<close> of that name if
  there is one, else for nothing if it is disabled, else for what the file says of it.\<close>

theorem cli_overrides_config:
  assumes "load_config env cd path = Inr cfg0" "load_file env cd cli path a0 = Inr a" "ap_cfg a = Some cfg"
  shows "first_named n (cfg_services cfg) =
     (case first_named n (rev cli) of
        Some s \<Rightarrow> Some s
      | None \<Rightarrow> if n \<in> set (map to_lower (ap_disabled a0)) then None else first_named n (cfg_services cfg0))"
proof -
  have "cfg = apply_overrides a0 cli cfg0"
    using assms by (auto simp: load_file_def Let_def result_simps wrap_err_def)
  then show ?thesis by (simp add: apply_overrides_def first_named_overrides first_named_disabled split: option.split)
qed

definition demo_env :: os_env where
  "demo_env = \<lparr>os_home = None, os_cwd = ''/w'', os_tmp = ''/tmp'', os_files = [(''/w/kubeport.yaml'', ''x'')],
     os_vars = [], os_writable = (\<lambda>_. True), os_cut = (\<lambda>_. None), os_path_max = 4096\<rparr>"

definition demo_service :: "string \<Rightarrow> int \<Rightarrow> service_config" where
  "demo_service name local =
     zero_service\<lparr>svc_name := name, svc_service := name, svc_remote_port := 80, svc_local_port := local\<rparr>"

definition demo_codecs :: codecs where
  "demo_codecs = \<lparr>dec_yaml = (\<lambda>_. Some (zero_config\<lparr>cfg_context := ''dev'', cfg_namespace := ''default'',
     cfg_services := [demo_service ''web'' 8080, demo_service ''db'' 5432, demo_service ''mq'' 6000]\<rparr>)),
     dec_toml = (\<lambda>_. None)\<rparr>"

definition demo_app :: app where
  "demo_app = new_app\<lparr>ap_config_file := ''kubeport.yaml'', ap_services := [''WEB:svc/web:80:9090''],
     ap_disabled := [''Db'']\<rparr>"

definition demo_loaded :: config where
  "demo_loaded = zero_config\<lparr>cfg_context := ''dev'', cfg_namespace := ''default'',
     cfg_services := [demo_service ''web'' 8080, demo_service ''db'' 5432, demo_service ''mq'' 6000],
     cfg_file_path := ''kubeport.yaml''\<rparr>"

definition demo_config :: config where
  "demo_config = demo_loaded\<lparr>cfg_services := [demo_service ''WEB'' 9090\<lparr>svc_service := ''web''\<rparr>, demo_service ''mq'' 6000]\<rparr>"

lemma demo_loads: "load_config demo_env demo_codecs ''kubeport.yaml'' = Inr demo_loaded"
proof -
  have "detect_format ''kubeport.yaml'' = FormatYAML" "read_file demo_env ''kubeport.yaml'' = Some ''x''" by code_simp+
  then have "load_raw demo_env demo_codecs ''kubeport.yaml'' = Inr demo_loaded"
    by (simp add: load_raw_def decode_config_def demo_codecs_def demo_loaded_def zero_config_def)
  moreover have "getenv demo_env v = []" for v by (simp add: getenv_def gget0_def demo_env_def)
  moreover have "cfg_extends demo_loaded = []" by (simp add: demo_loaded_def zero_config_def)
  ultimately show ?thesis
    by (simp add: load_config_def load_with_inheritance.simps override_env_def or_string_def)
qed

lemma demo_spec: "map_result parse_svc_flag (ap_services demo_app) = Inr [demo_service ''WEB'' 9090\<lparr>svc_service := ''web''\<rparr>]"
  by code_simp

lemma demo_valid: "validate_config demo_config = Inr ()"
  by code_simp

lemma demo_file: "load_file demo_env demo_codecs [demo_service ''WEB'' 9090\<lparr>svc_service := ''web''\<rparr>] ''kubeport.yaml'' demo_app =
  Inr (demo_app\<lparr>ap_cfg := Some demo_config\<rparr>)"
proof -
  let ?cli = "[demo_service ''WEB'' 9090\<lparr>svc_service := ''web''\<rparr>]"
  have "apply_overrides demo_app ?cli demo_loaded = demo_config" by code_simp
  then show ?thesis by (simp add: load_file_def demo_loads demo_valid wrap_err_def demo_app_def)
qed

theorem cli_overrides_config_witness:
  "first_named ''web'' (cfg_services demo_config) = Some (demo_service ''WEB'' 9090\<lparr>svc_service := ''web''\<rparr>)
   \<and> first_named ''db'' (cfg_services demo_config) = None
   \<and> first_named ''mq'' (cfg_services demo_config) = Some (demo_service ''mq'' 6000)"
proof -
  have "ap_cfg (demo_app\<lparr>ap_cfg := Some demo_config\<rparr>) = Some demo_config" by simp
  from cli_overrides_config [OF demo_loads demo_file this]
  show ?thesis by (simp only:) code_simp
qed

theorem daemon_runs_checked_config_witness:
  "\<exists>d d'. parse_args (launch_args (demo_app\<lparr>ap_cfg := Some demo_config\<rparr>)) = Inr (d, ''_daemon'', [])
     \<and> load_app_config demo_env demo_codecs d = Inr d' \<and> ap_cfg d' = Some demo_config"
proof -
  have "load_app_config demo_env demo_codecs demo_app = Inr (demo_app\<lparr>ap_cfg := Some demo_config\<rparr>)"
    using demo_spec demo_file by (simp add: load_app_config_def wrap_err_def) (simp add: demo_app_def new_app_def)
  from daemon_runs_checked_config [OF this] show ?thesis by simp
qed

end
