(* ===== verification/Convert.thy ===== *)
theory Convert
  imports ManagerView Files
begin

text \<open>
  The messages of the daemon's RPC interface (\<^verbatim>\<open>proto/kubeport/v1/daemon.proto\<close>) that carry data of the
  model, and the conversions between them and the program's own types: \<^verbatim>\<open>internal/daemon/convert.go\<close>
  on the server side and \<^verbatim>\<open>serviceConfigToProto\<close> of \<^verbatim>\<open>internal/cli/cmd_start.go\<close> on the client side.
  Integers of 32 bits are wrapped where the code converts.
\<close>

subsection \<open>Messages\<close>

record service_info =
  si_name :: string
  si_service :: string
  si_pod :: string
  si_local_port :: int
  si_remote_port :: int
  si_namespace :: string
  si_parent_name :: string
  si_port_name :: string

record port_spec_msg =
  ps_all :: bool
  ps_port_names :: "string list"
  ps_exclude_ports :: "string list"
  ps_local_port_offset :: int

datatype proto_state =
    ProtoUnspecified | ProtoStarting | ProtoRunning | ProtoFailed | ProtoStopped | ProtoWaiting | ProtoExternal

record status_msg =
  sm_service :: service_info
  sm_state :: proto_state
  sm_error :: string
  sm_restarts :: int
  sm_last_start :: int
  sm_connected :: bool
  sm_actual_port :: int
  sm_next_retry :: "int option"
  sm_bytes_in :: int
  sm_bytes_out :: int
  sm_latency_ms :: int
  sm_jitter_ms :: int
  sm_bandwidth :: int
  sm_chaos_enabled :: bool
  sm_chaos_error_rate :: f64
  sm_chaos_spike_probability :: f64
  sm_chaos_spike_ms :: int
  sm_errors_injected :: int
  sm_spikes_injected :: int
  sm_conn_bytes_in :: int
  sm_conn_bytes_out :: int
  sm_lazy :: bool
  sm_tunnel_open :: bool
  sm_connection_mode :: string
  sm_source_config :: string
  sm_external_instance :: string
  sm_external_pid :: int

record add_request =
  ar_service :: "service_info option"
  ar_persist :: bool
  ar_ports :: "port_spec_msg option"
  ar_source_config :: string

subsection \<open>Conversions on the server\<close>

fun convert_state :: "forward_state \<Rightarrow> proto_state" where
  "convert_state StateStarting = ProtoStarting"
| "convert_state StateRunning = ProtoRunning"
| "convert_state StateFailed = ProtoFailed"
| "convert_state StateStopped = ProtoStopped"
| "convert_state StateWaiting = ProtoWaiting"
| "convert_state StateExternal = ProtoExternal"

definition milliseconds :: "int \<Rightarrow> int" where
  "milliseconds d = quot d millisec"

definition convert_forward_status :: "(run_err \<Rightarrow> string) \<Rightarrow> forward_status \<Rightarrow> status_msg" where
  "convert_forward_status err_text fs =
     \<lparr>sm_service =
        \<lparr>si_name = svc_name (fs_service fs), si_service = svc_service (fs_service fs),
         si_pod = svc_pod (fs_service fs), si_local_port = wrap32 (svc_local_port (fs_service fs)),
         si_remote_port = wrap32 (svc_remote_port (fs_service fs)),
         si_namespace = svc_namespace (fs_service fs), si_parent_name = svc_parent_name (fs_service fs),
         si_port_name = svc_port_name (fs_service fs)\<rparr>,
      sm_state = convert_state (fs_state fs),
      sm_error = (case fs_error fs of None \<Rightarrow> [] | Some e \<Rightarrow> err_text e),
      sm_restarts = wrap32 (fs_restarts fs), sm_last_start = fs_last_start fs,
      sm_connected = fs_connected fs, sm_actual_port = wrap32 (fs_actual_port fs),
      sm_next_retry = fs_next_retry fs, sm_bytes_in = bytes_in (fs_counter fs),
      sm_bytes_out = bytes_out (fs_counter fs), sm_latency_ms = milliseconds (pn_latency (fs_network fs)),
      sm_jitter_ms = milliseconds (pn_jitter (fs_network fs)),
      sm_bandwidth = pn_bytes_per_sec (fs_network fs), sm_chaos_enabled = fs_chaos_enabled fs,
      sm_chaos_error_rate = fs_chaos_error_rate fs,
      sm_chaos_spike_probability = fs_chaos_spike_probability fs,
      sm_chaos_spike_ms = milliseconds (fs_chaos_spike_duration fs),
      sm_errors_injected = errors_injected (counter_chaos (fs_counter fs)),
      sm_spikes_injected = spikes_injected (counter_chaos (fs_counter fs)),
      sm_conn_bytes_in = conn_bytes_in (fs_counter fs), sm_conn_bytes_out = conn_bytes_out (fs_counter fs),
      sm_lazy = fs_lazy fs, sm_tunnel_open = fs_tunnel_open fs,
      sm_connection_mode = fs_connection_mode fs, sm_source_config = fs_source_config fs,
      sm_external_instance = fs_external_instance fs, sm_external_pid = wrap32 (fs_external_pid fs)\<rparr>"

definition service_info_to_config :: "service_info \<Rightarrow> service_config" where
  "service_info_to_config si =
     zero_service\<lparr>svc_name := si_name si, svc_service := si_service si, svc_pod := si_pod si,
       svc_local_port := si_local_port si, svc_remote_port := si_remote_port si,
       svc_namespace := si_namespace si\<rparr>"

definition port_spec_to_config :: "port_spec_msg \<Rightarrow> ports_config \<times> string list \<times> int" where
  "port_spec_to_config m =
     (\<lparr>pc_all = ps_all m,
       pc_selectors = map (\<lambda>n. \<lparr>sel_name = n, sel_port = 0, sel_local_port = 0\<rparr>) (ps_port_names m)\<rparr>,
      ps_exclude_ports m, ps_local_port_offset m)"

text \<open>The service an add request stands for (the first half of \<^verbatim>\<open>Server.AddService\<close>).\<close>

definition requested_service :: "add_request \<Rightarrow> service_info \<Rightarrow> service_config" where
  "requested_service req si =
     (let svc = (service_info_to_config si)\<lparr>svc_source_config := ar_source_config req\<rparr>
      in case ar_ports req of
           None \<Rightarrow> svc
         | Some m \<Rightarrow>
             (case port_spec_to_config m of
                (ports, excluded, offset) \<Rightarrow>
                  svc\<lparr>svc_ports := ports, svc_exclude_ports := excluded, svc_local_port_offset := offset,
                      svc_remote_port := 0, svc_local_port := 0\<rparr>))"

subsection \<open>Conversions on the client\<close>

definition service_config_to_proto :: "service_config \<Rightarrow> add_request" where
  "service_config_to_proto svc =
     \<lparr>ar_service = Some
        \<lparr>si_name = svc_name svc, si_service = svc_service svc, si_pod = svc_pod svc,
         si_local_port = wrap32 (svc_local_port svc), si_remote_port = wrap32 (svc_remote_port svc),
         si_namespace = svc_namespace svc, si_parent_name = [], si_port_name = []\<rparr>,
      ar_persist = False,
      ar_ports =
        (if is_multi_port svc
         then Some \<lparr>ps_all = pc_all (svc_ports svc),
                    ps_port_names = (if pc_all (svc_ports svc) then []
                                     else filter (\<lambda>n. n \<noteq> []) (map sel_name (pc_selectors (svc_ports svc)))),
                    ps_exclude_ports = [], ps_local_port_offset = wrap32 (svc_local_port_offset svc)\<rparr>
         else None),
      ar_source_config = []\<rparr>"

text \<open>What arrives at the daemon when a service is handed over.\<close>

definition handed_over :: "string \<Rightarrow> service_config \<Rightarrow> service_config" where
  "handed_over source svc =
     (let req = (service_config_to_proto svc)\<lparr>ar_source_config := source\<rparr>
      in case ar_service req of None \<Rightarrow> zero_service | Some si \<Rightarrow> requested_service req si)"

text \<open>The services that survive the hand-over: everything else they say is lost on the way.\<close>

definition portable :: "service_config \<Rightarrow> bool" where
  "portable svc \<longleftrightarrow>
     svc_network svc = zero_network \<and> svc_chaos svc = zero_chaos \<and> \<not> svc_lazy svc \<and> svc_connection_mode svc = []
     \<and> svc_parent_name svc = [] \<and> svc_port_name svc = [] \<and> svc_exclude_ports svc = []
     \<and> (is_multi_port svc \<longrightarrow>
          (if pc_all (svc_ports svc) then pc_selectors (svc_ports svc) = []
           else list_all (\<lambda>sel. sel_name sel \<noteq> [] \<and> sel_port sel = 0 \<and> sel_local_port sel = 0)
                  (pc_selectors (svc_ports svc))))"

subsection \<open>What survives the hand-over\<close>

lemma names_of_selectors:
  "(map (\<lambda>n. \<lparr>sel_name = n, sel_port = 0, sel_local_port = 0\<rparr>) (filter (\<lambda>n. n \<noteq> []) (map sel_name sels)) = sels)
   = list_all (\<lambda>sel. sel_name sel \<noteq> [] \<and> sel_port sel = 0 \<and> sel_local_port sel = 0) sels"
proof (induction sels)
  case (Cons sel sels)
  show ?case
  proof (cases "sel_name sel = []")
    case True
    have "length (filter (\<lambda>n. n \<noteq> []) (map sel_name sels)) < length (sel # sels)"
      using length_filter_le [of "\<lambda>n. n \<noteq> []" "map sel_name sels"]
      by (simp only: length_map length_Cons less_Suc_eq_le)
    then have "map (\<lambda>n. \<lparr>sel_name = n, sel_port = 0, sel_local_port = 0\<rparr>) (filter (\<lambda>n. n \<noteq> []) (map sel_name sels)) \<noteq> sel # sels"
      by (metis length_map nat_less_le)
    with True show ?thesis by simp
  next
    case False
    then show ?thesis using Cons.IH by (cases sel) auto
  qed
qed simp

lemma handed_over_alt:
  "handed_over source svc =
     zero_service\<lparr>svc_name := svc_name svc, svc_service := svc_service svc, svc_pod := svc_pod svc,
       svc_local_port := (if is_multi_port svc then 0 else wrap32 (svc_local_port svc)),
       svc_remote_port := (if is_multi_port svc then 0 else wrap32 (svc_remote_port svc)),
       svc_namespace := svc_namespace svc, svc_source_config := source,
       svc_ports := (if is_multi_port svc
         then \<lparr>pc_all = pc_all (svc_ports svc),
               pc_selectors = map (\<lambda>n. \<lparr>sel_name = n, sel_port = 0, sel_local_port = 0\<rparr>)
                 (if pc_all (svc_ports svc) then []
                  else filter (\<lambda>n. n \<noteq> []) (map sel_name (pc_selectors (svc_ports svc))))\<rparr>
         else zero_ports),
       svc_local_port_offset := (if is_multi_port svc then wrap32 (svc_local_port_offset svc) else 0)\<rparr>"
  by (simp add: handed_over_def service_config_to_proto_def requested_service_def Let_def
      port_spec_to_config_def service_info_to_config_def zero_service_def)

lemma ports_eq: "(\<lparr>pc_all = a, pc_selectors = l\<rparr> = p) = (pc_all p = a \<and> pc_selectors p = l)"
  by (cases p) auto

text \<open>C33: the hand-over of a valid service to another instance is faithful exactly for the
  services that use no network or chaos settings, no lazy or connection mode, no excluded ports
  and no port numbers in selectors; of any other service something is lost.\<close>

theorem hand_over_exact:
  assumes "service_ok svc" "svc_local_port_offset svc < 2 ^ 31"
  shows "(handed_over source svc = svc\<lparr>svc_source_config := source\<rparr>) = portable svc"
proof (cases "is_multi_port svc")
  case True
  then have p: "svc_remote_port svc = 0" "svc_local_port svc = 0" "0 \<le> svc_local_port_offset svc"
    using assms(1) by (auto simp: service_ok_def ports_ok_def)
  have w: "wrap32 (svc_local_port_offset svc) = svc_local_port_offset svc"
    using p(3) assms(2) by (intro wrap32_id) auto
  define names where "names = (if pc_all (svc_ports svc) then []
     else filter (\<lambda>n. n \<noteq> []) (map sel_name (pc_selectors (svc_ports svc))))"
  have n: "(\<lparr>pc_all = pc_all (svc_ports svc), pc_selectors =
        map (\<lambda>n. \<lparr>sel_name = n, sel_port = 0, sel_local_port = 0\<rparr>) names\<rparr> = svc_ports svc) \<longleftrightarrow>
      (if pc_all (svc_ports svc) then pc_selectors (svc_ports svc) = []
       else list_all (\<lambda>sel. sel_name sel \<noteq> [] \<and> sel_port sel = 0 \<and> sel_local_port sel = 0)
              (pc_selectors (svc_ports svc)))"
    using names_of_selectors [of "pc_selectors (svc_ports svc)"] by (auto simp: ports_eq names_def)
  show ?thesis
    unfolding handed_over_alt names_def [symmetric] portable_def
    using True p w n by (cases svc) (auto simp: zero_service_def)
next
  case False
  then have p: "0 \<le> svc_local_port svc" "svc_local_port svc \<le> 65535" "0 < svc_remote_port svc"
    "svc_remote_port svc \<le> 65535" "svc_exclude_ports svc = []" "svc_local_port_offset svc = 0"
    using assms(1) by (auto simp: service_ok_def ports_ok_def)
  have w: "wrap32 (svc_local_port svc) = svc_local_port svc" "wrap32 (svc_remote_port svc) = svc_remote_port svc"
    using p by (auto intro!: wrap32_id)
  have z: "svc_ports svc = zero_ports" using False by (auto simp: is_multi_port_def zero_ports_def intro: ports_config.equality)
  show ?thesis
    unfolding handed_over_alt portable_def
    using False p w z by (cases svc) (auto simp: zero_service_def)
qed

theorem hand_over_exact_witness:
  "handed_over ''/d.yaml'' (zero_service\<lparr>svc_name := ''web'', svc_service := ''web'', svc_remote_port := 80,
       svc_local_port := 8080\<rparr>)
     = zero_service\<lparr>svc_name := ''web'', svc_service := ''web'', svc_remote_port := 80, svc_local_port := 8080,
       svc_source_config := ''/d.yaml''\<rparr>"
proof -
  let ?s = "zero_service\<lparr>svc_name := ''web'', svc_service := ''web'', svc_remote_port := 80, svc_local_port := 8080\<rparr>"
  have "validate_service ?s = Inr ()" by code_simp
  then have "service_ok ?s" by (simp only: validate_service_iff)
  moreover have "svc_local_port_offset ?s < 2 ^ 31" "portable ?s" by code_simp+
  ultimately show ?thesis using hand_over_exact [of ?s "''/d.yaml''"] by simp
qed

end
