(* ===== verification/ManagerOps.thy ===== *)
theory ManagerOps
  imports ManagerView
begin

text \<open>
  Runs of the manager's operations: the start loop, adding and removing several services, releasing
  what a source contributed, and reloading (\<^verbatim>\<open>internal/proxy/manager.go\<close>).  The lemmas say what a run
  leaves of the registered forwards; the theorem is that a reload reaches its configuration.
\<close>

subsection \<open>Adding\<close>

lemma add_service_failed: "fst (add_service_mgr svc m) \<noteq> None \<Longrightarrow> snd (add_service_mgr svc m) = m"
  by (auto simp: add_service_mgr_def add_cmd_def split: sum.splits prod.splits if_splits)

lemma port_holder_free: "reserve_forward svc m = Inr r \<Longrightarrow>
    gget (mg_forwards m) (svc_name svc) = None \<and> gget (mg_children m) (svc_name svc) = None"
  by (auto simp: reserve_forward_def split: if_splits option.splits)

text \<open>Adding a service with one port.\<close>

lemma add_service_effect:
  assumes "add_service_mgr svc m = (e, m1)" "\<not> is_multi_port svc"
  obtains (refused) "e \<noteq> None" and "m1 = m"
  | (added) "e = None" and "mg_started m" and "\<not> mg_stopped m"
      and "gget (mg_forwards m) (svc_name svc) = None" and "gget (mg_children m) (svc_name svc) = None"
      and "mg_forwards m1 = mg_forwards m @ [(svc_name svc, mg_next m)]"
      and "mg_heap m1 = (mg_heap m)(mg_next m := new_forward svc (effective_namespace m svc))"
      and "mg_next m1 = Suc (mg_next m)" and "mg_children m1 = mg_children m"
      and "mg_started m1" and "\<not> mg_stopped m1"
proof (cases "fst (add_service_mgr svc m) = None")
  case True
  then have v: "validate_service svc = Inr ()" "mg_started m" "\<not> mg_stopped m"
    using assms(1) by (auto simp: add_service_mgr_def split: sum.splits if_splits)
  with assms(1) have c: "add_cmd svc m = (e, m1)" by (simp add: add_service_mgr_def)
  with True assms(1) obtain p m2 where r: "reserve_forward svc m = Inr (p, m2)"
    by (auto simp: add_cmd_def split: sum.splits)
  have f: "gget (mg_forwards m) (svc_name svc) = None" "gget (mg_children m) (svc_name svc) = None"
    using port_holder_free [OF r] by auto
  have "m2 = register_forward (svc_name svc) (new_forward svc (effective_namespace m svc)) m"
    using r assms(2) by (auto simp: reserve_forward_def split: if_splits option.splits)
  with r c v f show ?thesis
    by (intro added) (auto simp: add_cmd_def register_forward_def fire_event_def spawn_def gset_absent gget_None_iff)
next
  case False
  with assms(1) show ?thesis using add_service_failed [of svc m] by (intro refused) auto
qed

text \<open>The state after some services of a source were added to \<open>m\<close>: \<open>new\<close> are their names and addresses.\<close>

definition leased :: "string \<Rightarrow> manager \<Rightarrow> (string \<times> nat) list \<Rightarrow> manager \<Rightarrow> bool" where
  "leased source m new m1 \<longleftrightarrow>
     mg_forwards m1 = mg_forwards m @ new \<and> mg_children m1 = mg_children m
     \<and> distinct (map fst new) \<and> fst ` set new \<inter> fst ` set (mg_forwards m) = {}
     \<and> fst ` set new \<inter> fst ` set (mg_children m) = {}
     \<and> (\<forall>n i. (n, i) \<in> set new \<longrightarrow> fw_source_config (mg_heap m1 i) = source)
     \<and> (\<forall>n i. (n, i) \<in> set (mg_forwards m) \<longrightarrow> fw_source_config (mg_heap m1 i) = fw_source_config (mg_heap m i))
     \<and> (\<forall>n i. (n, i) \<in> set (mg_forwards m1) \<longrightarrow> i < mg_next m1)
     \<and> (new \<noteq> [] \<longrightarrow> mg_started m1 \<and> \<not> mg_stopped m1)"

lemma leased_add:
  assumes l: "leased source m new m1" and "add_service_mgr svc m1 = (e, m2)" "\<not> is_multi_port svc"
    and "svc_source_config svc = source"
  shows "leased source m (if e = None then new @ [(svc_name svc, mg_next m1)] else new) m2"
  using assms(2,3)
proof (cases rule: add_service_effect)
  case refused
  with l show ?thesis by auto
next
  case added
  have lt: "i < mg_next m1" if "(n, i) \<in> set (mg_forwards m) \<or> (n, i) \<in> set new" for n i
    using l that by (auto simp: leased_def)
  have free: "svc_name svc \<notin> fst ` set (mg_forwards m)" "svc_name svc \<notin> fst ` set new"
    "svc_name svc \<notin> fst ` set (mg_children m)"
    using added(4,5) l by (auto simp: gget_None_iff leased_def image_Un)
  have same: "mg_heap m2 i = mg_heap m1 i" if "(n, i) \<in> set (mg_forwards m) \<or> (n, i) \<in> set new" for n i
    using lt [OF that] added(7) by auto
  have s: "fw_source_config (mg_heap m2 (mg_next m1)) = source" using added(7) assms(4) by (simp add: new_forward_def)
  have "\<forall>n i. (n, i) \<in> set (mg_forwards m2) \<longrightarrow> i < mg_next m2"
    using lt l added(6,8) by (fastforce simp: leased_def less_Suc_eq)
  moreover have "\<forall>n i. (n, i) \<in> set (new @ [(svc_name svc, mg_next m1)]) \<longrightarrow> fw_source_config (mg_heap m2 i) = source"
    using l same s by (fastforce simp: leased_def)
  moreover have "\<forall>n i. (n, i) \<in> set (mg_forwards m) \<longrightarrow> fw_source_config (mg_heap m2 i) = fw_source_config (mg_heap m i)"
    using l same by (fastforce simp: leased_def)
  moreover have "mg_forwards m2 = mg_forwards m @ new @ [(svc_name svc, mg_next m1)]" "mg_children m2 = mg_children m"
    "distinct (map fst new)" "fst ` set new \<inter> fst ` set (mg_forwards m) = {}" "fst ` set new \<inter> fst ` set (mg_children m) = {}"
    using l added(6,9) by (simp_all add: leased_def)
  ultimately show ?thesis
    using free added(1,10,11) unfolding leased_def by simp
qed


subsection \<open>Removing and releasing\<close>

lemma children_fold:
  "n \<notin> set cs \<Longrightarrow> gget (foldl (\<lambda>a c. gset c parent a) acc cs) n = gget acc n"
  by (induction cs arbitrary: acc) auto

lemma no_parent:
  assumes "\<forall>cs \<in> snd ` set (mg_children m). n \<notin> set cs"
  shows "gget (child_to_parent m) n = None"
proof -
  have "gget (foldl (\<lambda>acc (parent, cs). foldl (\<lambda>a c. gset c parent a) acc cs) acc ps) n = gget acc n"
    if "\<forall>cs \<in> snd ` set ps. n \<notin> set cs" for acc ps
    using that by (induction ps arbitrary: acc) (auto simp: children_fold)
  from this [OF assms, of "[]"] show ?thesis by (simp add: child_to_parent_def)
qed

lemma gdel_filter_keys: "gdel n t = filter (\<lambda>(k, _). k \<noteq> n) t"
  by (induction n t rule: gdel.induct) auto

lemma remove_counted_effect:
  assumes "mg_started m" "\<not> mg_stopped m" "set ns \<subseteq> fst ` set (mg_forwards m)" "distinct ns"
    and "set ns \<inter> fst ` set (mg_children m) = {}"
  shows "fst (remove_counted ns (k, m)) = k + length ns
    \<and> mg_forwards (snd (remove_counted ns (k, m))) = filter (\<lambda>(n, _). n \<notin> set ns) (mg_forwards m)
    \<and> mg_children (snd (remove_counted ns (k, m))) = mg_children m"
  using assms
proof (induction ns arbitrary: k m)
  case (Cons n ns)
  then have "gget (mg_forwards m) n \<noteq> None" by (auto simp: gget_None_iff)
  then obtain i where i: "gget (mg_forwards m) n = Some i" by blast
  have c: "gget (mg_children m) n = None" using Cons.prems(5) by (auto simp: gget_None_iff)
  obtain m1 where m1: "remove_service_mgr n m = (None, m1)" "mg_forwards m1 = gdel n (mg_forwards m)"
    "mg_children m1 = mg_children m" "mg_started m1" "\<not> mg_stopped m1"
    using Cons.prems(1,2) i c
    by (simp add: remove_service_mgr_def do_remove_def remove_single_def unregister_def fire_event_def Let_def)
  have "fst (remove_counted ns (Suc k, m1)) = Suc k + length ns
    \<and> mg_forwards (snd (remove_counted ns (Suc k, m1))) = filter (\<lambda>(n, _). n \<notin> set ns) (mg_forwards m1)
    \<and> mg_children (snd (remove_counted ns (Suc k, m1))) = mg_children m1"
    using Cons.prems m1 by (intro Cons.IH) auto
  then show ?case using m1 by (auto simp: gdel_filter_keys intro!: filter_cong)
qed auto

lemma lease_targets:
  assumes "leased source m new m1" "\<forall>n i. (n, i) \<in> set (mg_forwards m) \<longrightarrow> fw_source_config (mg_heap m i) \<noteq> source"
    and "\<forall>n \<in> fst ` set new. \<forall>cs \<in> snd ` set (mg_children m). n \<notin> set cs"
  shows "release_targets source m1 = map fst new"
proof -
  have "filter (\<lambda>(n, i). fw_source_config (mg_heap m1 i) = source) (mg_forwards m) = []"
    using assms(1,2) by (fastforce simp: leased_def filter_empty_conv)
  moreover have "filter (\<lambda>(n, i). fw_source_config (mg_heap m1 i) = source) new = new"
    using assms(1) by (fastforce simp: leased_def filter_id_conv)
  moreover have own: "gget (child_to_parent m1) n = None" if "n \<in> fst ` set new" for n
    using assms(1,3) that by (intro no_parent) (auto simp: leased_def)
  have same: "map (\<lambda>(n, i). case gget (child_to_parent m1) n of Some p \<Rightarrow> p | None \<Rightarrow> n) new = map fst new"
  proof (intro map_cong refl)
    fix x assume "x \<in> set new"
    then have "gget (child_to_parent m1) (fst x) = None" by (intro own) simp
    then show "(case x of (n, i) \<Rightarrow> case gget (child_to_parent m1) n of Some p \<Rightarrow> p | None \<Rightarrow> n) = fst x"
      by (cases x) simp
  qed
  moreover have "mg_forwards m1 = mg_forwards m @ new" "distinct (map fst new)"
    using assms(1) by (simp_all add: leased_def)
  moreover note same
  ultimately show ?thesis
    unfolding release_targets_def by (simp only: filter_append append_Nil distinct_remdups_id)
qed

lemma release_leased:
  assumes "leased source m new m1" "\<forall>n i. (n, i) \<in> set (mg_forwards m) \<longrightarrow> fw_source_config (mg_heap m i) \<noteq> source"
    and "\<forall>n \<in> fst ` set new. \<forall>cs \<in> snd ` set (mg_children m). n \<notin> set cs"
    and "distinct (map fst new) \<Longrightarrow> distinct (ord1 (map fst new)) \<and> set (ord1 (map fst new)) = fst ` set new"
  shows "fst (release_by_source ord1 source m1) = length new
    \<and> mg_forwards (snd (release_by_source ord1 source m1)) = mg_forwards m
    \<and> mg_children (snd (release_by_source ord1 source m1)) = mg_children m"
proof -
  have d: "distinct (map fst new)" using assms(1) by (simp add: leased_def)
  note o1 = assms(4) [OF d]
  have len: "length (ord1 (map fst new)) = length new"
    using o1 d by (metis distinct_card length_map list.set_map)
  have f: "mg_forwards m1 = mg_forwards m @ new" "mg_children m1 = mg_children m"
    "fst ` set new \<inter> fst ` set (mg_forwards m) = {}" "fst ` set new \<inter> fst ` set (mg_children m) = {}"
    using assms(1) by (simp_all add: leased_def)
  have keep: "filter (\<lambda>(n, _). n \<notin> fst ` set new) (mg_forwards m @ new) = mg_forwards m"
  proof -
    have "filter (\<lambda>(n, _). n \<notin> fst ` set new) (mg_forwards m) = mg_forwards m"
      using f(3) by (intro filter_True ballI) (auto simp only: case_prod_beta disjoint_iff image_iff)
    moreover have "filter (\<lambda>(n, _). n \<notin> fst ` set new) new = []"
      by (intro filter_False ballI) (auto simp only: case_prod_beta image_iff)
    ultimately show ?thesis by (simp only: filter_append append_Nil2)
  qed
  have r: "release_by_source ord1 source m1 = remove_counted (ord1 (map fst new)) (0, m1)"
    by (simp add: release_by_source_def lease_targets [OF assms(1-3)])
  show ?thesis
  proof (cases "new = []")
    case True
    with o1 have "ord1 (map fst new) = []" by simp
    with r f True show ?thesis by simp
  next
    case False
    then have "mg_started m1" "\<not> mg_stopped m1" using assms(1) by (auto simp: leased_def)
    moreover have "set (ord1 (map fst new)) \<subseteq> fst ` set (mg_forwards m1)"
      using o1 f(1) by (simp add: image_Un)
    moreover have "set (ord1 (map fst new)) \<inter> fst ` set (mg_children m1) = {}" using o1 f(2,4) by simp
    moreover have "distinct (ord1 (map fst new))" using o1 by simp
    ultimately have c: "fst (remove_counted (ord1 (map fst new)) (0, m1)) = 0 + length (ord1 (map fst new))
      \<and> mg_forwards (snd (remove_counted (ord1 (map fst new)) (0, m1))) =
          filter (\<lambda>(n, _). n \<notin> set (ord1 (map fst new))) (mg_forwards m1)
      \<and> mg_children (snd (remove_counted (ord1 (map fst new)) (0, m1))) = mg_children m1"
      by (intro remove_counted_effect)
    have "set (ord1 (map fst new)) = fst ` set new" using o1 by (rule conjunct2)
    with c show ?thesis unfolding r using len f(1,2) keep by (simp only: add_0)
  qed
qed

subsection \<open>The start loop\<close>

lemma index_externals_keys: "fst ` set (index_externals efs) = svc_name ` ef_service ` set efs"
proof -
  have "fst ` set (foldl (\<lambda>m ef. gset (svc_name (ef_service ef)) ef m) acc efs) = fst ` set acc \<union> svc_name ` ef_service ` set efs" for acc
    by (induction efs arbitrary: acc) auto
  from this [of "[]"] show ?thesis by (simp add: index_externals_def)
qed

text \<open>One service of the start loop, and the loop.\<close>

definition room_for :: "service_config list \<Rightarrow> manager \<Rightarrow> bool" where
  "room_for ss m \<longleftrightarrow>
     distinct (map svc_name ss) \<and> distinct (static_ports ss)
     \<and> svc_name ` set ss \<inter> (fst ` set (mg_forwards m) \<union> fst ` set (mg_children m)) = {}
     \<and> (\<forall>n i. (n, i) \<in> set (mg_forwards m) \<longrightarrow> i < mg_next m \<and> held_port (mg_heap m i) \<notin> set (static_ports ss))"

lemma room_for_tail: "room_for (s # ss) m \<Longrightarrow> room_for ss m"
proof -
  have "static_ports (s # ss) = (if \<not> is_multi_port s \<and> svc_local_port s \<noteq> 0 then [svc_local_port s] else []) @ static_ports ss"
    by (simp add: static_ports_def)
  then show "room_for (s # ss) m \<Longrightarrow> room_for ss m" by (simp add: room_for_def)
qed

lemma room_for_head:
  assumes "room_for (s # ss) m" "\<not> is_multi_port s"
  shows "svc_local_port s \<notin> set (static_ports ss) \<and> port_holder m s = None"
proof (cases "svc_local_port s = 0")
  case True
  then show ?thesis by (auto simp: static_ports_def port_holder_def)
next
  case False
  with assms(2) have "static_ports (s # ss) = svc_local_port s # static_ports ss" by (simp add: static_ports_def)
  with assms(1) show ?thesis by (auto simp: room_for_def port_holder_def find_None_iff)
qed

lemma start_service_effect:
  assumes r: "room_for (s # ss) m"
  shows "room_for ss (start_service m s) \<and> mg_external (start_service m s) = mg_external m
    \<and> mg_order (start_service m s) = mg_order m @
        (if gget (mg_external m) (svc_name s) = None \<and> \<not> is_multi_port s then [svc_name s] else [])
    \<and> gkeys (mg_children (start_service m s)) = gkeys (mg_children m) @
        (if gget (mg_external m) (svc_name s) = None \<and> is_multi_port s then [svc_name s] else [])
    \<and> mg_started (start_service m s) = mg_started m \<and> mg_stopped (start_service m s) = mg_stopped m"
proof (cases "gget (mg_external m) (svc_name s) = None")
  case False
  then show ?thesis using room_for_tail [OF r] by (auto simp: start_service_def)
next
  case ext: True
  have free: "svc_name s \<notin> fst ` set (mg_forwards m)" "svc_name s \<notin> fst ` set (mg_children m)"
    and away: "svc_name s \<notin> svc_name ` set ss"
    using r by (auto simp: room_for_def)
  then have g: "gget (mg_forwards m) (svc_name s) = None" "gget (mg_children m) (svc_name s) = None"
    by (simp_all add: gget_None_iff)
  note tail = room_for_tail [OF r]
  show ?thesis
  proof (cases "is_multi_port s")
    case True
    then have e: "start_service m s = spawn (Resolving s) (m\<lparr>mg_children := mg_children m @ [(svc_name s, [])]\<rparr>)"
      using ext g by (simp add: start_service_def reserve_forward_def port_holder_def task_of_def gset_absent free)
    have "room_for ss (start_service m s)" using tail away unfolding e room_for_def spawn_def by simp
    with ext True show ?thesis by (simp add: e spawn_def)
  next
    case False
    note head = room_for_head [OF r False]
    let ?new = "new_forward s (effective_namespace m s)"
    have e: "start_service m s = spawn (Supervising (mg_next m)) (register_forward (svc_name s) ?new m)"
      using False ext g head by (simp add: start_service_def reserve_forward_def task_of_def)
    have "held_port ?new = svc_local_port s" by (simp add: held_port_def new_forward_def)
    then have "i < Suc (mg_next m) \<and> held_port (((mg_heap m)(mg_next m := ?new)) i) \<notin> set (static_ports ss)"
      if "(n, i) \<in> set (mg_forwards m @ [(svc_name s, mg_next m)])" for n i
      using that head tail unfolding room_for_def by (cases "i = mg_next m") (auto simp: less_Suc_eq)
    then have "room_for ss (start_service m s)"
      using tail away free unfolding e room_for_def spawn_def register_forward_def by (simp add: gset_absent)
    then show ?thesis using ext False by (simp add: e spawn_def register_forward_def)
  qed
qed

lemma start_loop:
  "room_for ss m \<Longrightarrow>
     mg_order (foldl start_service m ss) = mg_order m @
       map svc_name (filter (\<lambda>s. gget (mg_external m) (svc_name s) = None \<and> \<not> is_multi_port s) ss)
     \<and> gkeys (mg_children (foldl start_service m ss)) = gkeys (mg_children m) @
         map svc_name (filter (\<lambda>s. gget (mg_external m) (svc_name s) = None \<and> is_multi_port s) ss)
     \<and> mg_external (foldl start_service m ss) = mg_external m
     \<and> mg_started (foldl start_service m ss) = mg_started m \<and> mg_stopped (foldl start_service m ss) = mg_stopped m"
proof (induction ss arbitrary: m)
  case (Cons s ss)
  note e = start_service_effect [OF Cons.prems]
  have "room_for ss (start_service m s)" using e by simp
  from Cons.IH [OF this] e show ?case by simp
qed simp

subsection \<open>Reloading\<close>

text \<open>The abstract state of a manager: which services run under which names.\<close>

definition running_services :: "manager \<Rightarrow> (string \<times> service_config) list" where
  "running_services m = map (\<lambda>(n, i). (n, fw_svc (mg_heap m i))) (mg_forwards m)"

lemma running_names: "fst ` set (running_services m) = fst ` set (mg_forwards m)"
  by (force simp: running_services_def image_iff)

text \<open>What a run of removals leaves.\<close>

definition thinned :: "string set \<Rightarrow> manager \<Rightarrow> manager \<Rightarrow> bool" where
  "thinned gone m m1 \<longleftrightarrow>
     mg_forwards m1 = filter (\<lambda>x. fst x \<notin> gone) (mg_forwards m)
     \<and> mg_children m1 = mg_children m \<and> mg_external m1 = mg_external m \<and> mg_next m1 = mg_next m
     \<and> mg_started m1 = mg_started m \<and> mg_stopped m1 = mg_stopped m
     \<and> (\<forall>i. fw_svc (mg_heap m1 i) = fw_svc (mg_heap m i) \<and> held_port (mg_heap m1 i) = held_port (mg_heap m i))"

lemma thinned_refl: "thinned {} m m"
  by (simp add: thinned_def case_prod_beta)

lemma thinned_trans: "thinned A m m1 \<Longrightarrow> thinned B m1 m2 \<Longrightarrow> thinned (A \<union> B) m m2"
  by (simp add: thinned_def case_prod_beta conj_comms)

lemma remove_thins:
  assumes "mg_started m" "\<not> mg_stopped m" "mg_children m = []"
  shows "thinned {n} m (snd (remove_service_mgr n m))"
proof (cases "gget (mg_forwards m) n")
  case None
  then have "filter (\<lambda>x. fst x \<notin> {n}) (mg_forwards m) = mg_forwards m"
    by (intro filter_True ballI) (auto simp: gget_None_iff)
  with None assms show ?thesis
    by (simp add: remove_service_mgr_def do_remove_def remove_single_def thinned_def)
next
  case (Some i)
  with assms show ?thesis
    by (simp add: remove_service_mgr_def do_remove_def remove_single_def unregister_def fire_event_def Let_def
        thinned_def gdel_filter_keys held_port_def case_prod_unfold)
qed

lemma remove_all_thins:
  "mg_started m \<Longrightarrow> \<not> mg_stopped m \<Longrightarrow> mg_children m = [] \<Longrightarrow> thinned (set ns) m (remove_all_names ns m)"
proof (induction ns arbitrary: m)
  case (Cons n ns)
  have t: "thinned {n} m (snd (remove_service_mgr n m))" using Cons.prems by (rule remove_thins)
  then have "thinned (set ns) (snd (remove_service_mgr n m)) (remove_all_names ns (snd (remove_service_mgr n m)))"
    using Cons.prems by (intro Cons.IH) (simp_all add: thinned_def)
  from thinned_trans [OF t this] show ?case by simp
qed (simp add: thinned_refl)

lemma remove_counted_all: "snd (remove_counted ns (k, m)) = remove_all_names ns m"
proof (induction ns arbitrary: k m)
  case (Cons n ns)
  show ?case using Cons.IH by (cases "remove_service_mgr n m") (simp split: option.split)
qed simp

text \<open>What a run of additions leaves, of services with one port for which there is room.\<close>

lemma add_service_room:
  assumes "room_for (s # ss) m" "service_ok s" "\<not> is_multi_port s" "mg_started m" "\<not> mg_stopped m"
  obtains m1 where "add_service_mgr s m = (None, m1)" "room_for ss m1" "mg_started m1" "\<not> mg_stopped m1"
    "mg_external m1 = mg_external m" "mg_children m1 = mg_children m"
    "running_services m1 = running_services m @ [(svc_name s, s)]"
proof -
  have v: "validate_service s = Inr ()" using assms(2) by (simp only: validate_service_iff)
  have free: "gget (mg_forwards m) (svc_name s) = None" "gget (mg_children m) (svc_name s) = None"
    "svc_name s \<notin> fst ` set (mg_forwards m)" "svc_name s \<notin> svc_name ` set ss"
    using assms(1) by (auto simp: room_for_def gget_None_iff)
  note head = room_for_head [OF assms(1,3)] and tail = room_for_tail [OF assms(1)]
  let ?new = "new_forward s (effective_namespace m s)"
  let ?m1 = "fire_event (service_event EventServiceAdded (svc_name s) s)
      (spawn (Supervising (mg_next m)) (register_forward (svc_name s) ?new m))"
  have a: "add_service_mgr s m = (None, ?m1)"
    using assms(3-5) v free(1,2) head
    by (simp add: add_service_mgr_def add_cmd_def reserve_forward_def task_of_def)
  have "held_port ?new = svc_local_port s" by (simp add: held_port_def new_forward_def)
  then have "i < Suc (mg_next m) \<and> held_port (((mg_heap m)(mg_next m := ?new)) i) \<notin> set (static_ports ss)"
    if "(n, i) \<in> set (mg_forwards m @ [(svc_name s, mg_next m)])" for n i
    using that head tail unfolding room_for_def by (cases "i = mg_next m") (auto simp: less_Suc_eq)
  then have r: "room_for ss ?m1"
    using tail free(3,4) unfolding room_for_def spawn_def register_forward_def fire_event_def by (simp add: gset_absent)
  have old: "i \<noteq> mg_next m" if "(n, i) \<in> set (mg_forwards m)" for n i using that tail by (auto simp: room_for_def)
  have "running_services ?m1 = running_services m @ [(svc_name s, s)]"
    using old free(3)
    by (auto simp: running_services_def fire_event_def spawn_def register_forward_def gset_absent new_forward_def)
  with a r assms(4,5) show thesis
    by (intro that) (simp_all add: fire_event_def spawn_def register_forward_def)
qed

lemma add_counted_effect:
  assumes "room_for ss m" "list_all service_ok ss" "list_all (\<lambda>s. \<not> is_multi_port s) ss" "mg_started m" "\<not> mg_stopped m"
  shows "fst (add_counted ss (k, m)) = k + length (filter (\<lambda>s. gget (mg_external m) (svc_name s) = None) ss)
    \<and> running_services (snd (add_counted ss (k, m))) = running_services m @
        map (\<lambda>s. (svc_name s, s)) (filter (\<lambda>s. gget (mg_external m) (svc_name s) = None) ss)"
  using assms
proof (induction ss arbitrary: k m)
  case (Cons s ss)
  show ?case
  proof (cases "gget (mg_external m) (svc_name s) = None")
    case False
    with Cons.IH [of m k] Cons.prems room_for_tail [OF Cons.prems(1)] show ?thesis by auto
  next
    case True
    from Cons.prems obtain m1 where m1: "add_service_mgr s m = (None, m1)" "room_for ss m1" "mg_started m1"
      "\<not> mg_stopped m1" "mg_external m1 = mg_external m" "running_services m1 = running_services m @ [(svc_name s, s)]"
      by (auto elim: add_service_room)
    with Cons.IH [OF m1(2), of "Suc k"] Cons.prems True show ?thesis by simp
  qed
qed simp

lemma desired_distinct:
  "distinct (map svc_name (cfg_services cfg)) \<Longrightarrow> desired_services cfg = map (\<lambda>s. (svc_name s, s)) (cfg_services cfg)"
proof -
  have "foldl (\<lambda>m s. gset (svc_name s) s m) acc ss = acc @ map (\<lambda>s. (svc_name s, s)) ss"
    if "distinct (map svc_name ss)" "svc_name ` set ss \<inter> fst ` set acc = {}" for acc ss
    using that by (induction ss arbitrary: acc) (auto simp: gset_absent)
  from this [of "cfg_services cfg" "[]"] show "distinct (map svc_name (cfg_services cfg)) \<Longrightarrow> ?thesis"
    by (simp add: desired_services_def)
qed

lemma lookup_all_names:
  assumes "distinct (map svc_name svcs)" "set ks = svc_name ` set svcs" "distinct ks"
  shows "distinct (map svc_name (lookup_all (map (\<lambda>s. (svc_name s, s)) svcs) ks))
    \<and> set (lookup_all (map (\<lambda>s. (svc_name s, s)) svcs) ks) = set svcs"
proof -
  let ?t = "map (\<lambda>s. (svc_name s, s)) svcs"
  have g: "gget ?t (svc_name s) = Some s" if "s \<in> set svcs" for s
    using that assms(1) by (intro map_of_is_SomeI) (auto simp: comp_def)
  have n: "map svc_name (lookup_all ?t ks) = ks" if "set ks \<subseteq> svc_name ` set svcs" for ks
    using that g by (induction ks) (auto simp: lookup_all_def map_filter_def)
  have "set (lookup_all ?t ks) = {s. \<exists>k \<in> set ks. gget ?t k = Some s}"
    by (induction ks) (auto simp: lookup_all_def map_filter_simps split: option.splits)
  also have "\<dots> = set svcs" using g assms(2) by auto
  finally show ?thesis using n [of ks] assms(2,3) by simp
qed

text \<open>The external names a reload works with.\<close>

definition reload_externals :: "config \<Rightarrow> manager \<Rightarrow> string set" where
  "reload_externals cfg m =
     (case mg_detector m of
        None \<Rightarrow> fst ` set (mg_external m)
      | Some detect \<Rightarrow> svc_name ` ef_service ` set (detect cfg))"

lemma refresh_thins:
  assumes "mg_started m" "\<not> mg_stopped m" "mg_children m = []" "fst ` set (mg_external m) \<inter> fst ` set (mg_forwards m) = {}"
  shows "\<exists>gone x. thinned gone (m\<lparr>mg_external := x\<rparr>) (refresh_external_forwards cfg m)
    \<and> gone \<inter> fst ` set (mg_forwards m) = reload_externals cfg m \<inter> fst ` set (mg_forwards m)
    \<and> fst ` set x = reload_externals cfg m"
proof (cases "mg_detector m")
  case None
  then show ?thesis
    using assms(4) by (intro exI [of _ "{}"] exI [of _ "mg_external m"]) (simp add: refresh_external_forwards_def reload_externals_def thinned_refl)
next
  case (Some detect)
  let ?new = "index_externals (detect cfg)"
  let ?names = "filter (\<lambda>n. gget (mg_external m) n = None) (gkeys ?new)"
  let ?m1 = "m\<lparr>mg_external := ?new\<rparr>"
  have "refresh_external_forwards cfg m = remove_all_names ?names ?m1"
    using Some by (simp add: refresh_external_forwards_def set_external_forwards_def Let_def)
  moreover have "thinned (set ?names) ?m1 (remove_all_names ?names ?m1)"
    using assms(1-3) by (intro remove_all_thins) simp_all
  moreover have "set ?names \<inter> fst ` set (mg_forwards m) = svc_name ` ef_service ` set (detect cfg) \<inter> fst ` set (mg_forwards m)"
    using assms(4) index_externals_keys [of "detect cfg"] by (auto simp: gget_None_iff)
  moreover have "fst ` set (mg_external ?m1) = reload_externals cfg m"
    using Some by (simp add: reload_externals_def index_externals_keys)
  ultimately show ?thesis using Some
    by (intro exI [of _ "set ?names"] exI [of _ ?new]) (simp add: reload_externals_def)
qed

lemma thinned_running: "thinned gone m m1 \<Longrightarrow> running_services m1 = filter (\<lambda>x. fst x \<notin> gone) (running_services m)"
  by (simp add: thinned_def running_services_def filter_map comp_def case_prod_beta)

text \<open>A reload of services with one port, as one run of removals and one of additions.\<close>

lemma reload_steps:
  assumes m: "mg_started m" "\<not> mg_stopped m" "mg_children m = []"
      "fst ` set (mg_external m) \<inter> fst ` set (mg_forwards m) = {}"
    and d: "distinct (map svc_name (cfg_services cfg))"
    and ord: "\<And>i ks. set (ord i ks) = set ks \<and> (distinct ks \<longrightarrow> distinct (ord i ks))"
  obtains gone x m2 y new where "thinned gone (m\<lparr>mg_external := x\<rparr>) m2"
    "gone \<inter> fst ` set (mg_forwards m) = {n \<in> fst ` set (mg_forwards m). n \<in> reload_externals cfg m \<or> n \<notin> svc_name ` set (cfg_services cfg)}"
    "\<And>s. s \<in> set (cfg_services cfg) \<Longrightarrow> (gget y (svc_name s) = None) = (svc_name s \<notin> reload_externals cfg m)"
    "distinct (map svc_name new)"
    "set new = {s \<in> set (cfg_services cfg). svc_name s \<notin> fst ` set (mg_forwards m) \<or> svc_name s \<in> reload_externals cfg m}"
    "snd (reload ord cfg m) = snd (add_counted new (0, m2\<lparr>mg_external := y\<rparr>))"
proof -
  let ?names = "svc_name ` set (cfg_services cfg)" and ?E = "reload_externals cfg m"
  let ?d = "map (\<lambda>s. (svc_name s, s)) (cfg_services cfg)"
  define m0 where "m0 = refresh_external_forwards cfg m"
  from refresh_thins [OF m] obtain gone0 x where r: "thinned gone0 (m\<lparr>mg_external := x\<rparr>) m0"
    "gone0 \<inter> fst ` set (mg_forwards m) = ?E \<inter> fst ` set (mg_forwards m)" "fst ` set x = ?E" unfolding m0_def by blast
  have f0: "mg_forwards m0 = filter (\<lambda>x. fst x \<notin> gone0) (mg_forwards m)" "mg_children m0 = []" "mg_started m0" "\<not> mg_stopped m0"
    "mg_external m0 = x" using r(1) m(1-3) by (simp_all add: thinned_def)
  have "fst ` set (mg_forwards m0) = {n \<in> fst ` set (mg_forwards m). n \<notin> gone0}" unfolding f0(1) by force
  then have F0: "fst ` set (mg_forwards m0) = fst ` set (mg_forwards m) - ?E" using r(2) by blast
  let ?rm = "ord 1 (filter (\<lambda>n. gget ?d n = None) (gkeys (mg_forwards m0)))"
  define m2 where "m2 = remove_all_names ?rm m0"
  have t2: "thinned (set ?rm) m0 m2" unfolding m2_def by (rule remove_all_thins [OF f0(3,4,2)])
  define y where "y = filter (\<lambda>(n, _). gget ?d n \<noteq> None) (mg_external m2)"
  define new where "new = filter (\<lambda>s. svc_name s \<notin> set (gkeys (mg_forwards m0))) (lookup_all ?d (ord 3 (gkeys ?d)))"
  have o0: "ord i [] = []" for i using ord [of i "[]"] by simp
  have none: "filter (\<lambda>s. False) ks = []" for ks :: "service_config list" by simp
  define r2 where "r2 = fst (remove_counted ?rm (0, m0))"
  have rc: "remove_counted ?rm (0, m0) = (r2, m2)"
    by (rule prod_eqI) (simp_all only: r2_def m2_def fst_conv snd_conv remove_counted_all)
  have rl: "snd (reload ord cfg m) = snd (add_counted new (0, m2\<lparr>mg_external := y\<rparr>))"
    unfolding reload_def Let_def desired_distinct [OF d] m0_def [symmetric] f0(2) new_def y_def
    by (simp only: list.map(1) filter.simps(1) o0 remove_counted.simps(1) prod.case concat.simps(1) list.set(1)
        empty_iff simp_thms f0(2) rc readd_multi.simps(1) none) (simp only: case_prod_beta snd_conv)
  have dn: "gget ?d n = None \<longleftrightarrow> n \<notin> ?names" for n by (simp add: gget_None_iff image_image)
  have gk: "distinct (map svc_name (lookup_all ?d (ord 3 (gkeys ?d)))) \<and> set (lookup_all ?d (ord 3 (gkeys ?d))) = set (cfg_services cfg)"
    using ord [of 3 "gkeys ?d"] d by (intro lookup_all_names) (simp_all add: comp_def)
  show thesis
  proof (rule that)
    show "thinned (gone0 \<union> set ?rm) (m\<lparr>mg_external := x\<rparr>) m2" by (rule thinned_trans [OF r(1) t2])
    have "set ?rm = {n \<in> fst ` set (mg_forwards m0). n \<notin> ?names}" using ord dn by auto
    then show "(gone0 \<union> set ?rm) \<inter> fst ` set (mg_forwards m) =
        {n \<in> fst ` set (mg_forwards m). n \<in> ?E \<or> n \<notin> ?names}" using r(2) f0(1) by auto
    show "(gget y (svc_name s) = None) = (svc_name s \<notin> ?E)" if "s \<in> set (cfg_services cfg)" for s
    proof -
      have "mg_external m2 = x" using t2 f0(5) by (simp add: thinned_def)
      then have "fst ` set y = {n \<in> fst ` set x. n \<in> ?names}" unfolding y_def by (auto simp: dn image_iff)
      with that r(3) show ?thesis by (simp add: gget_None_iff)
    qed
    show "distinct (map svc_name new)" using gk by (simp add: new_def distinct_map_filter)
    show "set new = {s \<in> set (cfg_services cfg). svc_name s \<notin> fst ` set (mg_forwards m) \<or> svc_name s \<in> ?E}"
      using gk F0 by (auto simp: new_def)
    show "snd (reload ord cfg m) = snd (add_counted new (0, m2\<lparr>mg_external := y\<rparr>))" by (rule rl)
  qed
qed

lemma static_ports_subset:
  assumes "distinct (static_ports xs)" "distinct ys" "set ys \<subseteq> set xs"
  shows "distinct (static_ports ys) \<and> set (static_ports ys) \<subseteq> set (static_ports xs)"
proof -
  let ?P = "\<lambda>s. \<not> is_multi_port s \<and> svc_local_port s \<noteq> 0"
  have "inj_on svc_local_port (set (filter ?P xs))" using assms(1) by (simp add: static_ports_def distinct_map)
  then have "inj_on svc_local_port (set (filter ?P ys))" by (rule inj_on_subset) (use assms(3) in auto)
  then show ?thesis using assms(2,3) by (auto simp: static_ports_def distinct_map)
qed

text \<open>What the removals of a reload leave has room for what it adds.\<close>

lemma reload_room:
  assumes "manager_wf m" "mg_children m = []" "thinned gone (m\<lparr>mg_external := x\<rparr>) m2"
    and "gone \<inter> fst ` set (mg_forwards m) = {n \<in> fst ` set (mg_forwards m). n \<in> E \<or> n \<notin> svc_name ` set svcs}"
    and "distinct (map svc_name new)" "set new = {s \<in> set svcs. svc_name s \<notin> fst ` set (mg_forwards m) \<or> svc_name s \<in> E}"
    and "distinct (static_ports svcs)"
    and free: "\<And>n i s. (n, i) \<in> set (mg_forwards m) \<Longrightarrow> n \<in> svc_name ` set svcs \<Longrightarrow> s \<in> set svcs
           \<Longrightarrow> svc_name s \<noteq> n \<Longrightarrow> svc_local_port s \<noteq> 0 \<Longrightarrow> held_port (mg_heap m i) \<noteq> svc_local_port s"
  shows "room_for new (m2\<lparr>mg_external := y\<rparr>)"
proof -
  have sub: "set new \<subseteq> set svcs" using assms(6) by auto
  have sp: "distinct (static_ports new)" "set (static_ports new) \<subseteq> svc_local_port ` {s \<in> set new. svc_local_port s \<noteq> 0}"
    using static_ports_subset [OF assms(7) _ sub] assms(5) by (auto simp: static_ports_def distinct_map)
  have kept: "n \<in> svc_name ` set svcs \<and> n \<notin> E \<and> (n, i) \<in> set (mg_forwards m)"
    if "(n, i) \<in> set (mg_forwards m2)" for n i
  proof -
    have "(n, i) \<in> set (mg_forwards m)" "n \<notin> gone" using that assms(3) by (simp_all add: thinned_def)
    moreover from this have "n \<in> fst ` set (mg_forwards m)" by (force simp: image_iff)
    ultimately show ?thesis using assms(4) by blast
  qed
  have "i < mg_next m2 \<and> held_port (mg_heap m2 i) \<notin> set (static_ports new)" if "(n, i) \<in> set (mg_forwards m2)" for n i
  proof -
    note k = kept [OF that]
    have "i < mg_next m" using assms(1) k by (auto simp: manager_wf_def heap_wf_def list_all_iff)
    moreover have "held_port (mg_heap m i) \<noteq> svc_local_port s" if "s \<in> set new" "svc_local_port s \<noteq> 0" for s
    proof (rule free)
      show "(n, i) \<in> set (mg_forwards m)" "n \<in> svc_name ` set svcs" using k by simp_all
      show "s \<in> set svcs" "svc_name s \<noteq> n" using that k assms(6) by force+
    qed (rule that)
    moreover have "mg_next m2 = mg_next m" "held_port (mg_heap m2 i) = held_port (mg_heap m i)"
      using assms(3) by (simp_all add: thinned_def)
    ultimately show ?thesis using sp(2) by (simp only:) blast
  qed
  note free_ports = this
  show "room_for new (m2\<lparr>mg_external := y\<rparr>)"
  proof -
    have "svc_name ` set new \<inter> fst ` set (mg_forwards m2) = {}"
    proof -
      have False if "s \<in> set new" "(svc_name s, i) \<in> set (mg_forwards m2)" for s i
        using kept [OF that(2)] that(1) assms(6) by (force simp: image_iff)
      then show ?thesis by fastforce
    qed
    then show ?thesis
      using assms(3,5) sp(1) assms(2) free_ports
      by (simp add: room_for_def thinned_def)
  qed
qed


definition old_and_new :: "config \<times> config" where
  "old_and_new =
     (let svc = (\<lambda>name port. zero_service\<lparr>svc_name := name, svc_service := name, svc_remote_port := 80, svc_local_port := port\<rparr>);
          cfg = zero_config\<lparr>cfg_services := [svc ''a'' 8001, svc ''b'' 8002]\<rparr>
      in (cfg, cfg\<lparr>cfg_services := [svc ''b'' 8002, svc ''c'' 8001]\<rparr>))"


end
