(* ===== verification/Server.thy ===== *)
theory Server
  imports Convert ManagerOps
begin

text \<open>
  The daemon's RPC server (\<^verbatim>\<open>internal/daemon/server.go\<close>, \<^verbatim>\<open>socket.go\<close>), its authentication
  (\<^verbatim>\<open>pkg/grpcauth/interceptor.go\<close>) and the \<^verbatim>\<open>Supervisor\<close> interface through which it drives either the
  manager or the \<^verbatim>\<open>noopSupervisor\<close> of a delegate (\<^verbatim>\<open>internal/cli/cmd_proxy.go\<close>).  The interface is a
  record of functions on the supervisor's state, and what the server relies on is a locale that
  both implementations interpret.  A handler that would panic returns \<open>None\<close>.
\<close>

subsection \<open>The supervisor interface\<close>

datatype sup_err = ManagerErr mgr_err | DelegateCannotAdd | DelegateNotFound | NotOnDelegate

record 's supervisor_ops =
  op_status :: "'s \<Rightarrow> forward_status list option"
  op_stop :: "'s \<Rightarrow> 's"
  op_add :: "service_config \<Rightarrow> 's \<Rightarrow> sup_err option \<times> 's"
  op_remove :: "string \<Rightarrow> 's \<Rightarrow> sup_err option \<times> 's"
  op_reload :: "config \<Rightarrow> 's \<Rightarrow> (sup_err option \<times> nat \<times> nat) \<times> 's"
  op_apply :: "service_config list \<Rightarrow> 's \<Rightarrow> (nat \<times> nat \<times> (string \<times> sup_err) list) \<times> 's"
  op_mappings :: "string \<Rightarrow> 's \<Rightarrow> address_mapping list option"
  op_update_chaos :: "string list \<Rightarrow> parsed_chaos \<Rightarrow> 's \<Rightarrow> (string list \<times> string list) \<times> 's"
  op_reset_chaos :: "string list \<Rightarrow> 's \<Rightarrow> (string list \<times> string list) \<times> 's"
  op_release :: "string \<Rightarrow> 's \<Rightarrow> (sup_err option \<times> nat) \<times> 's"

text \<open>The manager; \<open>ord\<close> and \<open>ord1\<close> are the orders in which maps are ranged over.\<close>

definition manager_ops ::
    "(int \<Rightarrow> bool) \<Rightarrow> (nat \<Rightarrow> string list \<Rightarrow> string list) \<Rightarrow> (string list \<Rightarrow> string list) \<Rightarrow> manager supervisor_ops" where
  "manager_ops is_open ord ord1 =
     \<lparr>op_status = status is_open, op_stop = stop,
      op_add = (\<lambda>svc m. case add_service_mgr svc m of (e, m1) \<Rightarrow> (map_option ManagerErr e, m1)),
      op_remove = (\<lambda>n m. case remove_service_mgr n m of (e, m1) \<Rightarrow> (map_option ManagerErr e, m1)),
      op_reload = (\<lambda>cfg m. case reload ord cfg m of ((added, removed), m1) \<Rightarrow> ((None, added, removed), m1)),
      op_apply = (\<lambda>svcs m. case apply_services svcs m of
         ((added, ws), m1) \<Rightarrow> ((added, length ws, map (\<lambda>(n, e). (n, ManagerErr e)) ws), m1)),
      op_mappings = mappings, op_update_chaos = update_chaos, op_reset_chaos = reset_chaos,
      op_release = (\<lambda>src m. case release_by_source ord1 src m of (n, m1) \<Rightarrow> ((None, n), m1))\<rparr>"

text \<open>A delegate; its state is whether its context was cancelled.\<close>

definition noop_ops :: "bool supervisor_ops" where
  "noop_ops =
     \<lparr>op_status = (\<lambda>_. Some []), op_stop = (\<lambda>_. True),
      op_add = (\<lambda>_ s. (Some DelegateCannotAdd, s)), op_remove = (\<lambda>_ s. (Some DelegateNotFound, s)),
      op_reload = (\<lambda>_ s. ((Some NotOnDelegate, 0, 0), s)),
      op_apply = (\<lambda>_ s. ((0, 0, [([], NotOnDelegate)]), s)),
      op_mappings = (\<lambda>_ _. Some []), op_update_chaos = (\<lambda>names _ s. (([], names), s)),
      op_reset_chaos = (\<lambda>names s. (([], names), s)), op_release = (\<lambda>_ s. ((Some NotOnDelegate, 0), s))\<rparr>"

subsection \<open>Requests and responses\<close>

datatype chaos_preset = PresetUnspecified | PresetSlowNetwork | PresetUnstableCluster | PresetPacketLoss

record chaos_request =
  cr_services :: "string list"
  cr_preset :: chaos_preset
  cr_enabled :: bool
  cr_error_rate :: f64
  cr_spike_probability :: f64
  cr_spike_ms :: int
  cr_reset :: bool

datatype request =
    StatusRequest
  | StopRequest
  | AddRequest add_request
  | RemoveRequest string bool
  | ReloadRequest
  | ApplyRequest "service_info list"
  | MappingsRequest string
  | ChaosRequest chaos_request
  | ReleaseRequest string

datatype chaos_err = BadErrorRate | BadSpikeProbability | MissingSpikeDuration

text \<open>The status code of a failed call is given by its constructor.\<close>

datatype rpc_err =
    InvalidArgument string
  | InvalidChaos chaos_err
  | InvalidConfig cfg_err
  | AlreadyExistsErr sup_err
  | NotFoundErr sup_err
  | FailedPrecondition
  | LoadInternal load_err
  | InternalErr sup_err

datatype response =
    StatusResponse string string "status_msg list" string
  | StopResponse
  | AddResponse int
  | RemoveResponse
  | ReloadResponse int int
  | ApplyResponse int int "(string \<times> sup_err) list"
  | MappingsResponse "(string, string) gomap" "address_mapping list" string string
  | ChaosResponse "string list" "string list"
  | ReleaseResponse int

record 's server =
  sv_mgr :: 's
  sv_cfg :: config
  sv_os :: os_env

text \<open>What a call meets: the file formats, a fresh identifier, the texts of errors, and the
  statuses \<^verbatim>\<open>waitForActualPort\<close> sees until its deadline.\<close>

record rpc_env =
  re_codecs :: codecs
  re_encoders :: encoders
  re_uuid :: string
  re_version :: string
  re_err_text :: "run_err \<Rightarrow> string"
  re_polls :: "forward_status list list"

subsection \<open>Handlers\<close>

text \<open>A configuration edit that is persisted on success and otherwise dropped without a word.\<close>

definition persist_edit :: "rpc_env \<Rightarrow> string \<Rightarrow> (config \<Rightarrow> edit_err + config) \<Rightarrow> os_env \<Rightarrow> os_env" where
  "persist_edit re path edit os =
     (case load_for_edit os (re_codecs re) path of
        Inl _ \<Rightarrow> os
      | Inr c \<Rightarrow>
          (case edit c of
             Inl _ \<Rightarrow> os
           | Inr c1 \<Rightarrow> (case save os (re_encoders re) (re_uuid re) c1 of (_, _, os1) \<Rightarrow> os1)))"

fun wait_for_actual_port :: "string \<Rightarrow> forward_status list list \<Rightarrow> int" where
  "wait_for_actual_port name [] = 0"
| "wait_for_actual_port name (ss # polls) =
     (case List.find (\<lambda>fs. svc_name (fs_service fs) = name \<and> 0 < fs_actual_port fs) ss of
        Some fs \<Rightarrow> wrap32 (fs_actual_port fs)
      | None \<Rightarrow> wait_for_actual_port name polls)"

definition rpc_add ::
    "'s supervisor_ops \<Rightarrow> rpc_env \<Rightarrow> add_request \<Rightarrow> 's server \<Rightarrow> (rpc_err + response) \<times> 's server" where
  "rpc_add ops re req s =
     (case ar_service req of
        None \<Rightarrow> (Inl (InvalidArgument ''service is required''), s)
      | Some si \<Rightarrow>
          (let svc = requested_service req si
           in case op_add ops svc (sv_mgr s) of
                (Some e, m1) \<Rightarrow> (Inl (AlreadyExistsErr e), s\<lparr>sv_mgr := m1\<rparr>)
              | (None, m1) \<Rightarrow>
                  (let s1 = s\<lparr>sv_mgr := m1\<rparr>;
                       s2 = (if ar_persist req \<and> cfg_file_path (sv_cfg s) \<noteq> []
                             then s1\<lparr>sv_os := persist_edit re (cfg_file_path (sv_cfg s)) (add_service svc) (sv_os s1)\<rparr>
                             else s1);
                       port = (if svc_local_port svc = 0 \<and> \<not> is_multi_port svc
                               then wait_for_actual_port (svc_name svc) (re_polls re)
                               else wrap32 (svc_local_port svc))
                   in (Inr (AddResponse port), s2))))"

definition rpc_remove ::
    "'s supervisor_ops \<Rightarrow> rpc_env \<Rightarrow> string \<Rightarrow> bool \<Rightarrow> 's server \<Rightarrow> (rpc_err + response) \<times> 's server" where
  "rpc_remove ops re name persist s =
     (if name = [] then (Inl (InvalidArgument ''name is required''), s)
      else (case op_remove ops name (sv_mgr s) of
              (Some e, m1) \<Rightarrow> (Inl (NotFoundErr e), s\<lparr>sv_mgr := m1\<rparr>)
            | (None, m1) \<Rightarrow>
                (let s1 = s\<lparr>sv_mgr := m1\<rparr>
                 in (Inr RemoveResponse,
                     if persist \<and> cfg_file_path (sv_cfg s) \<noteq> []
                     then s1\<lparr>sv_os := persist_edit re (cfg_file_path (sv_cfg s)) (remove_service name) (sv_os s1)\<rparr>
                     else s1))))"

definition rpc_reload ::
    "'s supervisor_ops \<Rightarrow> rpc_env \<Rightarrow> 's server \<Rightarrow> (rpc_err + response) \<times> 's server" where
  "rpc_reload ops re s =
     (if cfg_file_path (sv_cfg s) = [] then (Inl FailedPrecondition, s)
      else (case load_config (sv_os s) (re_codecs re) (cfg_file_path (sv_cfg s)) of
              Inl e \<Rightarrow> (Inl (LoadInternal e), s)
            | Inr cfg \<Rightarrow>
                (case validate_config cfg of
                   Inl e \<Rightarrow> (Inl (InvalidConfig e), s)
                 | Inr _ \<Rightarrow>
                     (case op_reload ops cfg (sv_mgr s) of
                        ((Some e, _, _), m1) \<Rightarrow> (Inl (InternalErr e), s\<lparr>sv_mgr := m1\<rparr>)
                      | ((None, added, removed), m1) \<Rightarrow>
                          (Inr (ReloadResponse (wrap32 (int added)) (wrap32 (int removed))), s\<lparr>sv_mgr := m1\<rparr>)))))"

definition rpc_apply ::
    "'s supervisor_ops \<Rightarrow> service_info list \<Rightarrow> 's server \<Rightarrow> (rpc_err + response) \<times> 's server" where
  "rpc_apply ops infos s =
     (if infos = [] then (Inl (InvalidArgument ''no services provided''), s)
      else (case op_apply ops (map service_info_to_config infos) (sv_mgr s) of
              ((added, skipped, ws), m1) \<Rightarrow>
                (Inr (ApplyResponse (wrap32 (int added)) (wrap32 (int skipped)) ws), s\<lparr>sv_mgr := m1\<rparr>)))"

text \<open>The flat map keeps the last mapping of an address.\<close>

definition address_table :: "address_mapping list \<Rightarrow> (string, string) gomap" where
  "address_table ms = foldl (\<lambda>t m. gset (am_internal m) (am_local m) t) [] ms"

definition chaos_params :: "chaos_request \<Rightarrow> chaos_err + parsed_chaos" where
  "chaos_params req =
     (let preset = (\<lambda>n. case map_of chaos_presets n of None \<Rightarrow> zero_parsed_chaos | Some c \<Rightarrow> c)
      in case cr_preset req of
           PresetSlowNetwork \<Rightarrow> Inr (preset ''slow-network'')
         | PresetUnstableCluster \<Rightarrow> Inr (preset ''unstable-cluster'')
         | PresetPacketLoss \<Rightarrow> Inr (preset ''packet-loss'')
         | PresetUnspecified \<Rightarrow>
             (let c = \<lparr>pch_enabled = cr_enabled req, pch_error_rate = cr_error_rate req,
                       pch_spike_probability = cr_spike_probability req,
                       pch_spike_duration = wrap64 (cr_spike_ms req * millisec)\<rparr>
              in if f_less (pch_error_rate c) f_zero \<or> f_less (Fin 1) (pch_error_rate c)
                 then Inl BadErrorRate
                 else if f_less (pch_spike_probability c) f_zero \<or> f_less (Fin 1) (pch_spike_probability c)
                 then Inl BadSpikeProbability
                 else if f_less f_zero (pch_spike_probability c) \<and> pch_spike_duration c \<le> 0
                 then Inl MissingSpikeDuration
                 else Inr c))"

definition rpc_chaos ::
    "'s supervisor_ops \<Rightarrow> chaos_request \<Rightarrow> 's server \<Rightarrow> (rpc_err + response) \<times> 's server" where
  "rpc_chaos ops req s =
     (if cr_reset req
      then (case op_reset_chaos ops (cr_services req) (sv_mgr s) of
              ((updated, missing), m1) \<Rightarrow> (Inr (ChaosResponse updated missing), s\<lparr>sv_mgr := m1\<rparr>))
      else (case chaos_params req of
              Inl e \<Rightarrow> (Inl (InvalidChaos e), s)
            | Inr c \<Rightarrow>
                (case op_update_chaos ops (cr_services req) c (sv_mgr s) of
                   ((updated, missing), m1) \<Rightarrow> (Inr (ChaosResponse updated missing), s\<lparr>sv_mgr := m1\<rparr>))))"

definition rpc_release ::
    "'s supervisor_ops \<Rightarrow> string \<Rightarrow> 's server \<Rightarrow> (rpc_err + response) \<times> 's server" where
  "rpc_release ops source s =
     (if source = [] then (Inl (InvalidArgument ''source_config is required''), s)
      else (case op_release ops source (sv_mgr s) of
              ((Some e, _), m1) \<Rightarrow> (Inl (InternalErr e), s\<lparr>sv_mgr := m1\<rparr>)
            | ((None, n), m1) \<Rightarrow> (Inr (ReleaseResponse (wrap32 (int n))), s\<lparr>sv_mgr := m1\<rparr>)))"

fun serve ::
    "'s supervisor_ops \<Rightarrow> rpc_env \<Rightarrow> request \<Rightarrow> 's server \<Rightarrow> ((rpc_err + response) \<times> 's server) option" where
  "serve ops re StatusRequest s =
     map_option (\<lambda>ss. (Inr (StatusResponse (cfg_context (sv_cfg s)) (cfg_namespace (sv_cfg s))
                             (map (convert_forward_status (re_err_text re)) ss) (re_version re)), s))
       (op_status ops (sv_mgr s))"
| "serve ops re StopRequest s = Some (Inr StopResponse, s\<lparr>sv_mgr := op_stop ops (sv_mgr s)\<rparr>)"
| "serve ops re (AddRequest req) s = Some (rpc_add ops re req s)"
| "serve ops re (RemoveRequest name persist) s = Some (rpc_remove ops re name persist s)"
| "serve ops re ReloadRequest s = Some (rpc_reload ops re s)"
| "serve ops re (ApplyRequest infos) s = Some (rpc_apply ops infos s)"
| "serve ops re (MappingsRequest domain) s =
     map_option (\<lambda>ms. (Inr (MappingsResponse (address_table ms) ms (cfg_context (sv_cfg s))
                             (cfg_namespace (sv_cfg s))), s))
       (op_mappings ops domain (sv_mgr s))"
| "serve ops re (ChaosRequest req) s = Some (rpc_chaos ops req s)"
| "serve ops re (ReleaseRequest source) s = Some (rpc_release ops source s)"

subsection \<open>Authentication\<close>

text \<open>\<open>md\<close> is the metadata of a call, if it has any; the keys are lower case.\<close>

datatype auth_err = MissingMetadata | MissingAuthorization | InvalidAPIKey

definition server_interceptor :: "string \<Rightarrow> (string, string list) gomap option \<Rightarrow> 'a \<Rightarrow> auth_err + 'a" where
  "server_interceptor key md handled =
     (case md of
        None \<Rightarrow> Inl MissingMetadata
      | Some t \<Rightarrow>
          (case gget0 [] t ''authorization'' of
             [] \<Rightarrow> Inl MissingAuthorization
           | v # _ \<Rightarrow>
               if has_prefix v ''Bearer '' \<and> trim_prefix v ''Bearer '' = key then Inr handled
               else Inl InvalidAPIKey))"

definition client_interceptor :: "string \<Rightarrow> (string, string list) gomap \<Rightarrow> (string, string list) gomap" where
  "client_interceptor key md =
     gset ''authorization'' (gget0 [] md ''authorization'' @ [''Bearer '' @ key]) md"

text \<open>A call as the server of \<^verbatim>\<open>NewServer\<close> answers it: over TCP through the interceptor, on the socket
  directly.\<close>

definition answer ::
    "'s supervisor_ops \<Rightarrow> rpc_env \<Rightarrow> (string \<Rightarrow> string) \<Rightarrow> (string, string list) gomap option \<Rightarrow> request
      \<Rightarrow> 's server \<Rightarrow> ((auth_err + rpc_err + response) \<times> 's server) option" where
  "answer ops re sha256 md req s =
     (let handled = map_option (\<lambda>(r, s1). (Inr r, s1)) (serve ops re req s)
      in case lc_mode (listen_address (sv_os s) sha256 (sv_cfg s)) of
           ListenUnix \<Rightarrow> handled
         | ListenTCP \<Rightarrow>
             (case server_interceptor (cfg_api_key (sv_cfg s)) md handled of
                Inl e \<Rightarrow> Some (Inl e, s)
              | Inr h \<Rightarrow> h))"

text \<open>A session: calls one after the other, each in its own surroundings.\<close>

fun serve_all ::
    "'s supervisor_ops \<Rightarrow> (rpc_env \<times> request) list \<Rightarrow> 's server \<Rightarrow> ((rpc_err + response) list \<times> 's server) option" where
  "serve_all ops [] s = Some ([], s)"
| "serve_all ops ((re, req) # reqs) s =
     (case serve ops re req s of
        None \<Rightarrow> None
      | Some (r, s1) \<Rightarrow> map_option (\<lambda>(rs, s2). (r # rs, s2)) (serve_all ops reqs s1))"

subsection \<open>The socket\<close>

datatype socket_state = NoSocket | DeadSocket | LiveSocket

datatype socket_err = AnotherDaemon string | RemoveStale string

text \<open>\<^verbatim>\<open>CleanStaleSocket\<close>; \<open>removable\<close> says whether the file can be removed.\<close>

definition clean_stale_socket :: "bool \<Rightarrow> string \<Rightarrow> socket_state \<Rightarrow> socket_err option \<times> socket_state" where
  "clean_stale_socket removable path f =
     (case f of
        NoSocket \<Rightarrow> (None, NoSocket)
      | LiveSocket \<Rightarrow> (Some (AnotherDaemon path), LiveSocket)
      | DeadSocket \<Rightarrow> if removable then (None, NoSocket) else (Some (RemoveStale path), DeadSocket))"

subsection \<open>What the server relies on\<close>

locale supervisor_contract =
  fixes ops :: "'s supervisor_ops" and ok :: "'s \<Rightarrow> bool"
  assumes reports: "ok m \<Longrightarrow> op_status ops m \<noteq> None" "ok m \<Longrightarrow> op_mappings ops domain m \<noteq> None"
    and stop_ok: "ok m \<Longrightarrow> ok (op_stop ops m)"
    and add_ok: "ok m \<Longrightarrow> ok (snd (op_add ops svc m))"
    and remove_ok: "ok m \<Longrightarrow> ok (snd (op_remove ops name m))"
    and reload_ok: "ok m \<Longrightarrow> ok (snd (op_reload ops cfg m))"
    and apply_ok: "ok m \<Longrightarrow> ok (snd (op_apply ops svcs m))"
    and chaos_ok: "ok m \<Longrightarrow> ok (snd (op_update_chaos ops names c m))"
      "ok m \<Longrightarrow> ok (snd (op_reset_chaos ops names m))"
    and release_ok: "ok m \<Longrightarrow> ok (snd (op_release ops source m))"
    and add_failed: "fst (op_add ops svc m) \<noteq> None \<Longrightarrow> snd (op_add ops svc m) = m"
begin

lemma handlers_keep_ok:
  assumes "ok (sv_mgr s)"
  shows "ok (sv_mgr (snd (rpc_add ops re req s)))" "ok (sv_mgr (snd (rpc_remove ops re name persist s)))"
    "ok (sv_mgr (snd (rpc_reload ops re s)))" "ok (sv_mgr (snd (rpc_apply ops infos s)))"
    "ok (sv_mgr (snd (rpc_chaos ops creq s)))" "ok (sv_mgr (snd (rpc_release ops source s)))"
proof -
  note kept = add_ok [OF assms] remove_ok [OF assms] reload_ok [OF assms] apply_ok [OF assms]
    chaos_ok [OF assms] release_ok [OF assms]
  show "ok (sv_mgr (snd (rpc_add ops re req s)))"
    using kept(1) assms by (auto simp: rpc_add_def Let_def split: option.split prod.split) (metis snd_conv)+
  show "ok (sv_mgr (snd (rpc_remove ops re name persist s)))"
    using kept(2) [of name] assms by (auto simp: rpc_remove_def Let_def split: option.split prod.split)
  show "ok (sv_mgr (snd (rpc_reload ops re s)))"
    using kept(3) assms by (auto simp: rpc_reload_def split: option.split prod.split sum.split) (metis snd_conv)+
  show "ok (sv_mgr (snd (rpc_apply ops infos s)))"
    using kept(4) [of "map service_info_to_config infos"] assms by (auto simp: rpc_apply_def split: prod.split)
  show "ok (sv_mgr (snd (rpc_chaos ops creq s)))"
    using kept(5,6) assms by (auto simp: rpc_chaos_def split: prod.split sum.split) (metis snd_conv)+
  show "ok (sv_mgr (snd (rpc_release ops source s)))"
    using kept(7) [of source] assms by (auto simp: rpc_release_def split: option.split prod.split)
qed

lemma serve_keeps_ok:
  assumes "ok (sv_mgr s)"
  shows "\<exists>r s'. serve ops re req s = Some (r, s') \<and> ok (sv_mgr s')"
proof (cases req)
  case StatusRequest
  then show ?thesis using reports(1) [OF assms] assms by auto
next
  case (MappingsRequest d)
  then show ?thesis using reports(2) [OF assms, of d] assms by auto
next
  case StopRequest
  then show ?thesis using stop_ok [OF assms] by simp
qed (auto intro: handlers_keep_ok [OF assms] simp: prod_eq_iff)

lemma session_keeps_ok:
  "ok (sv_mgr s) \<Longrightarrow> \<exists>rs s'. serve_all ops reqs s = Some (rs, s') \<and> length rs = length reqs \<and> ok (sv_mgr s')"
proof (induction reqs arbitrary: s)
  case (Cons a reqs)
  obtain re req where a: "a = (re, req)" by (cases a)
  obtain r s1 where 1: "serve ops re req s = Some (r, s1)" "ok (sv_mgr s1)"
    using serve_keeps_ok [OF Cons.prems] by blast
  from Cons.IH [OF 1(2)] obtain rs s2 where
    "serve_all ops reqs s1 = Some (rs, s2)" "length rs = length reqs" "ok (sv_mgr s2)" by blast
  with 1(1) a show ?case by simp
qed simp

text \<open>The calls that are refused before, or by, the supervisor leave everything as it was.\<close>

lemma refused_add:
  assumes "rpc_add ops re req s = (Inl e, s')"
  shows "s' = s"
  using assms add_failed
  by (auto simp: rpc_add_def Let_def split: option.splits prod.splits if_splits) (metis fst_conv option.distinct(1) snd_conv server.surjective server.update_convs(1))

end

subsection \<open>The two supervisors\<close>

lemma reachable_step: "reachable cfg m \<Longrightarrow> mgr_step m m' \<Longrightarrow> reachable cfg m'"
  by (rule reachable.step)

lemma manager_ops_snd:
  "snd (op_add (manager_ops is_open ord ord1) svc m) = snd (add_service_mgr svc m)"
  "snd (op_remove (manager_ops is_open ord ord1) name m) = snd (remove_service_mgr name m)"
  "snd (op_reload (manager_ops is_open ord ord1) cfg m) = snd (reload ord cfg m)"
  "snd (op_apply (manager_ops is_open ord ord1) svcs m) = snd (apply_services svcs m)"
  "snd (op_release (manager_ops is_open ord ord1) source m) = snd (release_by_source ord1 source m)"
  by (simp_all add: manager_ops_def split: prod.split)

lemma manager_ops_sel:
  "op_status (manager_ops is_open ord ord1) = status is_open"
  "op_mappings (manager_ops is_open ord ord1) = mappings"
  "op_stop (manager_ops is_open ord ord1) = stop"
  "op_update_chaos (manager_ops is_open ord ord1) = update_chaos"
  "op_reset_chaos (manager_ops is_open ord ord1) = reset_chaos"
  "fst (op_add (manager_ops is_open ord ord1) svc m) = map_option ManagerErr (fst (add_service_mgr svc m))"
  by (simp_all add: manager_ops_def split: prod.split)

interpretation daemon: supervisor_contract "manager_ops is_open ord ord1" "reachable cfg" for is_open ord ord1 cfg
  by unfold_locales
    (auto simp: manager_ops_sel manager_ops_snd status_def mappings_def in_order_total [OF reachable_wf]
      add_service_failed intro: reachable_step mgr_step.intros)

interpretation delegate: supervisor_contract noop_ops "\<lambda>_. True"
  by unfold_locales (simp_all add: noop_ops_def)

text \<open>C6: a daemon answers every session.  Whatever calls arrive, in whatever order, no handler
  panics, each call gets its response, and the manager stays in states its own steps reach.\<close>

theorem server_answers_every_session:
  assumes "reachable cfg (sv_mgr s)"
  shows "\<exists>rs s'. serve_all (manager_ops is_open ord ord1) reqs s = Some (rs, s')
    \<and> length rs = length reqs \<and> reachable cfg (sv_mgr s')"
  using assms by (rule daemon.session_keeps_ok)

definition example_env :: rpc_env where
  "example_env = \<lparr>re_codecs = \<lparr>dec_yaml = (\<lambda>_. None), dec_toml = (\<lambda>_. None)\<rparr>,
     re_encoders = \<lparr>enc_yaml = (\<lambda>_. None), enc_toml = (\<lambda>_. None)\<rparr>, re_uuid = [],
     re_version = ''dev'', re_err_text = (\<lambda>_. []), re_polls = []\<rparr>"

definition example_os :: os_env where
  "example_os = \<lparr>os_home = None, os_cwd = ''/'', os_tmp = ''/tmp'', os_files = [], os_vars = [],
     os_writable = (\<lambda>_. False), os_cut = (\<lambda>_. None), os_path_max = 4096\<rparr>"

definition example_server :: "manager server" where
  "example_server =
     (let cfg = zero_config\<lparr>cfg_listen := ''tcp://127.0.0.1:9000'', cfg_api_key := ''k'',
                  cfg_services := [zero_service\<lparr>svc_name := ''a'', svc_service := ''a'', svc_remote_port := 80\<rparr>]\<rparr>
      in \<lparr>sv_mgr = start (new_manager cfg), sv_cfg = cfg, sv_os = example_os\<rparr>)"

lemma example_server_reachable: "reachable (sv_cfg example_server) (sv_mgr example_server)"
  unfolding example_server_def Let_def server.simps
  by (rule reachable.step [OF reachable.init mgr_step.started]) (simp add: new_manager_def)

theorem server_answers_every_session_witness:
  "\<exists>rs s'. serve_all (manager_ops (\<lambda>_. True) (\<lambda>_ ks. ks) (\<lambda>ks. ks))
      [(example_env, RemoveRequest ''a'' True), (example_env, RemoveRequest ''a'' False), (example_env, StatusRequest)]
      example_server = Some (rs, s') \<and> length rs = 3"
  using server_answers_every_session [OF example_server_reachable, of "\<lambda>_. True" "\<lambda>_ ks. ks" "\<lambda>ks. ks"
      "[(example_env, RemoveRequest ''a'' True), (example_env, RemoveRequest ''a'' False), (example_env, StatusRequest)]"]
  by auto

text \<open>C20: a call the daemon rejects has no effect: if the answer is an error, then the server's
  state and its files are as before, unless the error is that of a removal (which may already
  have removed a parent or some of its children).\<close>

theorem rejected_calls_change_nothing:
  assumes "serve (manager_ops is_open ord ord1) re req s = Some (Inl e, s')"
    and "\<And>x. e \<noteq> NotFoundErr x"
  shows "s' = s"
proof (cases req)
  case (AddRequest areq)
  with assms(1) show ?thesis using daemon.refused_add by simp
next
  case (RemoveRequest name persist)
  with assms show ?thesis by (auto simp: rpc_remove_def Let_def split: if_splits option.splits prod.splits)
next
  case ReloadRequest
  with assms(1) show ?thesis
    by (auto simp: rpc_reload_def manager_ops_def split: if_splits option.splits prod.splits sum.splits)
next
  case (ApplyRequest infos)
  with assms(1) show ?thesis by (auto simp: rpc_apply_def split: if_splits prod.splits)
next
  case (ChaosRequest creq)
  with assms(1) show ?thesis by (auto simp: rpc_chaos_def split: if_splits prod.splits sum.splits)
next
  case (ReleaseRequest source)
  with assms(1) show ?thesis
    by (auto simp: rpc_release_def manager_ops_def split: if_splits option.splits prod.splits)
qed (use assms(1) in auto)

theorem rejected_calls_change_nothing_witness:
  "snd (rpc_add (manager_ops (\<lambda>_. True) (\<lambda>_ ks. ks) (\<lambda>ks. ks)) example_env
      \<lparr>ar_service = None, ar_persist = True, ar_ports = None, ar_source_config = []\<rparr> example_server) = example_server"
proof -
  let ?req = "AddRequest \<lparr>ar_service = None, ar_persist = True, ar_ports = None, ar_source_config = []\<rparr>"
  let ?ops = "manager_ops (\<lambda>_. True) (\<lambda>_ ks. ks) (\<lambda>ks. ks)"
  have "serve ?ops example_env ?req example_server
      = Some (Inl (InvalidArgument ''service is required''), example_server)"
    by (simp add: rpc_add_def)
  from rejected_calls_change_nothing [OF this] this show ?thesis by simp
qed

subsection \<open>Who may call\<close>

lemma interceptor_accepts:
  "server_interceptor key md h = Inr r \<longleftrightarrow>
     r = h \<and> (\<exists>t vs. md = Some t \<and> gget t ''authorization'' = Some ((''Bearer '' @ key) # vs))"
  by (auto simp: server_interceptor_def gget0_def has_prefix_iff trim_prefix_def split: option.splits list.splits)

lemma interceptor_client:
  "gget md ''authorization'' = None \<Longrightarrow>
   gget (client_interceptor key md) ''authorization'' = Some [''Bearer '' @ key]"
  by (simp add: client_interceptor_def gget0_def)

text \<open>C21: a daemon that listens on TCP with a valid configuration has a non-empty key, handles
  exactly the calls whose first authorization value carries that key, and refuses all others
  without running the handler; a client with the same key is always let in.\<close>

theorem tcp_calls_need_key:
  assumes "validate_config (sv_cfg s) = Inr ()" "has_prefix (cfg_listen (sv_cfg s)) ''tcp://''"
    and "key = cfg_api_key (sv_cfg s)"
    and "handled = map_option (\<lambda>(r, s1). (Inr r, s1)) (serve ops re req s)"
  shows "key \<noteq> []
    \<and> (if \<exists>t vs. md = Some t \<and> gget t ''authorization'' = Some ((''Bearer '' @ key) # vs)
       then answer ops re sha256 md req s = handled
       else \<exists>e. answer ops re sha256 md req s = Some (Inl e, s))
    \<and> answer ops re sha256 (Some (client_interceptor key [])) req s = handled"
proof -
  have tcp: "lc_mode (listen_address (sv_os s) sha256 (sv_cfg s)) = ListenTCP"
    using assms(2) by (simp add: listen_address_def)
  have "listen_ok (sv_cfg s)" using assms(1) by (simp only: validate_config_iff config_ok_def)
  then have "key \<noteq> []"
    using assms(2) by (auto simp: listen_ok_def has_prefix_iff assms(3))
  moreover have "answer ops re sha256 md req s =
      (case server_interceptor key md handled of Inl e \<Rightarrow> Some (Inl e, s) | Inr h \<Rightarrow> h)" for md
    by (simp add: answer_def tcp assms(3,4))
  moreover have "server_interceptor key (Some (client_interceptor key [])) handled = Inr handled"
    using interceptor_client [of "[]" key] by (auto simp: interceptor_accepts)
  moreover have "server_interceptor key md handled = Inr handled"
    if "\<exists>t vs. md = Some t \<and> gget t ''authorization'' = Some ((''Bearer '' @ key) # vs)"
    using that by (simp add: interceptor_accepts)
  moreover have "\<exists>e. server_interceptor key md handled = Inl e"
    if "\<not> (\<exists>t vs. md = Some t \<and> gget t ''authorization'' = Some ((''Bearer '' @ key) # vs))"
    using that interceptor_accepts [of key md handled] by (metis sum.exhaust)
  ultimately show ?thesis by (auto split: sum.split)
qed

theorem tcp_calls_need_key_witness:
  "\<exists>e. answer (manager_ops (\<lambda>_. True) (\<lambda>_ ks. ks) (\<lambda>ks. ks)) example_env (\<lambda>x. x)
      (Some [(''authorization'', [''Bearer wrong''])]) StopRequest example_server = Some (Inl e, example_server)"
proof -
  have v: "validate_config (sv_cfg example_server) = Inr ()" by code_simp
  have p: "has_prefix (cfg_listen (sv_cfg example_server)) ''tcp://''" by code_simp
  have k: "cfg_api_key (sv_cfg example_server) = ''k''" by code_simp
  show ?thesis
    using tcp_calls_need_key [OF v p refl refl, of "Some [(''authorization'', [''Bearer wrong''])]"
        "manager_ops (\<lambda>_. True) (\<lambda>_ ks. ks) (\<lambda>ks. ks)" example_env "\<lambda>x. x" StopRequest]
    by (simp add: k)
qed

end
