(* ===== verification/Client.thy ===== *)
theory Client
  imports Server Registry
begin

text \<open>
  The client library (\<^verbatim>\<open>pkg/proxy\<close>): how a client finds the daemon (\<^verbatim>\<open>client.go\<close>, \<^verbatim>\<open>discover.go\<close>), how it
  translates addresses with the table the daemon answered, and the process-wide table all clients
  of a process contribute to (\<^verbatim>\<open>global_resolver.go\<close>).  gRPC is a parameter: whether a connection
  can be set up and what the daemon's \<^verbatim>\<open>Mappings\<close> call answers.  \<^verbatim>\<open>relay.go\<close> copies bytes only.
\<close>

type_synonym addr_table = "(string, string) gomap"

subsection \<open>Options\<close>

record client_options =
  co_enabled :: "bool option"
  co_socket_path :: string
  co_host :: string
  co_api_key :: string
  co_tls_cert :: string
  co_cluster_domain :: string
  co_fuzzy :: "bool option"
  co_refresh :: int

datatype client_option =
    WithRefreshInterval int
  | WithSocketPath string
  | WithTCP string string
  | WithClusterDomain string
  | WithEnabled bool
  | WithTLSCertFile string
  | WithFuzzyMatch bool

definition default_options :: client_options where
  "default_options =
     \<lparr>co_enabled = None, co_socket_path = [], co_host = [], co_api_key = [], co_tls_cert = [],
      co_cluster_domain = [], co_fuzzy = None, co_refresh = 10 * sec\<rparr>"

fun apply_option :: "client_option \<Rightarrow> client_options \<Rightarrow> client_options" where
  "apply_option (WithRefreshInterval t) o1 = o1\<lparr>co_refresh := t\<rparr>"
| "apply_option (WithSocketPath p) o1 = o1\<lparr>co_socket_path := p\<rparr>"
| "apply_option (WithTCP h k) o1 = o1\<lparr>co_host := h, co_api_key := k\<rparr>"
| "apply_option (WithClusterDomain d) o1 = o1\<lparr>co_cluster_domain := d\<rparr>"
| "apply_option (WithEnabled b) o1 = o1\<lparr>co_enabled := Some b\<rparr>"
| "apply_option (WithTLSCertFile p) o1 = o1\<lparr>co_tls_cert := p\<rparr>"
| "apply_option (WithFuzzyMatch b) o1 = o1\<lparr>co_fuzzy := Some b\<rparr>"

subsection \<open>Finding the daemon\<close>

datatype endpoint = TcpEndpoint string string string | UnixEndpoint string

datatype discover_err = BadConfig string load_err | NoDaemon

text \<open>\<open>reg\<close> is the list of running instances, if the registry could be read.\<close>

definition registry_socket :: "os_env \<Rightarrow> entry list option \<Rightarrow> string option" where
  "registry_socket env reg =
     (case reg of
        None \<Rightarrow> None
      | Some es \<Rightarrow>
          map_option en_socket (List.find (\<lambda>e. en_socket e \<noteq> [] \<and> file_exists env (en_socket e)) es))"

definition old_sockets :: "os_env \<Rightarrow> string list" where
  "old_sockets env =
     (if os_cwd env \<noteq> [] then [path_join [os_cwd env, ''.kubeport.sock'']] else []) @
     (case os_home env of
        None \<Rightarrow> []
      | Some home \<Rightarrow>
          if home = [] then []
          else [path_join [path_join [home, ''.config'', ''kubeport''], ''.kubeport.sock''],
                path_join [path_join [home, ''.kubeport''], ''.kubeport.sock'']])"

definition running_daemon :: "os_env \<Rightarrow> entry list option \<Rightarrow> discover_err + endpoint" where
  "running_daemon env reg =
     (case registry_socket env reg of
        Some p \<Rightarrow> Inr (UnixEndpoint p)
      | None \<Rightarrow>
          (case List.find (file_exists env) (old_sockets env) of
             Some p \<Rightarrow> Inr (UnixEndpoint p)
           | None \<Rightarrow> Inl NoDaemon))"

definition discover_target ::
    "os_env \<Rightarrow> codecs \<Rightarrow> (string \<Rightarrow> string) \<Rightarrow> entry list option \<Rightarrow> discover_err + endpoint" where
  "discover_target env cd sha256 reg =
     (case discover env of
        None \<Rightarrow> running_daemon env reg
      | Some path \<Rightarrow>
          (case load_config env cd path of
             Inl e \<Rightarrow> Inl (BadConfig path e)
           | Inr cfg \<Rightarrow>
               (let lc = listen_address env sha256 cfg
                in if lc_mode lc = ListenTCP
                   then Inr (TcpEndpoint (lc_address lc) (cfg_api_key cfg)
                              (path_join [path_dir path, ''.kubeport-tls.crt'']))
                   else if file_exists env (lc_address lc) then Inr (UnixEndpoint (lc_address lc))
                   else running_daemon env reg)))"

text \<open>\<^verbatim>\<open>tlsCredsFromCertFile\<close>: a certificate that cannot be read, or parsed, is passed over.\<close>

datatype tls_roots = SystemRoots | PinnedRoot string

definition tls_roots_of :: "os_env \<Rightarrow> (string \<Rightarrow> bool) \<Rightarrow> string \<Rightarrow> tls_roots" where
  "tls_roots_of env is_pem cert =
     (if cert = [] then SystemRoots
      else (case read_file env cert of
              None \<Rightarrow> SystemRoots
            | Some pem \<Rightarrow> if is_pem pem then PinnedRoot pem else SystemRoots))"

subsection \<open>Connecting\<close>

text \<open>gRPC as the client sees it: \<open>None\<close> for a connection that could be set up, and the answer to
  \<^verbatim>\<open>Mappings\<close> for a cluster domain.\<close>

record daemon_api =
  da_connect :: "endpoint \<Rightarrow> string option"
  da_mappings :: "endpoint \<Rightarrow> string \<Rightarrow> string + addr_table"

datatype client_err = DiscoverFailed discover_err | ConnectFailed string | FetchFailed string

record sdk_client =
  sc_endpoint :: endpoint
  sc_addrs :: addr_table
  sc_fuzzy :: bool
  sc_auto_refresh :: bool
  sc_closed :: bool

definition choose_endpoint ::
    "os_env \<Rightarrow> codecs \<Rightarrow> (string \<Rightarrow> string) \<Rightarrow> entry list option \<Rightarrow> client_options \<Rightarrow> discover_err + endpoint" where
  "choose_endpoint env cd sha256 reg o1 =
     (if co_host o1 \<noteq> [] then Inr (TcpEndpoint (co_host o1) (co_api_key o1) (co_tls_cert o1))
      else if co_socket_path o1 \<noteq> [] then Inr (UnixEndpoint (co_socket_path o1))
      else discover_target env cd sha256 reg)"

definition new_client ::
    "daemon_api \<Rightarrow> (client_options \<Rightarrow> discover_err + endpoint) \<Rightarrow> client_options \<Rightarrow> client_err + sdk_client" where
  "new_client api pick o1 =
     sbind (wrap_err DiscoverFailed (pick o1)) (\<lambda>ep.
       (case da_connect api ep of
          Some t \<Rightarrow> Inl (ConnectFailed t)
        | None \<Rightarrow>
            sbind (wrap_err FetchFailed (da_mappings api ep (co_cluster_domain o1))) (\<lambda>addrs.
              Inr \<lparr>sc_endpoint = ep, sc_addrs = addrs, sc_fuzzy = (co_fuzzy o1 \<noteq> Some False),
                   sc_auto_refresh = (0 < co_refresh o1), sc_closed = False\<rparr>)))"

datatype proxy = Noop | Active sdk_client

definition new_proxy ::
    "daemon_api \<Rightarrow> (client_options \<Rightarrow> discover_err + endpoint) \<Rightarrow> client_option list \<Rightarrow> client_err + proxy" where
  "new_proxy api pick opts =
     (let o1 = foldl (\<lambda>o1 f. apply_option f o1) default_options opts
      in if co_enabled o1 = Some False then Inr Noop
         else (case new_client api pick o1 of
                 Inr c \<Rightarrow> Inr (Active c)
               | Inl e \<Rightarrow> if co_enabled o1 = Some True then Inr Noop else Inl e))"

subsection \<open>Translating an address\<close>

definition extract_namespace :: "string \<Rightarrow> string" where
  "extract_namespace rest =
     (case cut rest ''.'' of
        None \<Rightarrow> []
      | Some (_, after) \<Rightarrow> (case cut after ''.'' of None \<Rightarrow> after | Some (ns, _) \<Rightarrow> ns))"

text \<open>The fuzzy match of a headless service's name: first pod and namespace, then the pod alone.\<close>

definition fuzzy_match :: "addr_table \<Rightarrow> string \<Rightarrow> string \<Rightarrow> string option" where
  "fuzzy_match addrs host port =
     (case cut host ''.'' of
        None \<Rightarrow> None
      | Some (short, rest) \<Rightarrow>
          (let ns = extract_namespace rest;
               qualified = (if ns = [] then None else gget addrs (join_host_port (short @ ''.'' @ ns) port))
           in if qualified \<noteq> None then qualified else gget addrs (join_host_port short port)))"

definition resolve_addr :: "addr_table \<Rightarrow> string \<Rightarrow> bool \<Rightarrow> string" where
  "resolve_addr addrs addr fuzzy =
     (case gget addrs addr of
        Some translated \<Rightarrow> translated
      | None \<Rightarrow>
          (case split_host_port addr of
             None \<Rightarrow> addr
           | Some (host, port) \<Rightarrow>
               (case gget addrs host of
                  Some translated \<Rightarrow> join_host_port translated port
                | None \<Rightarrow>
                    if fuzzy
                    then (case fuzzy_match addrs host port of Some translated \<Rightarrow> translated | None \<Rightarrow> addr)
                    else addr)))"

definition translate_addr :: "proxy \<Rightarrow> string \<Rightarrow> string" where
  "translate_addr p addr =
     (case p of Noop \<Rightarrow> addr | Active c \<Rightarrow> resolve_addr (sc_addrs c) addr (sc_fuzzy c))"

definition grpc_target :: "proxy \<Rightarrow> string \<Rightarrow> string" where
  "grpc_target p addr =
     (case p of
        Noop \<Rightarrow> addr
      | Active c \<Rightarrow> if sc_addrs c = [] then addr else ''kubeport:///'' @ addr)"

text \<open>What a connection of the client's own resolver is sent to; \<open>endpoint\<close> and \<open>url_path\<close> are
  gRPC's reading of the target.\<close>

definition resolver_state :: "proxy \<Rightarrow> string \<Rightarrow> string \<Rightarrow> string" where
  "resolver_state p endpoint_part url_path =
     translate_addr p (if endpoint_part = [] then trim_prefix url_path ''/'' else endpoint_part)"

subsection \<open>The table of the process\<close>

record global_table =
  gt_addrs :: addr_table
  gt_resolvers :: "(nat, string \<times> string) gomap"

definition notify :: "global_table \<Rightarrow> global_table" where
  "notify g = g\<lparr>gt_resolvers :=
     map (\<lambda>(i, addr, _). (i, addr, resolve_addr (gt_addrs g) addr True)) (gt_resolvers g)\<rparr>"

definition merge_table :: "addr_table \<Rightarrow> global_table \<Rightarrow> global_table" where
  "merge_table addrs g = notify (g\<lparr>gt_addrs := gcopy (gt_addrs g) addrs\<rparr>)"

definition drop_if_same :: "addr_table \<Rightarrow> string \<times> string \<Rightarrow> addr_table" where
  "drop_if_same t e = (case e of (k, v) \<Rightarrow> if gget0 [] t k = v then gdel k t else t)"

definition swap_table :: "addr_table \<Rightarrow> addr_table \<Rightarrow> global_table \<Rightarrow> global_table" where
  "swap_table old new g =
     notify (g\<lparr>gt_addrs :=
       foldl drop_if_same (gcopy (gt_addrs g) new) (filter (\<lambda>(k, _). gget new k = None) old)\<rparr>)"

definition remove_table :: "addr_table \<Rightarrow> global_table \<Rightarrow> global_table" where
  "remove_table addrs g = notify (g\<lparr>gt_addrs := foldl drop_if_same (gt_addrs g) addrs\<rparr>)"

definition build_resolver :: "nat \<Rightarrow> string \<Rightarrow> global_table \<Rightarrow> global_table" where
  "build_resolver i addr g =
     g\<lparr>gt_resolvers := gset i (addr, resolve_addr (gt_addrs g) addr True) (gt_resolvers g)\<rparr>"

definition close_resolver :: "nat \<Rightarrow> global_table \<Rightarrow> global_table" where
  "close_resolver i g = g\<lparr>gt_resolvers := gdel i (gt_resolvers g)\<rparr>"

subsection \<open>The clients of a process\<close>

text \<open>\<^verbatim>\<open>Refresh\<close> and \<^verbatim>\<open>Close\<close> are several steps between which other goroutines run.  A refresh has
  its answer, then it has replaced the client's mappings and still has to update the process-wide
  table; a close has shut the client, then it has read the mappings to remove.  The world holds,
  for each client, the calls in progress; nothing in it keeps two calls of one client apart.\<close>

datatype call_phase =
    Answered addr_table
  | Stored addr_table addr_table
  | Closing
  | Taken addr_table

record sdk_world =
  sw_clients :: "(nat, sdk_client) gomap"
  sw_calls :: "nat \<Rightarrow> call_phase list"
  sw_table :: global_table

definition empty_world :: sdk_world where
  "empty_world = \<lparr>sw_clients = [], sw_calls = (\<lambda>_. []), sw_table = \<lparr>gt_addrs = [], gt_resolvers = []\<rparr>\<rparr>"

text \<open>\<^verbatim>\<open>New\<close> once it has a client.\<close>

definition join_client :: "nat \<Rightarrow> sdk_client \<Rightarrow> sdk_world \<Rightarrow> sdk_world" where
  "join_client i c w =
     w\<lparr>sw_clients := gset i c (sw_clients w), sw_table := merge_table (sc_addrs c) (sw_table w)\<rparr>"

definition begin_call :: "nat \<Rightarrow> call_phase \<Rightarrow> sdk_world \<Rightarrow> sdk_world" where
  "begin_call i p w = w\<lparr>sw_calls := (sw_calls w)(i := p # sw_calls w i)\<rparr>"

definition end_call :: "nat \<Rightarrow> call_phase \<Rightarrow> sdk_world \<Rightarrow> sdk_world" where
  "end_call i p w = w\<lparr>sw_calls := (sw_calls w)(i := remove1 p (sw_calls w i))\<rparr>"

text \<open>The steps of \<^verbatim>\<open>Refresh\<close>: the daemon's answer, for the default cluster domain and whether or not
  the client has been closed; the exchange of the client's mappings; the exchange in the table.\<close>

definition ask_refresh :: "daemon_api \<Rightarrow> nat \<Rightarrow> sdk_world \<Rightarrow> sdk_world" where
  "ask_refresh api i w =
     (case gget (sw_clients w) i of
        None \<Rightarrow> w
      | Some c \<Rightarrow> (case da_mappings api (sc_endpoint c) [] of
                    Inl _ \<Rightarrow> w
                  | Inr addrs \<Rightarrow> begin_call i (Answered addrs) w))"

definition store_refresh :: "nat \<Rightarrow> addr_table \<Rightarrow> sdk_world \<Rightarrow> sdk_world" where
  "store_refresh i addrs w =
     (case gget (sw_clients w) i of
        None \<Rightarrow> w
      | Some c \<Rightarrow>
          if Answered addrs \<in> set (sw_calls w i)
          then begin_call i (Stored (sc_addrs c) addrs)
                 (end_call i (Answered addrs) (w\<lparr>sw_clients := gset i (c\<lparr>sc_addrs := addrs\<rparr>) (sw_clients w)\<rparr>))
          else w)"

definition swap_refresh :: "nat \<Rightarrow> addr_table \<Rightarrow> addr_table \<Rightarrow> sdk_world \<Rightarrow> sdk_world" where
  "swap_refresh i old addrs w =
     (if Stored old addrs \<in> set (sw_calls w i)
      then end_call i (Stored old addrs) (w\<lparr>sw_table := swap_table old addrs (sw_table w)\<rparr>)
      else w)"

text \<open>The steps of \<^verbatim>\<open>Close\<close>, which takes effect once: the client is shut, its mappings are read, they
  are removed from the table.\<close>

definition shut_client :: "nat \<Rightarrow> sdk_world \<Rightarrow> sdk_world" where
  "shut_client i w =
     (case gget (sw_clients w) i of
        None \<Rightarrow> w
      | Some c \<Rightarrow>
          if sc_closed c then w
          else begin_call i Closing (w\<lparr>sw_clients := gset i (c\<lparr>sc_closed := True\<rparr>) (sw_clients w)\<rparr>))"

definition take_addrs :: "nat \<Rightarrow> sdk_world \<Rightarrow> sdk_world" where
  "take_addrs i w =
     (case gget (sw_clients w) i of
        None \<Rightarrow> w
      | Some c \<Rightarrow>
          if Closing \<in> set (sw_calls w i)
          then begin_call i (Taken (sc_addrs c)) (end_call i Closing w) else w)"

definition clear_addrs :: "nat \<Rightarrow> addr_table \<Rightarrow> sdk_world \<Rightarrow> sdk_world" where
  "clear_addrs i addrs w =
     (if Taken addrs \<in> set (sw_calls w i)
      then end_call i (Taken addrs) (w\<lparr>sw_table := remove_table addrs (sw_table w)\<rparr>)
      else w)"

text \<open>A whole refresh and a whole close, when nothing comes in between.\<close>

definition refresh_client :: "daemon_api \<Rightarrow> nat \<Rightarrow> sdk_world \<Rightarrow> sdk_world" where
  "refresh_client api i w =
     (case gget (sw_clients w) i of
        None \<Rightarrow> w
      | Some c \<Rightarrow> (case da_mappings api (sc_endpoint c) [] of
                    Inl _ \<Rightarrow> w
                  | Inr addrs \<Rightarrow>
                      swap_refresh i (sc_addrs c) addrs (store_refresh i addrs (ask_refresh api i w))))"

definition close_client :: "nat \<Rightarrow> sdk_world \<Rightarrow> sdk_world" where
  "close_client i w =
     (case gget (sw_clients w) i of
        None \<Rightarrow> w
      | Some c \<Rightarrow> if sc_closed c then w else clear_addrs i (sc_addrs c) (take_addrs i (shut_client i w)))"

inductive sdk_step :: "sdk_world \<Rightarrow> sdk_world \<Rightarrow> bool" where
  joins: "gget (sw_clients w) i = None \<Longrightarrow> gwf (sc_addrs c) \<Longrightarrow> \<not> sc_closed c \<Longrightarrow>
    sdk_step w (join_client i c w)"
| asks: "(\<And>ep d addrs. da_mappings api ep d = Inr addrs \<Longrightarrow> gwf addrs) \<Longrightarrow>
    sdk_step w (ask_refresh api i w)"
| stores: "sdk_step w (store_refresh i addrs w)"
| swaps: "sdk_step w (swap_refresh i old addrs w)"
| shuts: "sdk_step w (shut_client i w)"
| takes: "sdk_step w (take_addrs i w)"
| clears: "sdk_step w (clear_addrs i addrs w)"
| dials: "sdk_step w (w\<lparr>sw_table := build_resolver r addr (sw_table w)\<rparr>)"
| hangs_up: "sdk_step w (w\<lparr>sw_table := close_resolver r (sw_table w)\<rparr>)"

inductive sdk_reachable :: "sdk_world \<Rightarrow> bool" where
  sdk_init: "sdk_reachable empty_world"
| sdk_next: "sdk_reachable w \<Longrightarrow> sdk_step w w' \<Longrightarrow> sdk_reachable w'"

text \<open>The discipline that the code does not enforce: a client has at most one call in progress, and
  no refresh runs on a client that has been shut.  A program that sets no refresh interval keeps to it
  by making its calls on a client one after the other; with an interval the goroutine of the client
  refreshes whenever its ticker fires, beside any other call, and the runs in which it meets one are
  left out.  The second relation is the first one restricted to the runs that keep to the discipline;
  the calls of different clients interleave in it without restriction.\<close>

definition closes_only :: "call_phase list \<Rightarrow> bool" where
  "closes_only ps \<longleftrightarrow> list_all (\<lambda>p. case p of Closing \<Rightarrow> True | Taken _ \<Rightarrow> True | _ \<Rightarrow> False) ps"

definition disciplined :: "sdk_world \<Rightarrow> bool" where
  "disciplined w \<longleftrightarrow>
     list_all (\<lambda>(i, c). length (sw_calls w i) \<le> 1 \<and> (sc_closed c \<longrightarrow> closes_only (sw_calls w i))) (sw_clients w)"

inductive sdk_orderly :: "sdk_world \<Rightarrow> bool" where
  orderly_init: "sdk_orderly empty_world"
| orderly_next: "sdk_orderly w \<Longrightarrow> sdk_step w w' \<Longrightarrow> disciplined w' \<Longrightarrow> sdk_orderly w'"

text \<open>The invariant: every entry of the table is one that some client contributes.  A client with no
  call in progress contributes its mappings while it is open; one whose refresh has replaced its
  mappings still contributes the old ones; one that is closing contributes what it is about to
  remove.\<close>

definition contributes :: "call_phase list \<Rightarrow> sdk_client \<Rightarrow> string \<Rightarrow> string \<Rightarrow> bool" where
  "contributes ps c k v =
     (case ps of
        [] \<Rightarrow> \<not> sc_closed c \<and> gget (sc_addrs c) k = Some v
      | Answered _ # _ \<Rightarrow> gget (sc_addrs c) k = Some v
      | Stored old _ # _ \<Rightarrow> gget old k = Some v
      | Closing # _ \<Rightarrow> gget (sc_addrs c) k = Some v
      | Taken addrs # _ \<Rightarrow> gget addrs k = Some v)"

definition backed :: "sdk_world \<Rightarrow> string \<Rightarrow> string \<Rightarrow> bool" where
  "backed w k v \<longleftrightarrow> (\<exists>i c. gget (sw_clients w) i = Some c \<and> contributes (sw_calls w i) c k v)"

fun phase_wf :: "sdk_client \<Rightarrow> call_phase \<Rightarrow> bool" where
  "phase_wf c (Answered addrs) = gwf addrs"
| "phase_wf c (Stored old addrs) = (gwf old \<and> gwf addrs \<and> sc_addrs c = addrs)"
| "phase_wf c Closing = sc_closed c"
| "phase_wf c (Taken addrs) = (gwf addrs \<and> sc_closed c)"

definition resolvers_current :: "global_table \<Rightarrow> bool" where
  "resolvers_current g \<longleftrightarrow>
     (\<forall>i addr t. (i, addr, t) \<in> set (gt_resolvers g) \<longrightarrow> t = resolve_addr (gt_addrs g) addr True)"

definition sdk_inv :: "sdk_world \<Rightarrow> bool" where
  "sdk_inv w \<longleftrightarrow>
     (\<forall>k v. gget (gt_addrs (sw_table w)) k = Some v \<longrightarrow> backed w k v)
     \<and> (\<forall>i. gget (sw_clients w) i = None \<longrightarrow> sw_calls w i = [])
     \<and> (\<forall>i c. gget (sw_clients w) i = Some c \<longrightarrow>
          gwf (sc_addrs c) \<and> length (sw_calls w i) \<le> 1 \<and> (\<forall>p \<in> set (sw_calls w i). phase_wf c p))"

lemma notify_current [simp]: "resolvers_current (notify g)"
  by (auto simp: resolvers_current_def notify_def)

lemma notify_addrs [simp]: "gt_addrs (notify g) = gt_addrs g"
  by (simp add: notify_def)

lemma dropped_lookup:
  assumes "gwf es"
  shows "gget (foldl drop_if_same t es) k =
     (if gget es k \<noteq> None \<and> gget t k = gget es k then None else gget t k)"
  using assms
proof (induction es arbitrary: t)
  case (Cons e es)
  obtain k1 v1 where e: "e = (k1, v1)" by (cases e)
  have one: "gget (drop_if_same t (k1, v1)) k = (if k = k1 \<and> gget t k = Some v1 then None else gget t k)"
    by (auto simp: drop_if_same_def gget0_def split: option.splits)
  have "k = k1 \<Longrightarrow> gget es k = None" using Cons.prems e by (simp add: gget_None_iff)
  then show ?case using Cons e one by auto
qed simp

lemma gset_mem: "(i, x) \<in> set (gset k v m) \<Longrightarrow> (i, x) = (k, v) \<or> (i, x) \<in> set m"
  by (induction k v m rule: gset.induct) (auto split: if_splits)

lemma gdel_mem: "(i, x) \<in> set (gdel k m) \<Longrightarrow> (i, x) \<in> set m"
  by (induction k m rule: gdel.induct) (auto split: if_splits)

lemma gwf_filter: "gwf t \<Longrightarrow> gwf (filter (\<lambda>(k, _). P k) t)"
  by (induction t) auto

lemma gget_filter: "P k \<Longrightarrow> gget (filter (\<lambda>(k, _). P k) t) k = gget t k"
  by (induction t) auto

text \<open>A step of client \<open>i\<close> changes its own record and calls and the table.  It keeps the invariant
  if each entry that it leaves is contributed by the client as it is now, or is an old entry that
  the client did not contribute before.\<close>

lemma client_step_inv:
  assumes inv: "sdk_inv w"
    and frame: "\<And>j. j \<noteq> i \<Longrightarrow> gget (sw_clients w') j = gget (sw_clients w) j"
      "\<And>j. j \<noteq> i \<Longrightarrow> sw_calls w' j = sw_calls w j"
    and own: "gget (sw_clients w') i = Some c'" "gwf (sc_addrs c')" "length (sw_calls w' i) \<le> 1"
      "\<forall>p \<in> set (sw_calls w' i). phase_wf c' p"
    and entries: "\<And>k v. gget (gt_addrs (sw_table w')) k = Some v \<Longrightarrow>
      contributes (sw_calls w' i) c' k v
      \<or> (gget (gt_addrs (sw_table w)) k = Some v
          \<and> (\<forall>c. gget (sw_clients w) i = Some c \<longrightarrow> \<not> contributes (sw_calls w i) c k v))"
  shows "sdk_inv w'"
  unfolding sdk_inv_def
proof (intro conjI allI impI)
  fix k v assume "gget (gt_addrs (sw_table w')) k = Some v"
  from entries [OF this] show "backed w' k v"
  proof (elim disjE conjE)
    assume "gget (gt_addrs (sw_table w)) k = Some v"
      and no: "\<forall>c. gget (sw_clients w) i = Some c \<longrightarrow> \<not> contributes (sw_calls w i) c k v"
    then obtain j c where j: "gget (sw_clients w) j = Some c" "contributes (sw_calls w j) c k v"
      using inv unfolding sdk_inv_def backed_def by blast
    then have "j \<noteq> i" using no by blast
    then have "gget (sw_clients w') j = Some c" "contributes (sw_calls w' j) c k v" using j frame [of j] by simp_all
    then show ?thesis unfolding backed_def by blast
  qed (use own(1) in \<open>auto simp: backed_def\<close>)
next
  fix j assume "gget (sw_clients w') j = None"
  then show "sw_calls w' j = []" using inv frame [of j] own(1) by (cases "j = i") (auto simp: sdk_inv_def)
next
  fix j c assume j: "gget (sw_clients w') j = Some c"
  have all: 
    "gwf (sc_addrs c) \<and> length (sw_calls w' j) \<le> 1 \<and> (\<forall>p \<in> set (sw_calls w' j). phase_wf c p)"
  proof (cases "j = i")
    case True
    then show ?thesis using own j by simp
  next
    case False
    then have "gget (sw_clients w) j = Some c" "sw_calls w' j = sw_calls w j" using frame [OF False] j by simp_all
    then show ?thesis using inv unfolding sdk_inv_def by presburger
  qed
  then show "gwf (sc_addrs c)" "length (sw_calls w' j) \<le> 1" by simp_all
  show "\<forall>p \<in> set (sw_calls w' j). phase_wf c p" using all by simp
qed

lemma only_call: "length ps \<le> 1 \<Longrightarrow> p \<in> set ps \<Longrightarrow> ps = [p]"
  by (cases ps) auto

lemma inv_client:
  assumes "sdk_inv w" "gget (sw_clients w) i = Some c"
  shows "gwf (sc_addrs c)" "length (sw_calls w i) \<le> 1" "\<And>p. p \<in> set (sw_calls w i) \<Longrightarrow> phase_wf c p"
  using assms by (auto simp: sdk_inv_def)

lemma disciplined_client:
  assumes "disciplined w" "gget (sw_clients w) i = Some c"
  shows "length (sw_calls w i) \<le> 1" "sc_closed c \<Longrightarrow> closes_only (sw_calls w i)"
proof -
  have "(i, c) \<in> set (sw_clients w)" using assms(2) by (rule map_of_SomeD)
  then show "length (sw_calls w i) \<le> 1" "sc_closed c \<Longrightarrow> closes_only (sw_calls w i)"
    using assms(1) by (auto simp: disciplined_def list_all_iff)
qed

lemma calls_simps [simp]:
  "sw_clients (begin_call i p w) = sw_clients w" "sw_table (begin_call i p w) = sw_table w"
  "sw_calls (begin_call i p w) = (sw_calls w)(i := p # sw_calls w i)"
  "sw_clients (end_call i p w) = sw_clients w" "sw_table (end_call i p w) = sw_table w"
  "sw_calls (end_call i p w) = (sw_calls w)(i := remove1 p (sw_calls w i))"
  by (simp_all add: begin_call_def end_call_def)

lemma join_inv:
  assumes "sdk_inv w" "gget (sw_clients w) i = None" "gwf (sc_addrs c)" "\<not> sc_closed c"
  shows "sdk_inv (join_client i c w)"
proof (rule client_step_inv [OF assms(1), where i = i and c' = c])
  have no: "sw_calls w i = []" using assms(1,2) by (simp add: sdk_inv_def)
  then show "length (sw_calls (join_client i c w) i) \<le> 1" "\<forall>p \<in> set (sw_calls (join_client i c w) i). phase_wf c p"
    by (simp_all add: join_client_def)
  fix k v assume "gget (gt_addrs (sw_table (join_client i c w))) k = Some v"
  then show "contributes (sw_calls (join_client i c w) i) c k v
      \<or> (gget (gt_addrs (sw_table w)) k = Some v
          \<and> (\<forall>c. gget (sw_clients w) i = Some c \<longrightarrow> \<not> contributes (sw_calls w i) c k v))"
    using assms no by (auto simp: join_client_def merge_table_def gget_gcopy contributes_def split: option.splits)
qed (use assms in \<open>simp_all add: join_client_def\<close>)

lemma ask_inv:
  assumes "sdk_inv w" "\<And>ep d addrs. da_mappings api ep d = Inr addrs \<Longrightarrow> gwf addrs"
    and "disciplined (ask_refresh api i w)"
  shows "sdk_inv (ask_refresh api i w)"
proof (cases "\<exists>c addrs. gget (sw_clients w) i = Some c \<and> da_mappings api (sc_endpoint c) [] = Inr addrs")
  case False
  then show ?thesis using assms(1) by (auto simp: ask_refresh_def split: option.splits sum.splits)
next
  case True
  then obtain c addrs where c: "gget (sw_clients w) i = Some c" "da_mappings api (sc_endpoint c) [] = Inr addrs" by auto
  then have w': "ask_refresh api i w = begin_call i (Answered addrs) w" by (simp add: ask_refresh_def)
  then have one: "sw_calls w i = []" "\<not> sc_closed c"
    using disciplined_client [OF assms(3), of i c] c by (auto simp: closes_only_def)
  show ?thesis unfolding w'
    by (rule client_step_inv [OF assms(1), where i = i and c' = c])
      (use c one assms(1,2) inv_client [OF assms(1) c(1)] in \<open>auto simp: contributes_def\<close>)
qed

lemma store_inv:
  assumes "sdk_inv w" shows "sdk_inv (store_refresh i addrs w)"
proof (cases "\<exists>c. gget (sw_clients w) i = Some c \<and> Answered addrs \<in> set (sw_calls w i)")
  case False
  then show ?thesis using assms by (auto simp: store_refresh_def split: option.splits)
next
  case True
  then obtain c where c: "gget (sw_clients w) i = Some c" "Answered addrs \<in> set (sw_calls w i)" by auto
  have one: "sw_calls w i = [Answered addrs]" using inv_client(2) [OF assms c(1)] c(2) by (rule only_call)
  have w': "store_refresh i addrs w = begin_call i (Stored (sc_addrs c) addrs)
      (end_call i (Answered addrs) (w\<lparr>sw_clients := gset i (c\<lparr>sc_addrs := addrs\<rparr>) (sw_clients w)\<rparr>))"
    using c by (simp add: store_refresh_def)
  have wf: "gwf addrs" "gwf (sc_addrs c)" using inv_client [OF assms c(1)] c(2) by fastforce+
  show ?thesis unfolding w'
    by (rule client_step_inv [OF assms, where i = i and c' = "c\<lparr>sc_addrs := addrs\<rparr>"])
      (use c one wf in \<open>auto simp: contributes_def\<close>)
qed

lemma swap_inv:
  assumes "sdk_inv w" "disciplined w" shows "sdk_inv (swap_refresh i old addrs w)"
proof (cases "Stored old addrs \<in> set (sw_calls w i)")
  case False
  then show ?thesis using assms(1) by (simp add: swap_refresh_def)
next
  case True
  then obtain c where c: "gget (sw_clients w) i = Some c"
    using assms(1) by (cases "gget (sw_clients w) i") (auto simp: sdk_inv_def)
  have one: "sw_calls w i = [Stored old addrs]" using inv_client(2) [OF assms(1) c] True by (rule only_call)
  have wf: "gwf old" "gwf addrs" "sc_addrs c = addrs" using inv_client(3) [OF assms(1) c True] by simp_all
  have open_c: "\<not> sc_closed c"
    using disciplined_client(2) [OF assms(2) c] one by (auto simp: closes_only_def)
  define dropped where "dropped = filter (\<lambda>(k, _). gget addrs k = None) old"
  have wd: "gwf dropped" unfolding dropped_def using wf(1) by (rule gwf_filter)
  have d: "gget addrs k = None \<Longrightarrow> gget dropped k = gget old k" for k
    unfolding dropped_def by (rule gget_filter)
  have w': "swap_refresh i old addrs w =
      end_call i (Stored old addrs) (w\<lparr>sw_table := swap_table old addrs (sw_table w)\<rparr>)"
    using True by (simp add: swap_refresh_def)
  show ?thesis unfolding w'
  proof (rule client_step_inv [OF assms(1), where i = i and c' = c], goal_cases)
    case (7 k v)
    then have t: "gget (foldl drop_if_same (gcopy (gt_addrs (sw_table w)) addrs) dropped) k = Some v"
      by (simp add: swap_table_def dropped_def)
    show ?case
    proof (cases "gget addrs k")
      case None
      then have "gget (gt_addrs (sw_table w)) k = Some v" "gget old k \<noteq> Some v"
        using t wf(2) d [OF None] by (auto simp: dropped_lookup [OF wd] gget_gcopy split: if_splits)
      then show ?thesis using c one by (simp add: contributes_def)
    next
      case (Some u)
      then have "v = u" using t wf(2) by (auto simp: dropped_lookup [OF wd] gget_gcopy split: if_splits)
      then show ?thesis using Some one wf(3) open_c by (simp add: contributes_def)
    qed
  qed (use c one wf in \<open>simp_all\<close>)
qed

lemma shut_inv:
  assumes "sdk_inv w" "disciplined (shut_client i w)" shows "sdk_inv (shut_client i w)"
proof (cases "\<exists>c. gget (sw_clients w) i = Some c \<and> \<not> sc_closed c")
  case False
  then show ?thesis using assms(1) by (auto simp: shut_client_def split: option.splits)
next
  case True
  then obtain c where c: "gget (sw_clients w) i = Some c" "\<not> sc_closed c" by auto
  have w': "shut_client i w = begin_call i Closing (w\<lparr>sw_clients := gset i (c\<lparr>sc_closed := True\<rparr>) (sw_clients w)\<rparr>)"
    using c by (simp add: shut_client_def)
  then have one: "sw_calls w i = []"
    using disciplined_client(1) [OF assms(2), of i "c\<lparr>sc_closed := True\<rparr>"] by simp
  show ?thesis unfolding w'
    by (rule client_step_inv [OF assms(1), where i = i and c' = "c\<lparr>sc_closed := True\<rparr>"])
      (use c one inv_client [OF assms(1) c(1)] in \<open>auto simp: contributes_def\<close>)
qed

lemma take_inv:
  assumes "sdk_inv w" shows "sdk_inv (take_addrs i w)"
proof (cases "\<exists>c. gget (sw_clients w) i = Some c \<and> Closing \<in> set (sw_calls w i)")
  case False
  then show ?thesis using assms(1) by (auto simp: take_addrs_def split: option.splits)
next
  case True
  then obtain c where c: "gget (sw_clients w) i = Some c" "Closing \<in> set (sw_calls w i)" by auto
  have one: "sw_calls w i = [Closing]" using inv_client(2) [OF assms c(1)] c(2) by (rule only_call)
  have wf: "sc_closed c" using inv_client(3) [OF assms c] by simp
  have w': "take_addrs i w = begin_call i (Taken (sc_addrs c)) (end_call i Closing w)"
    using c by (simp add: take_addrs_def)
  show ?thesis unfolding w'
    by (rule client_step_inv [OF assms, where i = i and c' = c])
      (use c one wf inv_client(1) [OF assms c(1)] in \<open>auto simp: contributes_def\<close>)
qed

lemma clear_inv:
  assumes "sdk_inv w" shows "sdk_inv (clear_addrs i addrs w)"
proof (cases "Taken addrs \<in> set (sw_calls w i)")
  case False
  then show ?thesis using assms by (simp add: clear_addrs_def)
next
  case True
  then obtain c where c: "gget (sw_clients w) i = Some c"
    using assms by (cases "gget (sw_clients w) i") (auto simp: sdk_inv_def)
  have one: "sw_calls w i = [Taken addrs]" using inv_client(2) [OF assms c] True by (rule only_call)
  have wf: "gwf addrs" using inv_client(3) [OF assms c True] by simp
  have w': "clear_addrs i addrs w = end_call i (Taken addrs) (w\<lparr>sw_table := remove_table addrs (sw_table w)\<rparr>)"
    using True by (simp add: clear_addrs_def)
  show ?thesis unfolding w'
  proof (rule client_step_inv [OF assms, where i = i and c' = c], goal_cases)
    case (7 k v)
    then have "gget (gt_addrs (sw_table w)) k = Some v" "gget addrs k \<noteq> Some v"
      using wf by (auto simp: remove_table_def dropped_lookup split: if_splits)
    then show ?case using c one by (simp add: contributes_def)
  qed (use c one inv_client(1) [OF assms c] in \<open>simp_all\<close>)
qed

lemma sdk_step_inv: "sdk_step w w' \<Longrightarrow> sdk_inv w \<Longrightarrow> disciplined w \<Longrightarrow> disciplined w' \<Longrightarrow> sdk_inv w'"
proof (induction rule: sdk_step.induct)
  case (dials w r addr)
  then show ?case by (simp add: sdk_inv_def build_resolver_def backed_def)
next
  case (hangs_up w r)
  then show ?case by (simp add: sdk_inv_def close_resolver_def backed_def)
qed (auto intro: join_inv ask_inv store_inv swap_inv shut_inv take_inv clear_inv)

lemma sdk_orderly_inv: "sdk_orderly w \<Longrightarrow> sdk_inv w \<and> disciplined w"
proof (induction rule: sdk_orderly.induct)
  case orderly_init
  then show ?case by (simp add: sdk_inv_def empty_world_def disciplined_def)
next
  case (orderly_next w w')
  then show ?case using sdk_step_inv by blast
qed

text \<open>C7: the process-wide table is sound for clients whose own calls, those of the refresh ticker among
  them, do not overlap.  In whatever
  order the clients of a process join and the steps of their refreshes and closes interleave, as
  long as no client has two calls in progress and none is refreshed once it is shut, every entry
  of the table is one that a client contributes: an open client its mappings, a client in the
  middle of a refresh the ones that the refresh is about to replace, a closing one the ones it is
  about to remove.  When all clients are closed and no call is in progress the table is empty.\<close>

theorem global_table_sound:
  assumes "sdk_orderly w"
  shows "(gget (gt_addrs (sw_table w)) k = Some v \<longrightarrow>
        (\<exists>i c. gget (sw_clients w) i = Some c \<and> contributes (sw_calls w i) c k v))
    \<and> ((\<forall>i c. gget (sw_clients w) i = Some c \<longrightarrow> sc_closed c \<and> sw_calls w i = []) \<longrightarrow> gt_addrs (sw_table w) = [])"
proof -
  have i: "sdk_inv w" using sdk_orderly_inv [OF assms] by simp
  have "gt_addrs (sw_table w) = []" if all: "\<forall>i c. gget (sw_clients w) i = Some c \<longrightarrow> sc_closed c \<and> sw_calls w i = []"
  proof -
    have "gget (gt_addrs (sw_table w)) k = None" for k
    proof (cases "gget (gt_addrs (sw_table w)) k")
      case (Some v)
      then obtain j c where "gget (sw_clients w) j = Some c" "contributes (sw_calls w j) c k v"
        using i unfolding sdk_inv_def backed_def by blast
      then show ?thesis using all by (auto simp: contributes_def)
    qed
    from this [of "fst (hd (gt_addrs (sw_table w)))"] show ?thesis
      by (cases "gt_addrs (sw_table w)") auto
  qed
  with i show ?thesis by (auto simp: sdk_inv_def backed_def)
qed

definition example_client :: sdk_client where
  "example_client = \<lparr>sc_endpoint = UnixEndpoint ''/run/k.sock'', sc_addrs = [(''web:80'', ''localhost:8080'')],
     sc_fuzzy = True, sc_auto_refresh = True, sc_closed = False\<rparr>"

definition shift_api :: daemon_api where
  "shift_api = \<lparr>da_connect = (\<lambda>_. None), da_mappings = (\<lambda>_ _. Inr [(''db:5432'', ''localhost:9000'')])\<rparr>"

definition world_after :: "nat \<Rightarrow> sdk_world" where
  "world_after n = foldl (\<lambda>w f. f w) empty_world (take n
     [join_client 1 example_client, join_client 2 example_client,
      ask_refresh shift_api 1, ask_refresh shift_api 2,
      store_refresh 1 [(''db:5432'', ''localhost:9000'')],
      swap_refresh 1 (sc_addrs example_client) [(''db:5432'', ''localhost:9000'')],
      shut_client 1, take_addrs 1])"

lemma world_after_orderly: "sdk_orderly (world_after 8)"
proof -
  have api: "da_mappings shift_api ep d = Inr addrs \<Longrightarrow> gwf addrs" for ep d addrs
    by (auto simp: shift_api_def)
  have step: "sdk_orderly (world_after n) \<Longrightarrow> sdk_step (world_after n) (world_after (Suc n))
      \<Longrightarrow> disciplined (world_after (Suc n)) \<Longrightarrow> sdk_orderly (world_after (Suc n))" for n
    by (rule orderly_next)
  have joined: "sdk_step empty_world (join_client (Suc 0) example_client empty_world)"
    "sdk_step (join_client (Suc 0) example_client empty_world)
       (join_client 2 example_client (join_client (Suc 0) example_client empty_world))"
    by (rule sdk_step.joins; simp add: join_client_def empty_world_def example_client_def)+
  have "sdk_orderly (world_after 0)" by (simp add: world_after_def orderly_init)
  moreover have "sdk_step (world_after 0) (world_after (Suc 0))" "sdk_step (world_after 1) (world_after 2)"
    "sdk_step (world_after 2) (world_after 3)" "sdk_step (world_after 3) (world_after 4)"
    "sdk_step (world_after 4) (world_after 5)" "sdk_step (world_after 5) (world_after 6)"
    "sdk_step (world_after 6) (world_after 7)" "sdk_step (world_after 7) (world_after 8)"
    by (simp_all add: world_after_def joined sdk_step.asks [OF api] sdk_step.stores sdk_step.swaps
      sdk_step.shuts sdk_step.takes)
  moreover have "list_all (\<lambda>n. disciplined (world_after n)) [1, 2, 3, 4, 5, 6, 7, 8]" by code_simp
  ultimately show ?thesis
    using step [of 0] step [of 1] step [of 2] step [of 3] step [of 4] step [of 5] step [of 6] step [of 7]
    by (simp add: eval_nat_numeral)
qed

theorem global_table_sound_witness:
  "gget (gt_addrs (sw_table (world_after 8))) ''web:80'' = None
   \<and> (\<exists>i c. gget (sw_clients (world_after 8)) i = Some c
        \<and> contributes (sw_calls (world_after 8) i) c ''db:5432'' ''localhost:9000'')"
proof -
  have "gget (gt_addrs (sw_table (world_after 8))) ''web:80'' = None"
    "gget (gt_addrs (sw_table (world_after 8))) ''db:5432'' = Some ''localhost:9000''" by code_simp+
  then show ?thesis using global_table_sound [OF world_after_orderly] by blast
qed

text \<open>Without that discipline the table leaks.  The code neither stops a refresh when the client is
  closed, be it one of the caller or of the ticker, nor keeps two refreshes apart: a refresh that has its answer when the client is closed
  brings its entries into the table after the close has removed the old ones, and they stay there
  although every client is closed and no call is in progress.\<close>

definition leaky_run :: sdk_world where
  "leaky_run =
     (let new = [(''db:5432'', ''localhost:9000'')];
          old = sc_addrs example_client
      in swap_refresh 1 old new (store_refresh 1 new (clear_addrs 1 old (take_addrs 1 (shut_client 1
           (ask_refresh shift_api 1 (join_client 1 example_client empty_world)))))))"

theorem late_swap_leaks:
  "sdk_reachable leaky_run
   \<and> list_all (\<lambda>(i, c). sc_closed c \<and> sw_calls leaky_run i = []) (sw_clients leaky_run)
   \<and> gget (gt_addrs (sw_table leaky_run)) ''db:5432'' = Some ''localhost:9000''"
proof (intro conjI)
  have api: "da_mappings shift_api ep d = Inr addrs \<Longrightarrow> gwf addrs" for ep d addrs
    by (auto simp: shift_api_def)
  have "sdk_step empty_world (join_client 1 example_client empty_world)"
    by (rule sdk_step.joins) (simp_all add: empty_world_def example_client_def)
  then have "sdk_reachable (join_client 1 example_client empty_world)"
    by (rule sdk_next [OF sdk_init])
  then show "sdk_reachable leaky_run"
    unfolding leaky_run_def Let_def
    by (intro sdk_next [OF _ sdk_step.swaps] sdk_next [OF _ sdk_step.stores] sdk_next [OF _ sdk_step.clears]
      sdk_next [OF _ sdk_step.takes] sdk_next [OF _ sdk_step.shuts] sdk_next [OF _ sdk_step.asks [OF api]])
  show "list_all (\<lambda>(i, c). sc_closed c \<and> sw_calls leaky_run i = []) (sw_clients leaky_run)" by code_simp
  show "gget (gt_addrs (sw_table leaky_run)) ''db:5432'' = Some ''localhost:9000''" by code_simp
qed

text \<open>Two clients of one daemon share its mappings, and the first to close takes them away from
  the other: the entry is gone from the table although an open client still has it.\<close>

theorem shared_mapping_lost:
  "let c = example_client\<lparr>sc_addrs := [(k, v)]\<rparr>;
       w = close_client 1 (join_client 2 c (join_client 1 c empty_world))
   in gget (gt_addrs (sw_table w)) k = None \<and> backed w k v"
  unfolding Let_def backed_def
  by (rule conjI, simp_all add: close_client_def join_client_def empty_world_def example_client_def
      shut_client_def take_addrs_def clear_addrs_def begin_call_def end_call_def contributes_def
      merge_table_def remove_table_def drop_if_same_def gget0_def)

subsection \<open>From the daemon's mappings to the address dialled\<close>

lemma address_table_lookup:
  "gget (address_table ms) k = map_option am_local (List.find (\<lambda>am. am_internal am = k) (rev ms))"
  unfolding address_table_def by (induction ms rule: rev_induct) auto

lemma address_table_unique:
  assumes "am \<in> set ms" "\<And>am'. am' \<in> set ms \<Longrightarrow> am_internal am' = am_internal am \<Longrightarrow> am_local am' = l"
  shows "gget (address_table ms) (am_internal am) = Some l"
proof -
  obtain am' where "List.find (\<lambda>a. am_internal a = am_internal am) (rev ms) = Some am'"
    using assms(1) by (cases "List.find (\<lambda>a. am_internal a = am_internal am) (rev ms)") (auto simp: find_None_iff)
  moreover from this have "am' \<in> set ms" "am_internal am' = am_internal am"
    by (auto dest: find_memD)
  ultimately show ?thesis using assms(2) by (simp add: address_table_lookup)
qed

lemma resolve_exact: "gget addrs addr = Some t \<Longrightarrow> resolve_addr addrs addr fuzzy = t"
  by (simp add: resolve_addr_def)

text \<open>C29: the client library reaches what the daemon forwards.  When a service is forwarded and
  running, then each of the four names under which the cluster knows it, dialled at its remote
  port with the table the daemon answers, is translated to the forward's local port, unless
  another forward claims the same name and port.\<close>

theorem running_service_reached:
  assumes "reachable cfg m" "forward_at m n = Some pf" "n \<in> set (mg_order m)"
    and "fw_state pf = StateRunning" "0 < shown_port pf" "svc_service (fw_svc pf) \<noteq> []"
    and "h \<in> set (dns_names (svc_service (fw_svc pf)) (effective_namespace m (fw_svc pf)) ''cluster.local'')"
    and "addr = h @ '':'' @ itoa (svc_remote_port (fw_svc pf))"
    and "mappings [] m = Some ms"
    and "list_all (\<lambda>am. am_internal am = addr \<longrightarrow> am_service am = n) ms"
    and "sc_addrs c = address_table ms"
  shows "translate_addr (Active c) addr = ''localhost:'' @ itoa (shown_port pf)"
proof -
  have w: "manager_wf m" using assms(1) by (rule reachable_wf)
  have ms: "ms = concat (map (\<lambda>k. mappings_of ''cluster.local'' m k (the (forward_at m k))) (mg_order m))"
    using assms(9) by (simp add: mappings_def in_order_total [OF w])
  let ?own = "mappings_of ''cluster.local'' m n pf"
  have "\<lparr>am_internal = addr, am_local = ''localhost:'' @ itoa (shown_port pf), am_service = n\<rparr> \<in> set ?own"
    using assms(4-8) by (auto simp: mappings_of_def Let_def)
  then have mem: "\<lparr>am_internal = addr, am_local = ''localhost:'' @ itoa (shown_port pf), am_service = n\<rparr> \<in> set ms"
    using assms(2,3) by (auto simp: ms intro!: bexI [of _ n])
  have names: "am_service am = k" if "am \<in> set (mappings_of d m k f)" for am k d f
    using that by (auto simp: mappings_of_def Let_def split: if_splits)
  have locals: "am_local am = ''localhost:'' @ itoa (shown_port pf)" if "am \<in> set ?own" for am
    using that by (auto simp: mappings_of_def Let_def split: if_splits)
  have "am_local am = ''localhost:'' @ itoa (shown_port pf)" if a: "am \<in> set ms" "am_internal am = addr" for am
  proof -
    have s: "am_service am = n" using a assms(10) by (auto simp: list_all_iff)
    from a(1) obtain k where "am \<in> set (mappings_of ''cluster.local'' m k (the (forward_at m k)))" by (auto simp: ms)
    moreover from this have "k = n" using names s by blast
    ultimately show ?thesis using locals assms(2) by simp
  qed
  then show ?thesis
    using address_table_unique [OF mem] assms(11) by (simp add: translate_addr_def resolve_exact)
qed

definition running_example :: manager where
  "running_example =
     (let cfg = zero_config\<lparr>cfg_namespace := ''dev'', cfg_services := [zero_service\<lparr>svc_name := ''w'',
                  svc_service := ''web'', svc_local_port := 8080, svc_remote_port := 80\<rparr>]\<rparr>;
          m = start (new_manager cfg)
      in m\<lparr>mg_heap := (mg_heap m)(0 := (mg_heap m 0)\<lparr>fw_state := StateRunning, fw_actual_port := 8080\<rparr>)\<rparr>)"

lemma running_example_reachable: "reachable (mg_cfg running_example) running_example"
proof -
  let ?cfg = "zero_config\<lparr>cfg_namespace := ''dev'', cfg_services := [zero_service\<lparr>svc_name := ''w'',
                  svc_service := ''web'', svc_local_port := 8080, svc_remote_port := 80\<rparr>]\<rparr>"
  have "mg_cfg running_example = ?cfg" by code_simp
  moreover have "reachable ?cfg (start (new_manager ?cfg))"
    by (rule reachable.step [OF reachable.init mgr_step.started]) (simp add: new_manager_def)
  then have "reachable ?cfg running_example"
    unfolding running_example_def Let_def by (rule reachable.step) (rule mgr_step.drive, simp)
  ultimately show ?thesis by simp
qed

theorem running_service_reached_witness:
  "\<exists>ms. mappings [] running_example = Some ms
     \<and> translate_addr (Active (example_client\<lparr>sc_addrs := address_table ms\<rparr>)) ''web.dev.svc.cluster.local:80''
         = ''localhost:8080''"
proof -
  obtain ms where ms: "mappings [] running_example = Some ms"
    using reachable_wf [OF running_example_reachable] by (simp add: mappings_def in_order_total)
  have f: "forward_at running_example ''w'' = Some (mg_heap running_example 0)" by code_simp
  have a: "list_all (\<lambda>am. am_internal am = ''web.dev.svc.cluster.local:80'' \<longrightarrow> am_service am = ''w'')
      (the (mappings [] running_example))" by code_simp
  have "''w'' \<in> set (mg_order running_example)" by code_simp
  moreover have "fw_state (mg_heap running_example 0) = StateRunning" by code_simp
  moreover have "0 < shown_port (mg_heap running_example 0)" by code_simp
  moreover have "svc_service (fw_svc (mg_heap running_example 0)) \<noteq> []" by code_simp
  moreover have "''web.dev.svc.cluster.local'' \<in> set (dns_names (svc_service (fw_svc (mg_heap running_example 0)))
      (effective_namespace running_example (fw_svc (mg_heap running_example 0))) ''cluster.local'')" by code_simp
  moreover have "''web.dev.svc.cluster.local:80''
      = ''web.dev.svc.cluster.local'' @ '':'' @ itoa (svc_remote_port (fw_svc (mg_heap running_example 0)))" by code_simp
  moreover have "''localhost:'' @ itoa (shown_port (mg_heap running_example 0)) = ''localhost:8080''" by code_simp
  ultimately show ?thesis
    using running_service_reached [OF running_example_reachable f, of "''web.dev.svc.cluster.local''"
        "''web.dev.svc.cluster.local:80''" ms "example_client\<lparr>sc_addrs := address_table ms\<rparr>"] ms a by simp
qed

lemma not_digits: "\<not> is_digit (CHR '':'')" "\<not> is_digit (CHR ''['')" "\<not> is_digit (CHR '']'')"
  by code_simp+

text \<open>The fuzzy match ignores the namespace of a service.  If a service is forwarded from one
  namespace and the name of its like in another namespace is dialled, then the connection goes to
  the forwarded one, although the table knows nothing of the other.\<close>

theorem fuzzy_crosses_namespaces:
  assumes "gget addrs (t @ '':'' @ port) = Some l"
    and "list_all (\<lambda>c. c \<notin> set [CHR ''.'', CHR '':'', CHR ''['', CHR '']'']) t"
    and "list_all (\<lambda>c. c \<notin> set [CHR ''.'', CHR '':'', CHR ''['', CHR '']'']) ns"
    and "list_all is_digit port"
    and "host = t @ ''.'' @ ns @ ''.svc.cluster.local''"
    and "gget addrs host = None" "gget addrs (host @ '':'' @ port) = None" "gget addrs (t @ ''.svc:'' @ port) = None"
  shows "resolve_addr addrs (host @ '':'' @ port) True = l
    \<and> resolve_addr addrs (host @ '':'' @ port) False = host @ '':'' @ port"
proof -
  have free: "CHR ''.'' \<notin> set t" "CHR '':'' \<notin> set t" "CHR ''['' \<notin> set t" "CHR '']'' \<notin> set t"
    "CHR ''.'' \<notin> set ns" "CHR '':'' \<notin> set ns" "CHR ''['' \<notin> set ns" "CHR '']'' \<notin> set ns"
    using assms(2,3) by (auto simp: list_all_iff)
  have p: "CHR '':'' \<notin> set port" "CHR ''['' \<notin> set port" "CHR '']'' \<notin> set port"
    using assms(4) not_digits by (auto simp: list_all_iff)
  have "CHR '':'' \<notin> set host" "CHR ''['' \<notin> set host" "CHR '']'' \<notin> set host"
    using free by (auto simp: assms(5))
  then have split: "split_host_port (host @ '':'' @ port) = Some (host, port)"
    using p join_split_host_port [of host port] by (simp add: join_host_port_def)
  have "cut host ''.'' = Some (t, ns @ ''.svc.cluster.local'')"
    using free(1) by (simp add: assms(5))
  moreover have "extract_namespace (ns @ ''.svc.cluster.local'') = ''svc''"
    using free(5) by (simp add: extract_namespace_def) (simp add: cut_def)
  ultimately have "fuzzy_match addrs host port = Some l"
    using assms(1,8) free by (simp add: fuzzy_match_def Let_def join_host_port_def)
  with split assms(6,7) show ?thesis by (simp add: resolve_addr_def)
qed

lemma digits80: "list_all is_digit ''80''"
  by code_simp

theorem fuzzy_crosses_namespaces_witness:
  "resolve_addr [(''web:80'', ''localhost:8080'')] ''web.prod.svc.cluster.local:80'' True = ''localhost:8080''"
  using fuzzy_crosses_namespaces [of "[(''web:80'', ''localhost:8080'')]" "''web''" "''80''" "''localhost:8080''" "''prod''"
      "''web.prod.svc.cluster.local''"] digits80
  by simp

text \<open>A client that asked for another cluster domain loses the fully qualified names of that
  domain at its first refresh, which asks for the default domain.\<close>

theorem refresh_forgets_domain:
  "let api = \<lparr>da_connect = (\<lambda>_. None),
              da_mappings = (\<lambda>_ d. Inr (address_table (the (mappings d running_example))))\<rparr>;
       c = (case new_client api (\<lambda>_. Inr (UnixEndpoint ''/run/k.sock''))
                   (default_options\<lparr>co_cluster_domain := ''corp''\<rparr>) of Inr c \<Rightarrow> c);
       w = join_client 1 c empty_world
   in resolve_addr (gt_addrs (sw_table w)) ''web.dev.svc.corp:80'' False = ''localhost:8080''
      \<and> resolve_addr (gt_addrs (sw_table (refresh_client api 1 w))) ''web.dev.svc.corp:80'' False
          = ''web.dev.svc.corp:80''"
  by code_simp

end
