(* ===== verification/Commands.thy ===== *)
theory Commands
  imports Cli Client
begin

text \<open>
  The commands that ask a running daemon for something or edit the configuration file: \<^verbatim>\<open>cmd_add.go\<close>,
  \<^verbatim>\<open>cmd_remove.go\<close>, \<^verbatim>\<open>cmd_apply.go\<close>, \<^verbatim>\<open>cmd_chaos.go\<close>, \<^verbatim>\<open>cmd_socks.go\<close> and \<^verbatim>\<open>config_cmd.go\<close> of \<^verbatim>\<open>internal/cli\<close>.
  A command is the request it sends, or the error it exits with; messages for the terminal are left
  out.  Arguments are what \<^const>\<open>parse_args\<close> leaves for the command.
\<close>

datatype cmd_err =
    UnknownOption string
  | OptionValue string
  | OptionMissing string
  | TargetMissing
  | TwoTargets
  | PortsConflict
  | RemotePortMissing
  | NeedsPorts
  | Usage
  | LoadServicesFailed services_err
  | NothingToApply
  | UnknownPreset string
  | UnknownSubcommand string

text \<open>The value after a flag.  A flag at the end of the arguments has none.\<close>

definition next_arg :: "string list \<Rightarrow> (string \<times> string list) option" where
  "next_arg args = (case args of [] \<Rightarrow> None | v # rest \<Rightarrow> Some (v, rest))"

subsection \<open>Adding a service\<close>

record add_flags =
  af_name :: string
  af_service :: string
  af_pod :: string
  af_namespace :: string
  af_local :: int
  af_remote :: int
  af_persist :: bool
  af_ports :: string
  af_exclude :: string
  af_offset :: int

definition no_add_flags :: add_flags where
  "no_add_flags =
     \<lparr>af_name = [], af_service = [], af_pod = [], af_namespace = [], af_local = 0, af_remote = 0,
      af_persist = False, af_ports = [], af_exclude = [], af_offset = 0\<rparr>"

definition add_value_flags :: "string list" where
  "add_value_flags =
     [''--name'', ''--service'', ''--pod'', ''--namespace'', ''-n'', ''--local-port'', ''--remote-port'', ''--ports'',
      ''--exclude-ports'', ''--local-port-offset'']"

definition port_arg :: "string \<Rightarrow> string \<Rightarrow> cmd_err + int" where
  "port_arg flag v =
     (case atoi v of
        None \<Rightarrow> Inl (OptionValue flag)
      | Some p \<Rightarrow> if p < 0 \<or> 65535 < p then Inl (OptionValue flag) else Inr p)"

definition set_add_flag :: "string \<Rightarrow> string \<Rightarrow> add_flags \<Rightarrow> cmd_err + add_flags" where
  "set_add_flag flag v f =
     (if flag = ''--name'' then Inr (f\<lparr>af_name := v\<rparr>)
      else if flag = ''--service'' then Inr (f\<lparr>af_service := v\<rparr>)
      else if flag = ''--pod'' then Inr (f\<lparr>af_pod := v\<rparr>)
      else if flag = ''--namespace'' \<or> flag = ''-n'' then Inr (f\<lparr>af_namespace := v\<rparr>)
      else if flag = ''--local-port'' then sbind (port_arg flag v) (\<lambda>p. Inr (f\<lparr>af_local := p\<rparr>))
      else if flag = ''--remote-port'' then sbind (port_arg flag v) (\<lambda>p. Inr (f\<lparr>af_remote := p\<rparr>))
      else if flag = ''--ports'' then Inr (f\<lparr>af_ports := v\<rparr>)
      else if flag = ''--exclude-ports'' then Inr (f\<lparr>af_exclude := v\<rparr>)
      else sbind (port_arg flag v) (\<lambda>p. Inr (f\<lparr>af_offset := p\<rparr>)))"

fun add_loop :: "string list \<Rightarrow> add_flags \<Rightarrow> cmd_err + add_flags" where
  "add_loop [] f = Inr f"
| "add_loop (arg # args) f =
     (if arg \<in> set add_value_flags then
        (case args of
           [] \<Rightarrow> Inr f
         | v # rest \<Rightarrow> (case set_add_flag arg v f of Inl e \<Rightarrow> Inl e | Inr f1 \<Rightarrow> add_loop rest f1))
      else if arg = ''--persist'' then add_loop args (f\<lparr>af_persist := True\<rparr>)
      else if has_prefix arg ''-'' then Inl (UnknownOption arg)
      else add_loop args f)"

definition check_add :: "add_flags \<Rightarrow> cmd_err + unit" where
  "check_add f =
     (if af_name f = [] then Inl (OptionMissing ''--name'')
      else if af_service f = [] \<and> af_pod f = [] then Inl TargetMissing
      else if af_service f \<noteq> [] \<and> af_pod f \<noteq> [] then Inl TwoTargets
      else if af_ports f \<noteq> [] then
        (if af_remote f \<noteq> 0 \<or> af_local f \<noteq> 0 then Inl PortsConflict else Inr ())
      else if af_remote f = 0 then Inl RemotePortMissing
      else if af_local f < 0 \<or> 65535 < af_local f then Inl (OptionValue ''--local-port'')
      else if af_remote f < 0 \<or> 65535 < af_remote f then Inl (OptionValue ''--remote-port'')
      else if af_exclude f \<noteq> [] \<or> af_offset f \<noteq> 0 then Inl NeedsPorts
      else Inr ())"

definition add_request_of :: "add_flags \<Rightarrow> add_request" where
  "add_request_of f =
     \<lparr>ar_service = Some
        \<lparr>si_name = af_name f, si_service = af_service f, si_pod = af_pod f, si_local_port = wrap32 (af_local f),
         si_remote_port = wrap32 (af_remote f), si_namespace = af_namespace f, si_parent_name = [],
         si_port_name = []\<rparr>,
      ar_persist = af_persist f,
      ar_ports =
        (if af_ports f = [] then None
         else Some \<lparr>ps_all = (af_ports f = ''all''),
                    ps_port_names = (if af_ports f = ''all'' then [] else split_char (CHR '','') (af_ports f)),
                    ps_exclude_ports = (if af_exclude f = [] then [] else split_char (CHR '','') (af_exclude f)),
                    ps_local_port_offset = wrap32 (af_offset f)\<rparr>),
      ar_source_config = []\<rparr>"

definition cmd_add :: "string list \<Rightarrow> cmd_err + request" where
  "cmd_add args =
     sbind (add_loop args no_add_flags) (\<lambda>f. sbind (check_add f) (\<lambda>_. Inr (AddRequest (add_request_of f))))"

subsection \<open>Removing and applying\<close>

fun remove_loop :: "string list \<Rightarrow> string \<Rightarrow> bool \<Rightarrow> cmd_err + string \<times> bool" where
  "remove_loop [] name persist = Inr (name, persist)"
| "remove_loop (arg # args) name persist =
     (if arg = ''--persist'' then remove_loop args name True
      else if has_prefix arg ''-'' then Inl (UnknownOption arg)
      else remove_loop args (if name = [] then arg else name) persist)"

definition cmd_remove :: "string list \<Rightarrow> cmd_err + request" where
  "cmd_remove args =
     sbind (remove_loop args [] False) (\<lambda>(name, persist).
       if name = [] then Inl Usage else Inr (RemoveRequest name persist))"

fun apply_loop :: "string list \<Rightarrow> string \<Rightarrow> bool \<Rightarrow> cmd_err + string \<times> bool" where
  "apply_loop [] path merge = Inr (path, merge)"
| "apply_loop (arg # args) path merge =
     (if arg = ''--file'' \<or> arg = ''-f'' then
        (case args of [] \<Rightarrow> Inl (OptionValue arg) | v # rest \<Rightarrow> apply_loop rest v merge)
      else if arg = ''--merge'' then apply_loop args path True
      else if has_prefix arg ''--file='' then apply_loop args (trim_prefix arg ''--file='') merge
      else if has_prefix arg ''-f='' then apply_loop args (trim_prefix arg ''-f='') merge
      else if has_prefix arg ''-'' then Inl (UnknownOption arg)
      else apply_loop args path merge)"

definition applied_info :: "service_config \<Rightarrow> service_info" where
  "applied_info svc =
     \<lparr>si_name = svc_name svc, si_service = svc_service svc, si_pod = svc_pod svc,
      si_local_port = wrap32 (svc_local_port svc), si_remote_port = wrap32 (svc_remote_port svc),
      si_namespace = svc_namespace svc, si_parent_name = [], si_port_name = []\<rparr>"

text \<open>The request carries \<^verbatim>\<open>--merge\<close>, which the server does not read.\<close>

definition cmd_apply :: "os_env \<Rightarrow> codecs \<Rightarrow> string list \<Rightarrow> cmd_err + request" where
  "cmd_apply env cd args =
     sbind (apply_loop args [] False) (\<lambda>(path, merge).
       if path = [] then Inl (OptionMissing ''--file'')
       else sbind (wrap_err LoadServicesFailed (load_services env cd path)) (\<lambda>svcs.
         if svcs = [] then Inl NothingToApply else Inr (ApplyRequest (map applied_info svcs))))"

subsection \<open>Chaos\<close>

record chaos_flags =
  cf_services :: "string list"
  cf_error_rate :: f64
  cf_spike_prob :: f64
  cf_latency :: string
  cf_all :: bool

definition no_chaos_flags :: chaos_flags where
  "no_chaos_flags = \<lparr>cf_services = [], cf_error_rate = f_zero, cf_spike_prob = f_zero, cf_latency = [], cf_all = False\<rparr>"

text \<open>The long flags with their short forms; \<open>scan\<close> is \<^verbatim>\<open>fmt.Sscanf\<close> with \<^verbatim>\<open>%f\<close>, \<open>None\<close> for an error.\<close>

definition chaos_value_flags :: "(string \<times> string) list" where
  "chaos_value_flags = [(''--error-rate'', ''-e''), (''--latency'', ''-l''), (''--spike-prob'', ''-p'')]"

definition set_chaos_flag :: "(string \<Rightarrow> f64 option) \<Rightarrow> string \<Rightarrow> string \<Rightarrow> chaos_flags \<Rightarrow> cmd_err + chaos_flags" where
  "set_chaos_flag scan flag v f =
     (if flag = ''--latency'' then Inr (f\<lparr>cf_latency := v\<rparr>)
      else (case scan v of
              None \<Rightarrow> Inl (OptionValue flag)
            | Some x \<Rightarrow> Inr (if flag = ''--error-rate'' then f\<lparr>cf_error_rate := x\<rparr> else f\<lparr>cf_spike_prob := x\<rparr>)))"

fun chaos_loop :: "(string \<Rightarrow> f64 option) \<Rightarrow> string list \<Rightarrow> chaos_flags \<Rightarrow> cmd_err + chaos_flags" where
  "chaos_loop scan [] f = Inr f"
| "chaos_loop scan (arg # args) f =
     (case List.find (\<lambda>(long, short). arg = long \<or> arg = short) chaos_value_flags of
        Some (long, _) \<Rightarrow>
          (case args of
             [] \<Rightarrow> Inl (OptionValue arg)
           | v # rest \<Rightarrow> (case set_chaos_flag scan long v f of Inl e \<Rightarrow> Inl e | Inr f1 \<Rightarrow> chaos_loop scan rest f1))
      | None \<Rightarrow>
          (case List.find (\<lambda>(long, _). has_prefix arg (long @ ''='')) chaos_value_flags of
             Some (long, _) \<Rightarrow>
               (case set_chaos_flag scan long (drop (length long + 1) arg) f of
                  Inl e \<Rightarrow> Inl e
                | Inr f1 \<Rightarrow> chaos_loop scan args f1)
           | None \<Rightarrow>
               if arg = ''--all'' then chaos_loop scan args (f\<lparr>cf_all := True\<rparr>)
               else if \<not> has_prefix arg ''-'' then chaos_loop scan args (f\<lparr>cf_services := cf_services f @ [arg]\<rparr>)
               else Inl (UnknownOption arg)))"

definition plain_chaos_request :: "string list \<Rightarrow> chaos_request" where
  "plain_chaos_request services =
     \<lparr>cr_services = services, cr_preset = PresetUnspecified, cr_enabled = False, cr_error_rate = f_zero,
      cr_spike_probability = f_zero, cr_spike_ms = 0, cr_reset = False\<rparr>"

definition chaos_set :: "(string \<Rightarrow> f64 option) \<Rightarrow> string list \<Rightarrow> cmd_err + chaos_request" where
  "chaos_set scan args =
     sbind (chaos_loop scan args no_chaos_flags) (\<lambda>f.
       if \<not> cf_all f \<and> cf_services f = [] then Inl TargetMissing
       else (let req = (plain_chaos_request (if cf_all f then [] else cf_services f))
                         \<lparr>cr_enabled := True, cr_error_rate := cf_error_rate f, cr_spike_probability := cf_spike_prob f\<rparr>
             in if cf_latency f = [] then Inr req
                else (case parse_duration (cf_latency f) of
                        None \<Rightarrow> Inl (OptionValue ''--latency'')
                      | Some d \<Rightarrow>
                          Inr (req\<lparr>cr_spike_ms := milliseconds d,
                                   cr_spike_probability :=
                                     (if cf_spike_prob f = f_zero then Fin 1 else cf_spike_prob f)\<rparr>))))"

text \<open>Unknown flags are passed over here.\<close>

definition chaos_targets :: "string list \<Rightarrow> string list \<times> bool" where
  "chaos_targets args =
     (filter (\<lambda>a. a \<noteq> ''--all'' \<and> \<not> has_prefix a ''-'') args, ''--all'' \<in> set args)"

definition chaos_enable :: "bool \<Rightarrow> string list \<Rightarrow> cmd_err + chaos_request" where
  "chaos_enable on args =
     (case chaos_targets args of
        (services, all) \<Rightarrow>
          if \<not> all \<and> services = [] then Inl TargetMissing
          else Inr ((plain_chaos_request (if all then [] else services))\<lparr>cr_enabled := on\<rparr>))"

definition preset_names :: "(string \<times> chaos_preset) list" where
  "preset_names =
     [(''slow-network'', PresetSlowNetwork), (''unstable-cluster'', PresetUnstableCluster),
      (''packet-loss'', PresetPacketLoss)]"

definition chaos_preset_cmd :: "string list \<Rightarrow> cmd_err + chaos_request" where
  "chaos_preset_cmd args =
     (case args of
        [] \<Rightarrow> Inl Usage
      | name # rest \<Rightarrow>
          (case chaos_targets rest of
             (services, all) \<Rightarrow>
               (case map_of preset_names name of
                  None \<Rightarrow> Inl (UnknownPreset name)
                | Some p \<Rightarrow> Inr ((plain_chaos_request (if all then [] else services))\<lparr>cr_preset := p\<rparr>))))"

definition chaos_reset_cmd :: "string list \<Rightarrow> cmd_err + chaos_request" where
  "chaos_reset_cmd args =
     (case chaos_targets args of
        (services, all) \<Rightarrow> Inr ((plain_chaos_request (if all then [] else services))\<lparr>cr_reset := True\<rparr>))"

text \<open>\<open>None\<close> is the help text.\<close>

definition cmd_chaos :: "(string \<Rightarrow> f64 option) \<Rightarrow> string list \<Rightarrow> cmd_err + request option" where
  "cmd_chaos scan args =
     (let send = (\<lambda>r. sbind r (\<lambda>req. Inr (Some (ChaosRequest req))))
      in case args of
           [] \<Rightarrow> Inr None
         | sub # rest \<Rightarrow>
             if sub = ''set'' then send (chaos_set scan rest)
             else if sub = ''enable'' then send (chaos_enable True rest)
             else if sub = ''disable'' then send (chaos_enable False rest)
             else if sub = ''preset'' then send (chaos_preset_cmd rest)
             else if sub = ''reset'' then send (chaos_reset_cmd rest)
             else if sub \<in> {''help'', ''--help'', ''-h''} then Inr None
             else Inl (UnknownSubcommand sub))"

subsection \<open>The proxy commands\<close>

record proxy_flags =
  pf_listen :: string
  pf_domain :: string
  pf_username :: string
  pf_password :: string

definition proxy_value_flags :: "string list" where
  "proxy_value_flags =
     [''--listen'', ''-l'', ''--cluster-domain'', ''--username'', ''-u'', ''--password'', ''-p'']"

definition set_proxy_flag :: "string \<Rightarrow> string \<Rightarrow> proxy_flags \<Rightarrow> proxy_flags" where
  "set_proxy_flag flag v f =
     (if flag = ''--listen'' \<or> flag = ''-l'' then f\<lparr>pf_listen := v\<rparr>
      else if flag = ''--cluster-domain'' then f\<lparr>pf_domain := v\<rparr>
      else if flag = ''--username'' \<or> flag = ''-u'' then f\<lparr>pf_username := v\<rparr>
      else f\<lparr>pf_password := v\<rparr>)"

fun parse_proxy_flags :: "string list \<Rightarrow> proxy_flags \<Rightarrow> cmd_err + proxy_flags" where
  "parse_proxy_flags [] f = Inr f"
| "parse_proxy_flags (arg # args) f =
     (if arg \<in> set proxy_value_flags then
        (case args of [] \<Rightarrow> Inr f | v # rest \<Rightarrow> parse_proxy_flags rest (set_proxy_flag arg v f))
      else if arg \<noteq> [] \<and> hd arg = CHR ''-'' then Inl (UnknownOption arg)
      else parse_proxy_flags args f)"

definition apply_config_defaults :: "proxy_server_config \<Rightarrow> proxy_flags \<Rightarrow> proxy_flags" where
  "apply_config_defaults px f =
     f\<lparr>pf_listen := or_string (pf_listen f) (px_listen px),
       pf_username := or_string (pf_username f) (px_username px),
       pf_password := or_string (pf_password f) (px_password px)\<rparr>"

text \<open>The options of the client behind a proxy server.\<close>

definition connect_options ::
    "os_env \<Rightarrow> (string \<Rightarrow> string) \<Rightarrow> app \<Rightarrow> proxy_server_config \<Rightarrow> proxy_flags \<Rightarrow> client_option list" where
  "connect_options env sha256 a px f =
     (case px_fuzzy_match px of None \<Rightarrow> [] | Some b \<Rightarrow> [WithFuzzyMatch b]) @
     (if pf_domain f \<noteq> [] then [WithClusterDomain (pf_domain f)] else []) @
     (case ap_cfg a of
        None \<Rightarrow> []
      | Some cfg \<Rightarrow>
          (let lc = listen_address env sha256 cfg
           in case lc_mode lc of
                ListenTCP \<Rightarrow> [WithTCP (lc_address lc) (cfg_api_key cfg)]
              | ListenUnix \<Rightarrow> [WithSocketPath (socket_file env sha256 cfg)]))"

text \<open>What \<^verbatim>\<open>cmdSocks\<close> and \<^verbatim>\<open>cmdHTTPProxy\<close> listen on and with which credentials; \<open>fallback\<close> is
  \<^verbatim>\<open>127.0.0.1:1080\<close> or \<^verbatim>\<open>127.0.0.1:3128\<close>.\<close>

definition proxy_setup :: "string \<Rightarrow> proxy_server_config \<Rightarrow> string list \<Rightarrow> cmd_err + proxy_flags" where
  "proxy_setup fallback px args =
     sbind (parse_proxy_flags args \<lparr>pf_listen = [], pf_domain = [], pf_username = [], pf_password = []\<rparr>) (\<lambda>f0.
       let f = apply_config_defaults px f0
       in Inr (if pf_listen f = [] then f\<lparr>pf_listen := fallback\<rparr> else f))"

definition cmd_socks ::
    "os_env \<Rightarrow> (string \<Rightarrow> string) \<Rightarrow> app \<Rightarrow> string list \<Rightarrow> cmd_err + proxy_flags \<times> client_option list" where
  "cmd_socks env sha256 a args =
     (let px = (case ap_cfg a of None \<Rightarrow> zero_proxy | Some cfg \<Rightarrow> cfg_socks cfg)
      in sbind (proxy_setup ''127.0.0.1:1080'' px args) (\<lambda>f. Inr (f, connect_options env sha256 a px f)))"

definition cmd_http_proxy ::
    "os_env \<Rightarrow> (string \<Rightarrow> string) \<Rightarrow> app \<Rightarrow> string list \<Rightarrow> cmd_err + proxy_flags \<times> client_option list" where
  "cmd_http_proxy env sha256 a args =
     (let px = (case ap_cfg a of None \<Rightarrow> zero_proxy | Some cfg \<Rightarrow> cfg_http_proxy cfg)
      in sbind (proxy_setup ''127.0.0.1:3128'' px args) (\<lambda>f. Inr (f, connect_options env sha256 a px f)))"

subsection \<open>Editing the configuration file\<close>

datatype config_err =
    BadOption cmd_err
  | UnsupportedFormat string
  | NoConfigFile
  | EditLoad load_err
  | UnknownKey string
  | EditRefused edit_err
  | SaveFailed save_err
  | NotValid cfg_err

definition resolve_config_path :: "os_env \<Rightarrow> app \<Rightarrow> string option" where
  "resolve_config_path env a = (if ap_config_file a \<noteq> [] then Some (ap_config_file a) else discover env)"

fun init_loop :: "string list \<Rightarrow> format \<Rightarrow> string \<Rightarrow> config_err + format \<times> string" where
  "init_loop [] fmt out = Inr (fmt, out)"
| "init_loop (arg # args) fmt out =
     (if arg = ''--format'' then
        (case args of
           [] \<Rightarrow> Inl (BadOption (OptionValue arg))
         | v # rest \<Rightarrow>
             if to_lower v \<in> {''yaml'', ''yml''} then init_loop rest FormatYAML out
             else if to_lower v = ''toml'' then init_loop rest FormatTOML out
             else Inl (UnsupportedFormat v))
      else if arg = ''-o'' \<or> arg = ''--output'' then
        (case args of [] \<Rightarrow> Inl (BadOption (OptionValue arg)) | v # rest \<Rightarrow> init_loop rest fmt v)
      else init_loop args fmt out)"

definition config_init :: "encoders \<Rightarrow> string \<Rightarrow> string list \<Rightarrow> os_env \<Rightarrow> (config_err + config) \<times> os_env" where
  "config_init en uuid args env =
     (case init_loop args FormatYAML [] of
        Inl e \<Rightarrow> (Inl e, env)
      | Inr (fmt, out) \<Rightarrow>
          (let path = (if out \<noteq> [] then out else if fmt = FormatTOML then ''kubeport.toml'' else ''kubeport.yaml'')
           in case init_config env en uuid (path_abs (os_cwd env) path) fmt of
                (Inl e, env1) \<Rightarrow> (Inl (SaveFailed e), env1)
              | (Inr c, env1) \<Rightarrow> (Inr c, env1)))"

text \<open>Loading for an edit, the edit, and saving; an error before the write leaves the file as it is.\<close>

definition edit_config ::
    "codecs \<Rightarrow> encoders \<Rightarrow> string \<Rightarrow> app \<Rightarrow> (config \<Rightarrow> config_err + config) \<Rightarrow> os_env \<Rightarrow> config_err option \<times> os_env" where
  "edit_config cd en uuid a edit env =
     (case resolve_config_path env a of
        None \<Rightarrow> (Some NoConfigFile, env)
      | Some path \<Rightarrow>
          (case load_for_edit env cd path of
             Inl e \<Rightarrow> (Some (EditLoad e), env)
           | Inr c \<Rightarrow>
               (case edit c of
                  Inl e \<Rightarrow> (Some e, env)
                | Inr c1 \<Rightarrow>
                    (case save env en uuid c1 of
                       (Some e, _, env1) \<Rightarrow> (Some (SaveFailed e), env1)
                     | (None, _, env1) \<Rightarrow> (None, env1)))))"

definition set_key :: "string \<Rightarrow> string \<Rightarrow> config \<Rightarrow> config_err + config" where
  "set_key key v c =
     (if key = ''context'' then Inr (c\<lparr>cfg_context := v\<rparr>)
      else if key = ''namespace'' then Inr (c\<lparr>cfg_namespace := v\<rparr>)
      else Inl (UnknownKey key))"

definition config_set :: "codecs \<Rightarrow> encoders \<Rightarrow> string \<Rightarrow> app \<Rightarrow> string list \<Rightarrow> os_env \<Rightarrow> config_err option \<times> os_env" where
  "config_set cd en uuid a args env =
     (case args of
        key # v # _ \<Rightarrow> edit_config cd en uuid a (set_key key v) env
      | _ \<Rightarrow> (Some (BadOption Usage), env))"

text \<open>\<^verbatim>\<open>config add\<close> bounds no port, and unlike \<^verbatim>\<open>kubeport add\<close> insists on a value for every flag.\<close>

definition config_add_flags :: "string list" where
  "config_add_flags = [''--name'', ''--service'', ''--pod'', ''--local-port'', ''--remote-port'', ''--namespace'']"

definition set_config_add :: "string \<Rightarrow> string \<Rightarrow> service_config \<Rightarrow> cmd_err + service_config" where
  "set_config_add flag v s =
     (if flag = ''--name'' then Inr (s\<lparr>svc_name := v\<rparr>)
      else if flag = ''--service'' then Inr (s\<lparr>svc_service := v\<rparr>)
      else if flag = ''--pod'' then Inr (s\<lparr>svc_pod := v\<rparr>)
      else if flag = ''--namespace'' then Inr (s\<lparr>svc_namespace := v\<rparr>)
      else (case atoi v of
              None \<Rightarrow> Inl (OptionValue flag)
            | Some p \<Rightarrow> Inr (if flag = ''--local-port'' then s\<lparr>svc_local_port := p\<rparr> else s\<lparr>svc_remote_port := p\<rparr>)))"

fun config_add_loop :: "string list \<Rightarrow> service_config \<Rightarrow> cmd_err + service_config" where
  "config_add_loop [] s = Inr s"
| "config_add_loop (arg # args) s =
     (if arg \<in> set config_add_flags then
        (case args of
           [] \<Rightarrow> Inl (OptionValue arg)
         | v # rest \<Rightarrow> (case set_config_add arg v s of Inl e \<Rightarrow> Inl e | Inr s1 \<Rightarrow> config_add_loop rest s1))
      else Inl (UnknownOption arg))"

definition check_config_add :: "service_config \<Rightarrow> cmd_err + unit" where
  "check_config_add s =
     (if svc_name s = [] then Inl (OptionMissing ''--name'')
      else if svc_service s = [] \<and> svc_pod s = [] then Inl TargetMissing
      else if svc_service s \<noteq> [] \<and> svc_pod s \<noteq> [] then Inl TwoTargets
      else if svc_remote_port s = 0 then Inl RemotePortMissing
      else Inr ())"

definition config_add :: "codecs \<Rightarrow> encoders \<Rightarrow> string \<Rightarrow> app \<Rightarrow> string list \<Rightarrow> os_env \<Rightarrow> config_err option \<times> os_env" where
  "config_add cd en uuid a args env =
     (case sbind (config_add_loop args zero_service) (\<lambda>s. sbind (check_config_add s) (\<lambda>_. Inr s)) of
        Inl e \<Rightarrow> (Some (BadOption e), env)
      | Inr s \<Rightarrow> edit_config cd en uuid a (\<lambda>c. wrap_err EditRefused (add_service s c)) env)"

definition config_remove :: "codecs \<Rightarrow> encoders \<Rightarrow> string \<Rightarrow> app \<Rightarrow> string list \<Rightarrow> os_env \<Rightarrow> config_err option \<times> os_env" where
  "config_remove cd en uuid a args env =
     (case args of
        [] \<Rightarrow> (Some (BadOption Usage), env)
      | name # _ \<Rightarrow> edit_config cd en uuid a (\<lambda>c. wrap_err EditRefused (remove_service name c)) env)"

text \<open>The number of services and of hooks of a valid configuration.\<close>

definition config_validate :: "os_env \<Rightarrow> codecs \<Rightarrow> app \<Rightarrow> config_err + nat \<times> nat" where
  "config_validate env cd a =
     (case resolve_config_path env a of
        None \<Rightarrow> Inl NoConfigFile
      | Some path \<Rightarrow>
          sbind (wrap_err EditLoad (load_config env cd path)) (\<lambda>cfg.
          sbind (wrap_err NotValid (validate_config cfg)) (\<lambda>_.
            Inr (length (cfg_services cfg), length (cfg_hooks cfg)))))"

text \<open>The subcommand, the text it prints aside: \<open>None\<close> for those that only print.\<close>

datatype config_command =
    ConfigInit "string list" | ConfigShow | ConfigValidate | ConfigSet "string list" | ConfigAdd "string list"
  | ConfigRemove "string list" | ConfigPath | ConfigHelp

definition config_command_of :: "string list \<Rightarrow> cmd_err + config_command" where
  "config_command_of args =
     (case args of
        [] \<Rightarrow> Inr ConfigHelp
      | sub # rest \<Rightarrow>
          if sub = ''init'' then Inr (ConfigInit rest)
          else if sub = ''show'' then Inr ConfigShow
          else if sub = ''validate'' then Inr ConfigValidate
          else if sub = ''set'' then Inr (ConfigSet rest)
          else if sub = ''add'' then Inr (ConfigAdd rest)
          else if sub = ''remove'' then Inr (ConfigRemove rest)
          else if sub = ''path'' then Inr ConfigPath
          else if sub = ''help'' then Inr ConfigHelp
          else Inl (UnknownSubcommand sub))"

subsection \<open>The namespace flag\<close>

lemma parse_loop_rest:
  "parse_loop args a cmd rest = Inr (a1, cmd1, rest1) \<Longrightarrow> set rest \<inter> set value_flags = {} \<Longrightarrow> set rest1 \<inter> set value_flags = {}"
  by (induction args a cmd rest rule: parse_loop.induct)
    (auto split: if_splits list.splits sum.splits option.splits)

lemma add_loop_namespace:
  "add_loop args f = Inr f1 \<Longrightarrow> ''--namespace'' \<notin> set args \<Longrightarrow> ''-n'' \<notin> set args \<Longrightarrow> af_namespace f1 = af_namespace f"
proof (induction args f rule: add_loop.induct)
  case (2 arg args f)
  have "af_namespace f2 = af_namespace f" if "set_add_flag arg v f = Inr f2" for v f2
    using that 2(5,6) by (auto simp: set_add_flag_def result_simps split: if_splits)
  then show ?case using 2 by (auto split: if_splits list.splits sum.splits)
qed simp

lemma config_add_namespace:
  "config_add_loop args s = Inr s1 \<Longrightarrow> ''--namespace'' \<notin> set args \<Longrightarrow> svc_namespace s1 = svc_namespace s"
proof (induction args s rule: config_add_loop.induct)
  case (2 arg args s)
  have "svc_namespace s2 = svc_namespace s" if "set_config_add arg v s = Inr s2" for v s2
    using that 2(3) by (auto simp: set_config_add_def split: if_splits option.splits)
  then show ?case using 2 by (auto split: if_splits list.splits sum.splits)
qed simp

text \<open>The namespace flag of \<^verbatim>\<open>kubeport add\<close> and of \<^verbatim>\<open>kubeport config add\<close> never has an effect.  The
  global flags take it first, so whatever the command line, the service that is asked for, or
  written to the file, has no namespace of its own.\<close>

theorem namespace_flag_lost:
  assumes "parse_args args = Inr (a, cmd, rest)"
  shows "(\<forall>req. cmd_add rest = Inr (AddRequest req) \<longrightarrow> (\<exists>si. ar_service req = Some si \<and> si_namespace si = []))
    \<and> (\<forall>opts s. config_command_of rest = Inr (ConfigAdd opts) \<longrightarrow> config_add_loop opts zero_service = Inr s \<longrightarrow>
         svc_namespace s = [])"
proof (intro conjI)
  have "set rest \<inter> set value_flags = {}"
    using parse_loop_rest assms by (fastforce simp: parse_args_def)
  then have n: "''--namespace'' \<notin> set rest" "''-n'' \<notin> set rest" by (auto simp: value_flags_def inline_flags_def)
  show "\<forall>req. cmd_add rest = Inr (AddRequest req) \<longrightarrow> (\<exists>si. ar_service req = Some si \<and> si_namespace si = [])"
    using add_loop_namespace [OF _ n] by (auto simp: cmd_add_def add_request_of_def no_add_flags_def result_simps)
  have "set opts \<subseteq> set rest" if "config_command_of rest = Inr (ConfigAdd opts)" for opts
    using that by (auto simp: config_command_of_def split: list.splits if_splits)
  then show "\<forall>opts s. config_command_of rest = Inr (ConfigAdd opts) \<longrightarrow> config_add_loop opts zero_service = Inr s \<longrightarrow>
      svc_namespace s = []"
    using config_add_namespace n(1) by (fastforce simp: zero_service_def)
qed

theorem namespace_flag_lost_witness:
  "\<exists>a rest req si. parse_args [''add'', ''--name'', ''db'', ''--service'', ''pg'', ''--remote-port'', ''5432'', ''--namespace'', ''prod''] =
       Inr (a, ''add'', rest)
     \<and> cmd_add rest = Inr (AddRequest req) \<and> ar_service req = Some si \<and> si_name si = ''db'' \<and> si_namespace si = []"
proof -
  let ?rest = "[''--name'', ''db'', ''--service'', ''pg'', ''--remote-port'', ''5432'']"
  have p: "parse_args [''add'', ''--name'', ''db'', ''--service'', ''pg'', ''--remote-port'', ''5432'', ''--namespace'', ''prod''] =
      Inr (new_app\<lparr>ap_namespace := ''prod''\<rparr>, ''add'', ?rest)"
    by (simp add: parse_args_def value_flags_def inline_flags_def inline_flag_def switch_flags_def set_flag_def)
  have "atoi ''5432'' = Some 5432" by code_simp
  then have c: "cmd_add ?rest = Inr (AddRequest (add_request_of
      (no_add_flags\<lparr>af_name := ''db'', af_service := ''pg'', af_remote := 5432\<rparr>)))"
    by (simp add: cmd_add_def add_value_flags_def set_add_flag_def port_arg_def check_add_def no_add_flags_def)
  from namespace_flag_lost [OF p] p c show ?thesis by (auto simp: add_request_of_def no_add_flags_def)
qed

subsection \<open>Enabling chaos\<close>

lemma enable_request:
  "cmd_chaos scan (''enable'' # args) = Inr (Some req) \<Longrightarrow>
     req = ChaosRequest ((plain_chaos_request (if snd (chaos_targets args) then [] else fst (chaos_targets args)))\<lparr>cr_enabled := True\<rparr>)"
  by (auto simp: cmd_chaos_def chaos_enable_def Let_def result_simps split: prod.splits if_splits)

lemma enable_params: "chaos_params ((plain_chaos_request services)\<lparr>cr_enabled := True\<rparr>) = Inr (zero_parsed_chaos\<lparr>pch_enabled := True\<rparr>)"
  by (simp add: chaos_params_def plain_chaos_request_def zero_parsed_chaos_def wrap64_id)

lemma serve_enable:
  "\<exists>r. rpc_chaos (manager_ops is_open ord ord1) ((plain_chaos_request services)\<lparr>cr_enabled := True\<rparr>) s =
     (Inr r, s\<lparr>sv_mgr := snd (update_chaos services (zero_parsed_chaos\<lparr>pch_enabled := True\<rparr>) (sv_mgr s))\<rparr>)"
proof -
  have f: "cr_reset ((plain_chaos_request services)\<lparr>cr_enabled := True\<rparr>) = False"
    "cr_services ((plain_chaos_request services)\<lparr>cr_enabled := True\<rparr>) = services"
    by (simp_all add: plain_chaos_request_def)
  show ?thesis unfolding rpc_chaos_def enable_params f by (auto simp: manager_ops_def split: prod.splits)
qed

text \<open>Enabling chaos turns it off.  The command sends zero parameters, which replace those a
  service was configured with, so that every service it names stops injecting faults.\<close>

theorem chaos_enable_disables:
  assumes "reachable cfg (sv_mgr s)" and "gget (mg_forwards (sv_mgr s)) n = Some i"
    and "cmd_chaos scan (''enable'' # args) = Inr (Some req)"
    and "n \<in> set (fst (chaos_targets args)) \<or> snd (chaos_targets args)"
  shows "\<exists>r s' pf. serve (manager_ops is_open ord ord1) re req s = Some (Inr r, s')
    \<and> forward_at (sv_mgr s') n = Some pf \<and> \<not> parsed_chaos_enabled (live_chaos pf)"
proof -
  let ?services = "if snd (chaos_targets args) then [] else fst (chaos_targets args)"
  let ?c = "zero_parsed_chaos\<lparr>pch_enabled := True\<rparr>"
  have "?services = [] \<or> n \<in> set ?services" using assms(4) by auto
  then have "forward_at (snd (update_chaos ?services ?c (sv_mgr s))) n =
      Some ((mg_heap (sv_mgr s) i)\<lparr>fw_chaos_override := Some ?c, fw_has_override := True\<rparr>)"
    using chaos_updates_targets [OF assms(1,2), of ?services ?c] by (simp only: if_True)
  moreover have "\<not> parsed_chaos_enabled ?c" by (simp add: parsed_chaos_enabled_def zero_parsed_chaos_def)
  moreover obtain r where "serve (manager_ops is_open ord ord1) re req s =
      Some (Inr r, s\<lparr>sv_mgr := snd (update_chaos ?services ?c (sv_mgr s))\<rparr>)"
    using serve_enable [of is_open ord ord1 ?services s] enable_request [OF assms(3)] by auto
  ultimately show ?thesis by (auto simp: live_chaos_def)
qed

theorem chaos_enable_disables_witness:
  "\<exists>r s' pf. serve (manager_ops (\<lambda>_. True) (\<lambda>_ ks. ks) (\<lambda>ks. ks)) example_env
       (ChaosRequest ((plain_chaos_request [''a''])\<lparr>cr_enabled := True\<rparr>)) example_server = Some (Inr r, s')
     \<and> forward_at (sv_mgr s') ''a'' = Some pf \<and> \<not> parsed_chaos_enabled (live_chaos pf)"
proof -
  have "gget (mg_forwards (sv_mgr example_server)) ''a'' = Some 0" by code_simp
  moreover have "cmd_chaos (\<lambda>_. None) [''enable'', ''a''] =
      Inr (Some (ChaosRequest ((plain_chaos_request [''a''])\<lparr>cr_enabled := True\<rparr>)))"
    by (simp add: cmd_chaos_def chaos_enable_def chaos_targets_def)
  moreover have "''a'' \<in> set (fst (chaos_targets [''a'']))" by (simp add: chaos_targets_def)
  ultimately show ?thesis using chaos_enable_disables [OF example_server_reachable] by blast
qed

end
