(* ===== verification/Lifecycle.thy ===== *)
theory Lifecycle
  imports Commands External ManagerOps
begin

text \<open>
  Starting, stopping and reloading daemons (\<^verbatim>\<open>cmd_start.go\<close>, \<^verbatim>\<open>cmd_proxy.go\<close>, \<^verbatim>\<open>cmd_stop.go\<close> of
  \<^verbatim>\<open>internal/cli\<close>): the decisions of the start command, waiting for readiness, offloading and
  delegating services to a running instance, the start-up of the daemon itself and its reload.
  Processes are outcomes: whether a process id answers, what the statuses of the daemon were at
  each poll, which instances could be reached.
\<close>

subsection \<open>Readiness\<close>

definition state_ready :: "proto_state \<Rightarrow> bool" where
  "state_ready st = (st = ProtoRunning \<or> st = ProtoWaiting \<or> st = ProtoExternal)"

definition forwards_ready :: "status_msg list \<Rightarrow> bool" where
  "forwards_ready fws = (fws \<noteq> [] \<and> list_all (\<lambda>fw. state_ready (sm_state fw)) fws)"

text \<open>\<^verbatim>\<open>allForwardsReady\<close>; \<open>answer\<close> is the daemon's status, if there is a daemon and it answers.\<close>

definition all_forwards_ready :: "status_msg list option \<Rightarrow> bool" where
  "all_forwards_ready ans = (case ans of None \<Rightarrow> False | Some fws \<Rightarrow> forwards_ready fws)"

text \<open>One tick of \<^verbatim>\<open>waitForReady\<close>: the daemon cannot be dialled, its process being alive or not; the
  status call fails; or it answers.\<close>

datatype poll = Undialled bool | StatusFailed | Answered "status_msg list"

datatype wait_end = Ready nat | DaemonDied | WaitTimeout int

definition wait_timeout :: "app \<Rightarrow> int" where
  "wait_timeout a = (if ap_timeout a = 0 then 30 * sec else ap_timeout a)"

text \<open>The ticks are those that came before the deadline.\<close>

fun wait_loop :: "int \<Rightarrow> poll list \<Rightarrow> wait_end" where
  "wait_loop timeout [] = WaitTimeout timeout"
| "wait_loop timeout (p # ps) =
     (case p of
        Undialled alive \<Rightarrow> if alive then wait_loop timeout ps else DaemonDied
      | StatusFailed \<Rightarrow> wait_loop timeout ps
      | Answered fws \<Rightarrow> if forwards_ready fws then Ready (length fws) else wait_loop timeout ps)"

text \<open>A tick every half second.\<close>

definition wait_for_ready :: "app \<Rightarrow> (nat \<Rightarrow> poll) \<Rightarrow> wait_end" where
  "wait_for_ready a polls =
     wait_loop (wait_timeout a) (map polls [0..<nat (wait_timeout a div (500 * millisec))])"

subsection \<open>The start command\<close>

datatype start_action =
    NoValidConfig
  | Offloads
  | Delegates
  | AlreadyReady int
  | WaitsFor int
  | AlreadyRunning int
  | OtherInstance entry
  | Launches

text \<open>\<open>running\<close> is the result of \<^verbatim>\<open>isRunning\<close>, \<open>status\<close> what the daemon answers, \<open>existing\<close> the instance
  the registry lists for the file, if the registry can be read.\<close>

definition cmd_start_normal :: "app \<Rightarrow> int option \<Rightarrow> status_msg list option \<Rightarrow> start_action" where
  "cmd_start_normal a running ans =
     (case running of
        None \<Rightarrow> Launches
      | Some pid \<Rightarrow>
          if ap_wait a then (if all_forwards_ready ans then AlreadyReady pid else WaitsFor pid)
          else AlreadyRunning pid)"

definition cmd_start :: "app \<Rightarrow> int option \<Rightarrow> status_msg list option \<Rightarrow> entry option \<Rightarrow> start_action" where
  "cmd_start a running ans existing =
     (case ap_cfg a of
        None \<Rightarrow> NoValidConfig
      | Some cfg \<Rightarrow>
          if ap_offload a then Offloads
          else if ap_delegate a then Delegates
          else if running \<noteq> None then cmd_start_normal a running ans
          else (case existing of
                  Some e \<Rightarrow> if cfg_file_path cfg \<noteq> [] then OtherInstance e else Launches
                | None \<Rightarrow> Launches))"

text \<open>After the daemon was started: a poll every 200 milliseconds for 5 seconds, of whether its
  process answers and its socket is there.\<close>

datatype launch_end = Started | StillStarting | LaunchFailed

definition launch_result :: "(bool \<times> bool) list \<Rightarrow> bool \<Rightarrow> launch_end" where
  "launch_result polls running_after =
     (if list_ex (\<lambda>(running, dialled). running \<and> dialled) (take 25 polls) then Started
      else if running_after then StillStarting
      else LaunchFailed)"

subsection \<open>Offloading\<close>

text \<open>One call after the other; the numbers of services that were added and that failed.\<close>

fun offload_loop ::
    "'s supervisor_ops \<Rightarrow> rpc_env \<Rightarrow> add_request list \<Rightarrow> nat \<times> nat \<Rightarrow> 's server \<Rightarrow> (nat \<times> nat) \<times> 's server" where
  "offload_loop ops re [] counts s = (counts, s)"
| "offload_loop ops re (req # reqs) (good, bad) s =
     (case rpc_add ops re req s of
        (Inl _, s1) \<Rightarrow> offload_loop ops re reqs (good, Suc bad) s1
      | (Inr _, s1) \<Rightarrow> offload_loop ops re reqs (Suc good, bad) s1)"

definition offload_services ::
    "'s supervisor_ops \<Rightarrow> rpc_env \<Rightarrow> config \<Rightarrow> 's server \<Rightarrow> (nat \<times> nat) \<times> 's server" where
  "offload_services ops re cfg s = offload_loop ops re (map service_config_to_proto (cfg_services cfg)) (0, 0) s"

subsection \<open>Delegating\<close>

datatype delegate_action =
    NothingToDelegate
  | StartsNormally start_action
  | AllConflict "conflict_entry list"
  | HandsOff string "string list" "conflict_entry list" "service_config list"

text \<open>\<open>query\<close> are the instances that answer, in the order in which they do; the first is the primary.\<close>

definition cmd_start_delegate ::
    "app \<Rightarrow> config \<Rightarrow> int option \<Rightarrow> status_msg list option \<Rightarrow> (entry list \<Rightarrow> live_instance list) \<Rightarrow> entry list
       \<Rightarrow> delegate_action" where
  "cmd_start_delegate a cfg running ans query entries =
     (if cfg_services cfg = [] then NothingToDelegate
      else (let candidates = filter (\<lambda>e. \<not> en_delegate e) entries;
                live = (if candidates = [] then [] else query candidates)
            in case live of
                 [] \<Rightarrow> StartsNormally (cmd_start_normal a running ans)
               | primary # _ \<Rightarrow>
                   (case build_conflict_report (port_owners live) (cfg_services cfg) of
                      (conflicts, clean) \<Rightarrow>
                        if clean = [] then AllConflict conflicts
                        else (let e = li_entry primary;
                                  socket = (if en_socket e = [] then en_tcp_address e else en_socket e)
                              in HandsOff socket (delegate_args socket a) conflicts clean))))"

text \<open>What is sent to the primary: each service with the delegate's configuration file as its source.\<close>

definition handoff_requests :: "string \<Rightarrow> service_config list \<Rightarrow> add_request list" where
  "handoff_requests source svcs = map (\<lambda>s. (service_config_to_proto s)\<lparr>ar_source_config := source\<rparr>) svcs"

definition hand_off ::
    "'s supervisor_ops \<Rightarrow> rpc_env \<Rightarrow> string \<Rightarrow> service_config list \<Rightarrow> 's server \<Rightarrow> (nat \<times> nat) \<times> 's server" where
  "hand_off ops re source clean s = offload_loop ops re (handoff_requests source clean) (0, 0) s"

text \<open>The release when the delegate's daemon stops; \<open>dialled\<close> says whether the primary's socket was.\<close>

definition release_on_stop ::
    "'s supervisor_ops \<Rightarrow> string \<Rightarrow> config \<Rightarrow> bool \<Rightarrow> string \<Rightarrow> 's server \<Rightarrow> 's server" where
  "release_on_stop ops cwd cfg dialled primary s =
     (if primary \<noteq> [] \<and> cfg_file_path cfg \<noteq> [] \<and> dialled
      then snd (rpc_release ops (path_abs cwd (cfg_file_path cfg)) s) else s)"

subsection \<open>The daemon\<close>

text \<open>\<^verbatim>\<open>migrateOldStyleFiles\<close>; \<open>dials\<close> says whether something answers on a socket.\<close>

definition migrate_old_files :: "(int \<Rightarrow> bool) \<Rightarrow> (string \<Rightarrow> bool) \<Rightarrow> config \<Rightarrow> os_env \<Rightarrow> os_env" where
  "migrate_old_files responds dials cfg env =
     (if cfg_file_path cfg = [] then env
      else (let dir = path_dir (cfg_file_path cfg);
                old_pid = path_join [dir, ''.kubeport.pid''];
                old_sock = path_join [dir, ''.kubeport.sock''];
                env1 = (case read_file env old_pid of
                          None \<Rightarrow> env
                        | Some data \<Rightarrow>
                            (case atoi (trim_space data) of
                               None \<Rightarrow> env
                             | Some pid \<Rightarrow> if 0 < pid \<and> \<not> responds pid then remove_file old_pid env else env))
            in if file_exists env1 old_sock \<and> \<not> dials old_sock then remove_file old_sock env1 else env1))"

text \<open>The registry entry of a primary, and that of a delegate, which has no key and names its primary.\<close>

definition daemon_entry ::
    "os_env \<Rightarrow> (string \<Rightarrow> string) \<Rightarrow> (string \<Rightarrow> string \<Rightarrow> string) \<Rightarrow> string \<Rightarrow> app \<Rightarrow> config \<Rightarrow> int \<Rightarrow> int \<Rightarrow> entry" where
  "daemon_entry env sha256 hmac vers a cfg pid now =
     (let lc = listen_address env sha256 cfg; tcp = (lc_mode lc = ListenTCP)
      in \<lparr>en_pid = pid, en_config_file = cfg_file_path cfg, en_pid_file = pid_file env sha256 cfg,
          en_log_file = log_file env sha256 cfg, en_socket = (if tcp then [] else lc_address lc),
          en_tcp_address = (if tcp then lc_address lc else []),
          en_auth_enabled = (\<not> ap_delegate a \<and> cfg_api_key cfg \<noteq> []),
          en_key_id = (if ap_delegate a then [] else resolved_key_id hmac cfg), en_version = vers,
          en_started_at = now, en_delegate = ap_delegate a,
          en_primary_socket = (if ap_delegate a then ap_primary_socket a else [])\<rparr>)"

text \<open>A hook that cannot be built is skipped with a warning.\<close>

definition register_hooks :: "hook_config list \<Rightarrow> dispatcher" where
  "register_hooks hooks =
     foldl (\<lambda>d hc. case build_from_config hc of Inl _ \<Rightarrow> d | Inr reg \<Rightarrow> register reg d) [] hooks"

definition manager_event :: "event_type \<Rightarrow> event" where
  "manager_event t =
     \<lparr>ev_type = t, ev_time = [], ev_service = [], ev_parent_name = [], ev_port_name = [], ev_local_port = 0,
      ev_remote_port = 0, ev_pod_name = [], ev_restarts = 0, ev_error = None\<rparr>"

text \<open>What surrounds the daemon: \<open>dw_cluster\<close> is the error of setting up the Kubernetes client, and
  \<open>dw_in_use\<close> says whether something listens on an address.\<close>

record daemon_world =
  dw_pid :: int
  dw_now :: int
  dw_version :: string
  dw_sha256 :: "string \<Rightarrow> string"
  dw_hmac :: "string \<Rightarrow> string \<Rightarrow> string"
  dw_responds :: "int \<Rightarrow> bool"
  dw_dials :: "string \<Rightarrow> bool"
  dw_net :: net_env
  dw_hook_outcome :: "effect \<Rightarrow> answer"
  dw_cluster :: "string option"
  dw_lock :: lock_env
  dw_query :: "entry list \<Rightarrow> live_instance list"
  dw_in_use :: "string \<Rightarrow> bool"

record daemon_state =
  ds_os :: os_env
  ds_instances :: instances_file
  ds_mgr :: "manager option"
  ds_socks :: "string option"
  ds_http :: "string option"
  ds_hooks :: dispatcher
  ds_activity :: "activity list"

datatype daemon_exit = HookBlocked fire_err | ManagerFailed string

definition auto_proxy :: "(string \<Rightarrow> bool) \<Rightarrow> string \<Rightarrow> proxy_server_config \<Rightarrow> string option" where
  "auto_proxy in_use fallback px =
     (if \<not> proxy_is_enabled px then None
      else (let addr = (if px_listen px = [] then fallback else px_listen px)
            in if in_use addr then None else Some addr))"

text \<open>The file write and the registration, whose failures are only warned of.\<close>

definition announce :: "daemon_world \<Rightarrow> app \<Rightarrow> config \<Rightarrow> daemon_state \<Rightarrow> daemon_state" where
  "announce w a cfg d =
     (let file = pid_file (ds_os d) (dw_sha256 w) cfg;
          os1 = snd (put_file (ds_os d) file (itoa (dw_pid w)));
          e = daemon_entry os1 (dw_sha256 w) (dw_hmac w) (dw_version w) a cfg (dw_pid w) (dw_now w)
      in d\<lparr>ds_os := os1, ds_instances := snd (register_instance (dw_lock w) e (ds_instances d))\<rparr>)"

definition detect_now :: "daemon_world \<Rightarrow> daemon_state \<Rightarrow> config \<Rightarrow> external_forward list" where
  "detect_now w d cfg = detect_from_registry (dw_lock w) (dw_responds w) (dw_pid w) (dw_query w) (ds_instances d) cfg"

text \<open>\<^verbatim>\<open>runProxy\<close> up to \<^verbatim>\<open>mgr.Start\<close>.  The exits leave the PID file and the entry behind.  Detection lists
  the registry, which drops the entries of dead processes; the detector given to the manager answers
  from the registry as it is at start-up.\<close>

definition run_proxy :: "daemon_world \<Rightarrow> app \<Rightarrow> config \<Rightarrow> daemon_state \<Rightarrow> daemon_exit option \<times> daemon_state" where
  "run_proxy w a cfg d0 =
     (let d1 = announce w a cfg (d0\<lparr>ds_os := migrate_old_files (dw_responds w) (dw_dials w) cfg (ds_os d0)\<rparr>);
          d2 = d1\<lparr>ds_hooks := register_hooks (cfg_hooks cfg)\<rparr>
      in case fire (dw_net w) (dw_hook_outcome w) (Some (ds_hooks d2)) (manager_event EventManagerStarting) of
           (acts, Some err) \<Rightarrow> (Some (HookBlocked err), d2\<lparr>ds_activity := ds_activity d2 @ acts\<rparr>)
         | (acts, None) \<Rightarrow>
             (let d3 = d2\<lparr>ds_activity := ds_activity d2 @ acts\<rparr>
              in case dw_cluster w of
                   Some t \<Rightarrow> (Some (ManagerFailed t), d3)
                 | None \<Rightarrow>
                     (let m0 = set_external_detector (Some (detect_now w d3)) (new_manager cfg);
                          found = detect_now w d3 cfg;
                          m1 = (if found = [] then m0 else snd (set_external_forwards found m0))
                      in (None, d3\<lparr>ds_mgr := Some (start m1),
                                   ds_instances := (if cfg_services cfg = [] then ds_instances d3
                                     else snd (list_instances (dw_lock w) (dw_responds w) (ds_instances d3))),
                                   ds_socks := auto_proxy (dw_in_use w) ''127.0.0.1:1080'' (cfg_socks cfg),
                                   ds_http := auto_proxy (dw_in_use w) ''127.0.0.1:3128'' (cfg_http_proxy cfg)\<rparr>))))"

text \<open>The deferred cleanup when the manager has ended.\<close>

definition shut_down :: "daemon_world \<Rightarrow> config \<Rightarrow> daemon_state \<Rightarrow> daemon_state" where
  "shut_down w cfg d =
     d\<lparr>ds_os := remove_file (pid_file (ds_os d) (dw_sha256 w) cfg) (ds_os d),
       ds_instances := snd (deregister (dw_lock w) (dw_pid w) (ds_instances d)),
       ds_activity := ds_activity d @
         fst (fire (dw_net w) (dw_hook_outcome w) (Some (ds_hooks d)) (manager_event EventManagerStopped))\<rparr>"

subsection \<open>Reloading\<close>

text \<open>The helper behind \<^verbatim>\<open>SIGHUP\<close> and the file watcher: \<open>None\<close> when the reload is given up.\<close>

definition reload_config ::
    "(nat \<Rightarrow> string list \<Rightarrow> string list) \<Rightarrow> os_env \<Rightarrow> codecs \<Rightarrow> string \<Rightarrow> manager \<Rightarrow> (nat \<times> nat) option \<times> manager" where
  "reload_config ord env cd path m =
     (case load_config env cd path of
        Inl _ \<Rightarrow> (None, m)
      | Inr cfg \<Rightarrow>
          (case validate_config cfg of
             Inl _ \<Rightarrow> (None, m)
           | Inr _ \<Rightarrow> (case reload ord cfg m of (counts, m1) \<Rightarrow> (Some counts, m1))))"

text \<open>\<^verbatim>\<open>watchConfigFile\<close>: the modification times and sizes seen at the polls, and whether each poll
  triggers a reload; a file that is missing is passed over.\<close>

type_synonym file_stat = "int \<times> int"

fun watch_loop :: "file_stat \<Rightarrow> file_stat option list \<Rightarrow> bool list" where
  "watch_loop seen [] = []"
| "watch_loop seen (None # ps) = False # watch_loop seen ps"
| "watch_loop seen (Some st # ps) = (st \<noteq> seen) # watch_loop st ps"

definition watch_config_file :: "string \<Rightarrow> file_stat option \<Rightarrow> file_stat option list \<Rightarrow> bool list" where
  "watch_config_file path first ps =
     (if path = [] then [] else case first of None \<Rightarrow> [] | Some st \<Rightarrow> watch_loop st ps)"

subsection \<open>What a delegate hands over, its stop takes back\<close>

text \<open>The requests of a hand-over, one after the other.\<close>

lemma handoff_service:
  "requested_service ((service_config_to_proto s)\<lparr>ar_source_config := source\<rparr>)
     (the (ar_service (service_config_to_proto s))) = handed_over source s"
  by (simp add: handed_over_def Let_def service_config_to_proto_def)

lemma handed_over_simps:
  "svc_source_config (handed_over source s) = source" "\<not> is_multi_port s \<Longrightarrow> \<not> is_multi_port (handed_over source s)"
  by (simp_all add: handed_over_alt zero_service_def) (simp add: is_multi_port_def ports_is_set_def zero_ports_def)

lemma rpc_add_handoff:
  "\<exists>r. rpc_add (manager_ops is_open ord ord1) re ((service_config_to_proto s)\<lparr>ar_source_config := source\<rparr>) v =
     ((if fst (add_service_mgr (handed_over source s) (sv_mgr v)) = None then Inr (AddResponse r)
       else Inl (AlreadyExistsErr (ManagerErr (the (fst (add_service_mgr (handed_over source s) (sv_mgr v))))))),
      v\<lparr>sv_mgr := snd (add_service_mgr (handed_over source s) (sv_mgr v))\<rparr>)"
  using handoff_service [of source s]
  by (auto simp: rpc_add_def Let_def manager_ops_def service_config_to_proto_def split: prod.splits option.splits)

lemma hand_off_leases:
  assumes "leased source m new (sv_mgr v)" "list_all (\<lambda>s. \<not> is_multi_port s) clean"
    and "offload_loop (manager_ops is_open ord ord1) re (handoff_requests source clean) (good, bad) v = ((g, b), v1)"
  shows "\<exists>new1. leased source m (new @ new1) (sv_mgr v1) \<and> g = good + length new1 \<and> g + b = good + bad + length clean
    \<and> fst ` set new1 \<subseteq> svc_name ` set clean"
  using assms
proof (induction clean arbitrary: new good bad v)
  case (Cons s clean)
  let ?h = "handed_over source s"
  obtain e m2 where a: "add_service_mgr ?h (sv_mgr v) = (e, m2)" by fastforce
  have nm: "\<not> is_multi_port ?h" using Cons.prems(2) by (simp add: handed_over_simps)
  note l = leased_add [OF Cons.prems(1) a nm handed_over_simps(1)]
  have name: "svc_name ?h = svc_name s" by (simp add: handed_over_alt zero_service_def)
  obtain r where r: "rpc_add (manager_ops is_open ord ord1) re ((service_config_to_proto s)\<lparr>ar_source_config := source\<rparr>) v =
      ((if e = None then Inr (AddResponse r) else Inl (AlreadyExistsErr (ManagerErr (the e)))), v\<lparr>sv_mgr := m2\<rparr>)"
    using rpc_add_handoff [where source = source and s = s and v = v and re = re and is_open = is_open and ord = ord and ?ord1.0 = ord1] a
    by (cases e) auto
  let ?n = "if e = None then [(svc_name ?h, mg_next (sv_mgr v))] else []"
  have l1: "leased source m (new @ ?n) (sv_mgr (v\<lparr>sv_mgr := m2\<rparr>))" using l by (cases e) auto
  have "offload_loop (manager_ops is_open ord ord1) re (handoff_requests source clean)
      (if e = None then Suc good else good, if e = None then bad else Suc bad) (v\<lparr>sv_mgr := m2\<rparr>) = ((g, b), v1)"
    using Cons.prems(3) r by (auto simp: handoff_requests_def split: if_splits)
  from Cons.IH [OF l1 _ this] Cons.prems(2) obtain new1 where
    n1: "leased source m ((new @ ?n) @ new1) (sv_mgr v1)" "g = (if e = None then Suc good else good) + length new1"
      "g + b = (if e = None then Suc good else good) + (if e = None then bad else Suc bad) + length clean"
      "fst ` set new1 \<subseteq> svc_name ` set clean" by auto
  then show ?case using name by (intro exI [of _ "?n @ new1"]) (auto split: if_splits)
qed (auto simp: handoff_requests_def intro: exI [of _ "[]"])

lemma rpc_release_mgr:
  "source \<noteq> [] \<Longrightarrow> sv_mgr (snd (rpc_release (manager_ops is_open ord ord1) source v)) = snd (release_by_source ord1 source (sv_mgr v))"
  by (simp add: rpc_release_def manager_ops_def split: prod.splits)

text \<open>C34: the single-port services a delegate hands to the primary are the ones its stop takes back.
  The primary registers as many forwards as it accepted, and when the delegate's file is released its
  registered forwards and multi-port groups are again what they were.  This is for a delegate with a
  configuration file that hands over services of one port each, to a primary that has nothing from
  that file yet and no child of a multi-port service under one of the names, when nothing else
  happens on the primary in between; a multi-port service that is handed over need not be released.\<close>

theorem lease_returned:
  assumes "reachable cfg (sv_mgr v)" and "source = path_abs cwd (cfg_file_path dcfg)" "source \<noteq> []" "cfg_file_path dcfg \<noteq> []"
    and "\<forall>n i. (n, i) \<in> set (mg_forwards (sv_mgr v)) \<longrightarrow> fw_source_config (mg_heap (sv_mgr v) i) \<noteq> source"
    and "list_all (\<lambda>s. \<not> is_multi_port s) clean"
    and "\<forall>n \<in> svc_name ` set clean. \<forall>cs \<in> snd ` set (mg_children (sv_mgr v)). n \<notin> set cs"
    and "\<And>ns. distinct ns \<Longrightarrow> distinct (ord1 ns) \<and> set (ord1 ns) = set ns"
    and "hand_off (manager_ops is_open ord ord1) re source clean v = ((good, bad), v1)" and "primary \<noteq> []"
  shows "good + bad = length clean \<and> length (mg_forwards (sv_mgr v1)) = length (mg_forwards (sv_mgr v)) + good
    \<and> mg_forwards (sv_mgr (release_on_stop (manager_ops is_open ord ord1) cwd dcfg True primary v1)) = mg_forwards (sv_mgr v)
    \<and> mg_children (sv_mgr (release_on_stop (manager_ops is_open ord ord1) cwd dcfg True primary v1)) = mg_children (sv_mgr v)"
proof -
  have "leased source (sv_mgr v) [] (sv_mgr v)"
    using reachable_wf [OF assms(1)] by (fastforce simp: leased_def manager_wf_def heap_wf_def list_all_iff)
  moreover have "offload_loop (manager_ops is_open ord ord1) re (handoff_requests source clean) (0, 0) v = ((good, bad), v1)"
    using assms(9) by (simp only: hand_off_def)
  ultimately have "\<exists>new. leased source (sv_mgr v) ([] @ new) (sv_mgr v1) \<and> good = 0 + length new
      \<and> good + bad = 0 + 0 + length clean \<and> fst ` set new \<subseteq> svc_name ` set clean"
    by (intro hand_off_leases [OF _ assms(6)])
  then obtain new where
    n: "leased source (sv_mgr v) new (sv_mgr v1)" "good = length new" "good + bad = length clean"
      "fst ` set new \<subseteq> svc_name ` set clean"
    unfolding append_Nil add_0 by blast
  have "\<forall>n \<in> fst ` set new. \<forall>cs \<in> snd ` set (mg_children (sv_mgr v)). n \<notin> set cs"
    using assms(7) n(4) by blast
  note r = release_leased [OF n(1) assms(5) this]
  have o1: "distinct (map fst new) \<Longrightarrow> distinct (ord1 (map fst new)) \<and> set (ord1 (map fst new)) = fst ` set new"
    using assms(8) [of "map fst new"] by simp
  have "mg_forwards (sv_mgr v1) = mg_forwards (sv_mgr v) @ new" using n(1) by (simp add: leased_def)
  moreover have "sv_mgr (release_on_stop (manager_ops is_open ord ord1) cwd dcfg True primary v1) =
      snd (release_by_source ord1 source (sv_mgr v1))"
    using assms(2,3,4,10) by (simp add: release_on_stop_def rpc_release_mgr)
  moreover note r [of ord1, OF o1]
  ultimately show ?thesis using n(2,3) by (simp only: length_append)
qed

text \<open>One service is handed over to the primary of the example.\<close>

theorem lease_returned_witness:
  "\<exists>good bad v1. hand_off (manager_ops (\<lambda>_. True) (\<lambda>_ ks. ks) (\<lambda>ks. ks)) example_env ''/d/other.yaml''
       [demo_service ''q'' 7000] example_server = ((good, bad), v1) \<and> good = 1
     \<and> length (mg_forwards (sv_mgr v1)) = 2
     \<and> mg_forwards (sv_mgr (release_on_stop (manager_ops (\<lambda>_. True) (\<lambda>_ ks. ks) (\<lambda>ks. ks)) ''/d''
           (zero_config\<lparr>cfg_file_path := ''other.yaml''\<rparr>) True ''/run/p.sock'' v1)) = mg_forwards (sv_mgr example_server)"
proof -
  let ?ops = "manager_ops (\<lambda>_. True) (\<lambda>_ ks. ks) (\<lambda>ks. ks)"
  obtain good bad v1 where h: "hand_off ?ops example_env ''/d/other.yaml'' [demo_service ''q'' 7000] example_server = ((good, bad), v1)"
    by (metis surj_pair)
  have "fst (fst (hand_off ?ops example_env ''/d/other.yaml'' [demo_service ''q'' 7000] example_server)) = 1" by code_simp
  with h have g: "good = 1" by simp
  have src: "''/d/other.yaml'' = path_abs ''/d'' (cfg_file_path (zero_config\<lparr>cfg_file_path := ''other.yaml''\<rparr>))" by code_simp
  have ms: "mg_forwards (sv_mgr example_server) = [(''a'', 0)]" "mg_children (sv_mgr example_server) = []" by code_simp+
  have own: "fw_source_config (mg_heap (sv_mgr example_server) 0) \<noteq> ''/d/other.yaml''" by code_simp
  have single: "list_all (\<lambda>s. \<not> is_multi_port s) [demo_service ''q'' 7000]" by code_simp
  have "length (mg_forwards (sv_mgr v1)) = length (mg_forwards (sv_mgr example_server)) + good
    \<and> mg_forwards (sv_mgr (release_on_stop ?ops ''/d'' (zero_config\<lparr>cfg_file_path := ''other.yaml''\<rparr>) True ''/run/p.sock'' v1))
      = mg_forwards (sv_mgr example_server)"
    using lease_returned [OF example_server_reachable src _ _ _ single _ _ h, of "''/run/p.sock''"] ms own by simp
  with h g ms show ?thesis by auto
qed

subsection \<open>What a daemon starts\<close>

text \<open>What the other live primaries report as theirs.\<close>

definition live_reports :: "daemon_world \<Rightarrow> instances_file \<Rightarrow> remote_forward list" where
  "live_reports w f =
     (case fst (list_instances (dw_lock w) (dw_responds w) f) of
        (_, Some _) \<Rightarrow> []
      | (es, None) \<Rightarrow>
          (let others = filter (\<lambda>e. en_pid e \<noteq> dw_pid w \<and> \<not> en_delegate e) es
           in if others = [] then []
              else concat (map (\<lambda>li. map (remote_of (li_entry li)) (li_forwards li)) (dw_query w others))))"

lemma detect_now_reports:
  "cfg_services cfg \<noteq> [] \<Longrightarrow> detect_now w d cfg = detect_external_conflicts cfg (live_reports w (ds_instances d))"
  by (auto simp: detect_now_def detect_from_registry_def live_reports_def Let_def detect_external_conflicts_def
      split: prod.split option.split)

lemma detected_names:
  "svc_name ` ef_service ` set (detect_external_conflicts cfg remote) =
     {svc_name s |s. s \<in> set (cfg_services cfg) \<and> claimed remote s}"
proof (cases "cfg_services cfg = [] \<or> remote = []")
  case True
  then show ?thesis by (auto simp: detect_external_conflicts_def claimed_def)
next
  case False
  then show ?thesis
    using detect_loop_names [of "owners_by_name remote" "owners_by_port remote" "[]" "cfg_services cfg"]
      owner_of_claimed [of remote]
    by (simp add: detect_external_conflicts_def image_comp)
qed

lemma run_proxy_started:
  assumes "run_proxy w a cfg d0 = (None, d1)"
  shows "\<exists>d3. ds_instances d3 = ds_instances (announce w a cfg (d0\<lparr>ds_os := migrate_old_files (dw_responds w) (dw_dials w) cfg (ds_os d0)\<rparr>))
    \<and> ds_os d1 = ds_os (announce w a cfg (d0\<lparr>ds_os := migrate_old_files (dw_responds w) (dw_dials w) cfg (ds_os d0)\<rparr>))
    \<and> ds_instances d1 = (if cfg_services cfg = [] then ds_instances d3
        else snd (list_instances (dw_lock w) (dw_responds w) (ds_instances d3)))
    \<and> ds_mgr d1 = Some (start (let m0 = set_external_detector (Some (detect_now w d3)) (new_manager cfg)
        in if detect_now w d3 cfg = [] then m0 else snd (set_external_forwards (detect_now w d3 cfg) m0)))"
proof -
  let ?d1 = "announce w a cfg (d0\<lparr>ds_os := migrate_old_files (dw_responds w) (dw_dials w) cfg (ds_os d0)\<rparr>)"
  let ?d2 = "?d1\<lparr>ds_hooks := register_hooks (cfg_hooks cfg)\<rparr>"
  obtain acts r where f: "fire (dw_net w) (dw_hook_outcome w) (Some (ds_hooks ?d2)) (manager_event EventManagerStarting) = (acts, r)"
    by fastforce
  have r: "r = None" and c: "dw_cluster w = None"
    using assms f unfolding run_proxy_def Let_def by (auto split: option.splits)
  show ?thesis
    using assms f r c unfolding run_proxy_def Let_def
    by (intro exI [of _ "?d2\<lparr>ds_activity := ds_activity ?d2 @ acts\<rparr>"]) auto
qed

text \<open>C12: a daemon starts what nobody else runs.  When \<^verbatim>\<open>runProxy\<close> comes to start the manager, it
  forwards, in the order of the configuration, exactly the services that no other live primary reports
  under their name or on their local port; the others are recorded as external, and a service that is
  in neither group has its ports resolved first.\<close>

theorem daemon_starts_unclaimed:
  assumes "validate_config cfg = Inr ()" "distinct (map svc_name (cfg_services cfg))"
    and "run_proxy w a cfg d0 = (None, d1)"
    and "reports = live_reports w (ds_instances (announce w a cfg
           (d0\<lparr>ds_os := migrate_old_files (dw_responds w) (dw_dials w) cfg (ds_os d0)\<rparr>)))"
  shows "\<exists>m. ds_mgr d1 = Some m \<and> mg_started m
    \<and> mg_order m = map svc_name (filter (\<lambda>s. \<not> claimed reports s \<and> \<not> is_multi_port s) (cfg_services cfg))
    \<and> gkeys (mg_children m) = map svc_name (filter (\<lambda>s. \<not> claimed reports s \<and> is_multi_port s) (cfg_services cfg))
    \<and> fst ` set (mg_external m) = svc_name ` set (filter (claimed reports) (cfg_services cfg))"
proof -
  obtain d3 where d3: "ds_instances d3 = ds_instances (announce w a cfg (d0\<lparr>ds_os := migrate_old_files (dw_responds w) (dw_dials w) cfg (ds_os d0)\<rparr>))"
    and m: "ds_mgr d1 = Some (start (let m0 = set_external_detector (Some (detect_now w d3)) (new_manager cfg)
        in if detect_now w d3 cfg = [] then m0 else snd (set_external_forwards (detect_now w d3 cfg) m0)))"
    using run_proxy_started [OF assms(3)] by blast
  have ok: "config_ok cfg" using assms(1) by (simp only: validate_config_iff)
  then have found: "detect_now w d3 cfg = detect_external_conflicts cfg reports"
    by (simp add: config_ok_def detect_now_reports d3 assms(4))
  define m1 where "m1 = (let m0 = set_external_detector (Some (detect_now w d3)) (new_manager cfg)
        in if detect_now w d3 cfg = [] then m0 else snd (set_external_forwards (detect_now w d3 cfg) m0))"
  define m2 where "m2 = m1\<lparr>mg_started := True, mg_stopped := False\<rparr>"
  have base: "mg_cfg m1 = cfg" "mg_order m2 = []" "mg_children m2 = []" "mg_forwards m2 = []" "mg_started m2"
    by (simp_all add: m2_def m1_def Let_def set_external_detector_def new_manager_def set_external_forwards_def)
  have ext: "fst ` set (mg_external m2) = {svc_name s |s. s \<in> set (cfg_services cfg) \<and> claimed reports s}"
    using index_externals_keys [of "detect_now w d3 cfg"] detected_names [of cfg reports] found
    by (auto simp: m2_def m1_def Let_def set_external_detector_def new_manager_def set_external_forwards_def index_externals_def)
  have unclaimed: "(gget (mg_external m2) (svc_name s) = None) = (\<not> claimed reports s)" if "s \<in> set (cfg_services cfg)" for s
    using that assms(2) ext inj_onD [of svc_name "set (cfg_services cfg)"] by (auto simp: gget_None_iff distinct_map)
  have "room_for (cfg_services cfg) m2"
    using ok assms(2) base by (simp add: room_for_def config_ok_def)
  note loop = start_loop [OF this]
  have "start m1 = foldl start_service m2 (cfg_services cfg)" by (simp add: start_def m2_def base)
  moreover have "filter (\<lambda>s. gget (mg_external m2) (svc_name s) = None \<and> P s) (cfg_services cfg) =
      filter (\<lambda>s. \<not> claimed reports s \<and> P s) (cfg_services cfg)" for P
    using unclaimed by (intro filter_cong) auto
  moreover have "ds_mgr d1 = Some (start m1)" using m by (simp add: m1_def)
  moreover have "fst ` set (mg_external m2) = svc_name ` set (filter (claimed reports) (cfg_services cfg))"
    using ext by auto
  ultimately show ?thesis using loop base by simp
qed

text \<open>What \<^verbatim>\<open>FindByConfig\<close> finds of a process that is registered and alive.\<close>

lemma instance_at_readable: "instance_at f p = Some e \<Longrightarrow> \<exists>es. read_store f = Inr es \<and> e \<in> set es \<and> en_pid e = p"
  by (cases f) (auto simp: instance_at_def entries_of_def read_store_def dest!: find_memD)

lemma find_by_config_registered:
  assumes "instance_at f p = Some e" "is_alive responds p" "en_config_file e = path" "path \<noteq> []"
  shows "\<exists>e'. fst (find_by_config good_env responds cwd path f) = Inr (Some e')
    \<and> path_abs cwd (en_config_file e') = path_abs cwd path"
proof -
  obtain es where es: "read_store f = Inr es" "e \<in> set es" "en_pid e = p" using instance_at_readable [OF assms(1)] by blast
  let ?find = "List.find (\<lambda>e. path_abs cwd (en_config_file e) = path_abs cwd path) (filter (\<lambda>e. is_alive responds (en_pid e)) es)"
  have "?find \<noteq> None" using es assms(2,3) by (auto simp: find_None_iff)
  then obtain e' where "?find = Some e'" by blast
  then show ?thesis using find_memD assms(4) by (fastforce simp: find_by_config_def list_good [OF es(1)])
qed

text \<open>C19: one daemon per configuration.  From the moment a daemon was started until it stops, whatever
  other processes do to the registry, a start with the same configuration path is refused, from any
  directory; and when it has stopped it is in the registry no more.\<close>

theorem one_daemon_per_config:
  assumes "run_proxy w a cfg d0 = (None, d1)" "dw_lock w = good_env" "is_alive (dw_responds w) (dw_pid w)"
    and "store_ok (ds_instances d0)" "read_store (ds_instances d0) = Inr es"
    and "lc_address (listen_address (ds_os d1) (dw_sha256 w) cfg) \<noteq> []" "cfg_file_path cfg \<noteq> []"
    and "list_all (\<lambda>x. \<not> may_touch x (dw_pid w)) xs"
    and "f = foldl (\<lambda>s x. registry_step x s) (ds_instances d1) xs"
    and "ap_cfg b = Some cfg" "\<not> ap_offload b" "\<not> ap_delegate b"
  shows "(\<exists>e. fst (find_by_config good_env (dw_responds w) cwd (cfg_file_path cfg) f) = Inr (Some e)
      \<and> path_abs cwd (en_config_file e) = path_abs cwd (cfg_file_path cfg)
      \<and> cmd_start b None ans (Some e) = OtherInstance e)
    \<and> instance_at (ds_instances (shut_down w cfg (d1\<lparr>ds_instances := f\<rparr>))) (dw_pid w) = None"
proof -
  let ?e = "daemon_entry (ds_os d1) (dw_sha256 w) (dw_hmac w) (dw_version w) a cfg (dw_pid w) (dw_now w)"
  let ?f0 = "snd (register_instance good_env ?e (ds_instances d0))"
  have ok: "entry_ok ?e" "en_pid ?e = dw_pid w" "en_config_file ?e = cfg_file_path cfg"
    using assms(3,6) by (auto simp: daemon_entry_def entry_ok_def is_alive_def Let_def)
  have r0: "instance_at ?f0 (dw_pid w) = Some ?e" "store_ok ?f0"
    using register_at [OF assms(5), of ?e] ok store_ok_register [OF assms(4), of good_env ?e] by simp_all
  have "ds_instances d1 = (if cfg_services cfg = [] then ?f0 else snd (list_instances good_env (dw_responds w) ?f0))"
    using run_proxy_started [OF assms(1)] assms(2) by (auto simp: announce_def Let_def)
  with r0 have r1: "instance_at (ds_instances d1) (dw_pid w) = Some ?e" "store_ok (ds_instances d1)"
    using list_at [of ?f0] instance_at_readable [OF r0(1)] assms(3) store_ok_list [OF r0(2), of good_env "dw_responds w"]
    by auto
  have r2: "instance_at f (dw_pid w) = Some ?e"
    using registry.runs_untouched [OF r1(2) assms(8)] r1(1) assms(9) by simp
  obtain fs where fs: "read_store f = Inr fs" using instance_at_readable [OF r2] by blast
  obtain e' where "fst (find_by_config good_env (dw_responds w) cwd (cfg_file_path cfg) f) = Inr (Some e')"
    "path_abs cwd (en_config_file e') = path_abs cwd (cfg_file_path cfg)"
    using find_by_config_registered [OF r2 assms(3) ok(3) assms(7)] by blast
  moreover have "cmd_start b None ans (Some e') = OtherInstance e'"
    using assms(7,10,11,12) by (simp add: cmd_start_def)
  moreover have "instance_at (ds_instances (shut_down w cfg (d1\<lparr>ds_instances := f\<rparr>))) (dw_pid w) = None"
    using deregister_at [OF fs] assms(2) by (simp add: shut_down_def)
  ultimately show ?thesis by blast
qed

text \<open>A world for examples: process 7 starts with the configuration of the examples while process 9
  forwards \<^verbatim>\<open>mq\<close>.\<close>

definition demo_peer :: manager where
  "demo_peer = start (new_manager (demo_config\<lparr>cfg_services := [demo_service ''mq'' 6000]\<rparr>))"

definition demo_world :: daemon_world where
  "demo_world =
     \<lparr>dw_pid = 7, dw_now = 0, dw_version = ''v1'', dw_sha256 = (\<lambda>x. x), dw_hmac = (\<lambda>k x. x),
      dw_responds = (\<lambda>_. True), dw_dials = (\<lambda>_. False),
      dw_net = \<lparr>url_parse = (\<lambda>_. None), lookup_host = (\<lambda>_. None), parse_ip = (\<lambda>_. None)\<rparr>,
      dw_hook_outcome = (\<lambda>_. Succeeded), dw_cluster = None, dw_lock = good_env,
      dw_query = map (\<lambda>e. \<lparr>li_entry = e, li_forwards = the (status (\<lambda>_. True) demo_peer)\<rparr>),
      dw_in_use = (\<lambda>_. False)\<rparr>"

definition demo_state :: daemon_state where
  "demo_state =
     \<lparr>ds_os = demo_env, ds_instances = Holds [sample_entry\<lparr>en_pid := 9\<rparr>], ds_mgr = None, ds_socks = None,
      ds_http = None, ds_hooks = [], ds_activity = []\<rparr>"

lemma demo_runs:
  "run_proxy demo_world new_app demo_config demo_state = (None, snd (run_proxy demo_world new_app demo_config demo_state))"
proof -
  have "cfg_hooks demo_config = []" "dw_cluster demo_world = None"
    by (simp_all add: demo_config_def demo_loaded_def zero_config_def demo_world_def)
  then have "fst (run_proxy demo_world new_app demo_config demo_state) = None"
    by (simp add: run_proxy_def Let_def register_hooks_def fire_def)
  then show ?thesis by (metis prod.collapse)
qed

lemma demo_endpoint: "lc_address (listen_address env sha demo_config) \<noteq> []"
proof -
  have "cfg_listen demo_config = []" by (simp add: demo_config_def demo_loaded_def zero_config_def)
  then show ?thesis by (simp add: listen_address_def socket_file_def path_join_def clean_path_def Let_def)
qed

text \<open>The report of the other process does not depend on the entry of the process itself.\<close>

lemma demo_reports:
  "live_reports demo_world (ds_instances (announce demo_world new_app demo_config (demo_state\<lparr>ds_os := env\<rparr>)))
     = map (remote_of (sample_entry\<lparr>en_pid := 9\<rparr>)) (the (status (\<lambda>_. True) demo_peer))"
proof -
  have w: "dw_lock demo_world = good_env" "dw_responds demo_world = (\<lambda>_. True)" "dw_pid demo_world = 7"
    "dw_query demo_world = map (\<lambda>e. \<lparr>li_entry = e, li_forwards = the (status (\<lambda>_. True) demo_peer)\<rparr>)"
    by (simp_all add: demo_world_def)
  have d: "en_delegate sample_entry = False" "ap_delegate new_app = False" by code_simp+
  let ?e = "\<lambda>env. daemon_entry env (dw_sha256 demo_world) (dw_hmac demo_world) (dw_version demo_world) new_app demo_config 7 (dw_now demo_world)"
  have e: "en_pid (?e env) = 7" "en_delegate (?e env) = False" for env
    by (simp_all add: daemon_entry_def Let_def d)
  have end1: "en_socket (?e env) \<noteq> [] \<or> en_tcp_address (?e env) \<noteq> []" for env
    using demo_endpoint [of env] by (simp add: daemon_entry_def Let_def)
  have "ds_instances (announce demo_world new_app demo_config (demo_state\<lparr>ds_os := env\<rparr>))
      = Holds [sample_entry\<lparr>en_pid := 9\<rparr>, ?e (let f = pid_file env (dw_sha256 demo_world) demo_config
          in snd (put_file env f (itoa 7)))]" for env
    using end1 by (simp add: announce_def register_instance_def w Let_def e demo_state_def with_lock_def locked_def
        good_env_def read_store_def)
  then show ?thesis
    by (simp add: live_reports_def list_instances_def w with_lock_def locked_def good_env_def read_store_def
        is_alive_def e d)
qed

theorem daemon_starts_unclaimed_witness:
  "\<exists>m. ds_mgr (snd (run_proxy demo_world new_app demo_config demo_state)) = Some m \<and> mg_started m
     \<and> mg_order m = [''WEB''] \<and> gkeys (mg_children m) = [] \<and> fst ` set (mg_external m) = {''mq''}"
proof -
  have d: "distinct (map svc_name (cfg_services demo_config))" by code_simp
  let ?r = "live_reports demo_world (ds_instances (announce demo_world new_app demo_config
    (demo_state\<lparr>ds_os := migrate_old_files (dw_responds demo_world) (dw_dials demo_world) demo_config (ds_os demo_state)\<rparr>)))"
  have s: "cfg_services demo_config = [demo_service ''WEB'' 9090\<lparr>svc_service := ''web''\<rparr>, demo_service ''mq'' 6000]"
    by (simp add: demo_config_def)
  have c: "claimed ?r (demo_service ''mq'' 6000)" "\<not> claimed ?r (demo_service ''WEB'' 9090\<lparr>svc_service := ''web''\<rparr>)"
    unfolding demo_reports by code_simp+
  have n: "svc_name (demo_service ''mq'' 6000) = ''mq''" "\<not> is_multi_port (demo_service ''mq'' 6000)"
    "\<not> is_multi_port (demo_service ''WEB'' 9090\<lparr>svc_service := ''web''\<rparr>)" "svc_name (demo_service ''WEB'' 9090\<lparr>svc_service := ''web''\<rparr>) = ''WEB''"
    by code_simp+
  with daemon_starts_unclaimed [OF demo_valid d demo_runs refl] c n show ?thesis by (simp add: s)
qed

theorem one_daemon_per_config_witness:
  "(\<exists>e. fst (find_by_config good_env (\<lambda>_. True) ''/elsewhere'' ''kubeport.yaml''
        (registry_step (DeregisterOp good_env 9) (ds_instances (snd (run_proxy demo_world new_app demo_config demo_state))))) = Inr (Some e)
     \<and> cmd_start (new_app\<lparr>ap_cfg := Some demo_config\<rparr>) None None (Some e) = OtherInstance e)"
proof -
  have h: "dw_lock demo_world = good_env" "is_alive (dw_responds demo_world) (dw_pid demo_world)"
    "store_ok (ds_instances demo_state)" "read_store (ds_instances demo_state) = Inr [sample_entry\<lparr>en_pid := 9\<rparr>]"
    "cfg_file_path demo_config \<noteq> []" "list_all (\<lambda>x. \<not> may_touch x (dw_pid demo_world)) [DeregisterOp good_env 9]"
    by (simp_all add: demo_world_def is_alive_def demo_state_def store_ok_def entries_of_def read_store_def entry_ok_def
        sample_entry_def demo_config_def demo_loaded_def)
  have a: "ap_cfg (new_app\<lparr>ap_cfg := Some demo_config\<rparr>) = Some demo_config" "\<not> ap_offload (new_app\<lparr>ap_cfg := Some demo_config\<rparr>)"
    "\<not> ap_delegate (new_app\<lparr>ap_cfg := Some demo_config\<rparr>)" by (simp_all add: new_app_def)
  have p: "cfg_file_path demo_config = ''kubeport.yaml''" "dw_responds demo_world = (\<lambda>_. True)"
    by (simp_all add: demo_config_def demo_loaded_def demo_world_def)
  from one_daemon_per_config [OF demo_runs h(1-4) demo_endpoint h(5,6) refl a, of "''/elsewhere''" None] show ?thesis by (auto simp: p)
qed

text \<open>A reload forgets the command line.  A daemon that was started with a service added by a flag
  and another one disabled by a flag stops the one and starts the other when its file is reloaded: the
  reload reads the file alone.\<close>

theorem reload_drops_flags:
  "load_app_config demo_env demo_codecs demo_app = Inr (demo_app\<lparr>ap_cfg := Some demo_config\<rparr>)
   \<and> mg_order (start (new_manager demo_config)) = [''WEB'', ''mq'']
   \<and> set (mg_order (snd (reload_config (\<lambda>_ ks. ks) demo_env demo_codecs (ap_config_file demo_app) (start (new_manager demo_config)))))
       = {''web'', ''db'', ''mq''}"
proof (intro conjI)
  show "load_app_config demo_env demo_codecs demo_app = Inr (demo_app\<lparr>ap_cfg := Some demo_config\<rparr>)"
    using demo_spec demo_file by (simp add: load_app_config_def wrap_err_def) (simp add: demo_app_def new_app_def)
  show "mg_order (start (new_manager demo_config)) = [''WEB'', ''mq'']" by code_simp
  have "reload_config (\<lambda>_ ks. ks) demo_env demo_codecs (ap_config_file demo_app) m =
      (Some (fst (reload (\<lambda>_ ks. ks) demo_loaded m)), snd (reload (\<lambda>_ ks. ks) demo_loaded m))" for m
  proof -
    have "validate_config demo_loaded = Inr ()" by code_simp
    then show ?thesis by (simp add: reload_config_def demo_loads demo_app_def split: prod.split)
  qed
  moreover have "set (mg_order (snd (reload (\<lambda>_ ks. ks) demo_loaded (start (new_manager demo_config))))) = {''web'', ''db'', ''mq''}"
    by code_simp
  ultimately show "set (mg_order (snd (reload_config (\<lambda>_ ks. ks) demo_env demo_codecs (ap_config_file demo_app) (start (new_manager demo_config)))))
       = {''web'', ''db'', ''mq''}" by simp
qed

end
