(* ===== verification/Daemons.thy ===== *)
theory Daemons
  imports Lifecycle
begin

text \<open>
  The rest of a daemon's life (\<^verbatim>\<open>cmd_proxy.go\<close>, \<^verbatim>\<open>cmd_stop.go\<close>, \<^verbatim>\<open>cmd_misc.go\<close>, \<^verbatim>\<open>cmd_reload.go\<close> and
  \<^verbatim>\<open>cmd_start.go\<close> of \<^verbatim>\<open>internal/cli\<close>): the hidden daemon command with its flags, delegates, the proxies a
  daemon starts by itself, dialling other instances, and stopping and restarting.
\<close>

subsection \<open>Dialling an instance\<close>

datatype entry_target = EntryTCP string string | EntryUnix string | NoEndpoint

definition dial_entry :: "os_env \<Rightarrow> codecs \<Rightarrow> app \<Rightarrow> entry \<Rightarrow> entry_target" where
  "dial_entry env cd a e =
     (if en_tcp_address e \<noteq> [] then
        EntryTCP (en_tcp_address e)
          (if ap_api_key a = [] \<and> en_config_file e \<noteq> []
           then (case load_config env cd (en_config_file e) of Inl _ \<Rightarrow> ap_api_key a | Inr cfg \<Rightarrow> cfg_api_key cfg)
           else ap_api_key a)
      else if en_socket e \<noteq> [] then EntryUnix (en_socket e)
      else NoEndpoint)"

text \<open>\<^verbatim>\<open>dialWithTimeout\<close>: the dial ends at a time with an error or a connection.  The results are what
  the caller gets and the connections that are closed behind its back.\<close>

definition dial_with_timeout :: "int \<Rightarrow> int \<times> ('e + 'c) \<Rightarrow> ('e + 'c option) \<times> 'c list" where
  "dial_with_timeout timeout dial =
     (case dial of (ended, r) \<Rightarrow>
        if ended < timeout then ((case r of Inl e \<Rightarrow> Inl e | Inr c \<Rightarrow> Inr (Some c)), [])
        else (Inr None, (case r of Inl _ \<Rightarrow> [] | Inr c \<Rightarrow> [c])))"

text \<open>\<^verbatim>\<open>queryLiveInstances\<close>: \<open>reply\<close> is the status of an instance, if it could be dialled and asked, and
  \<open>arrival\<close> the order in which the replies come in.\<close>

definition query_live ::
    "(entry \<Rightarrow> forward_status list option) \<Rightarrow> (live_instance list \<Rightarrow> live_instance list) \<Rightarrow> entry list \<Rightarrow> live_instance list" where
  "query_live reply arrival entries =
     arrival (List.map_filter (\<lambda>e. map_option (\<lambda>fws. \<lparr>li_entry = e, li_forwards = fws\<rparr>) (reply e)) entries)"

text \<open>What \<^verbatim>\<open>printConflictingInstances\<close> reports after a start that failed.\<close>

datatype conflict_notice = NoNotice | PortConflicts "conflict_entry list" | OtherInstances "entry list"

definition conflicting_instances ::
    "app \<Rightarrow> (registry_err + entry list) \<Rightarrow> (entry list \<Rightarrow> live_instance list) \<Rightarrow> conflict_notice" where
  "conflicting_instances a listed query =
     (case listed of
        Inl _ \<Rightarrow> NoNotice
      | Inr [] \<Rightarrow> NoNotice
      | Inr es \<Rightarrow>
          (let svcs = (case ap_cfg a of None \<Rightarrow> [] | Some cfg \<Rightarrow> cfg_services cfg);
               conflicts = (if svcs = [] then [] else fst (build_conflict_report (port_owners (query es)) svcs))
           in if conflicts = [] then OtherInstances es else PortConflicts conflicts))"

subsection \<open>The daemon command\<close>

text \<open>The flags \<^verbatim>\<open>cmdDaemon\<close> reads of the arguments that are left; a flag at the end without its value
  and every other argument is passed over.\<close>

fun daemon_flags :: "string list \<Rightarrow> app \<Rightarrow> app" where
  "daemon_flags [] a = a"
| "daemon_flags [f] a =
     (if f = ''--no-config'' then a\<lparr>ap_no_config := True\<rparr>
      else if f = ''--delegate'' then a\<lparr>ap_delegate := True\<rparr>
      else a)"
| "daemon_flags (f # v # rest) a =
     (if f = ''--config'' \<or> f = ''-c'' then daemon_flags rest (a\<lparr>ap_config_file := v\<rparr>)
      else if f = ''--context'' \<or> f = ''--kube-context'' then daemon_flags rest (a\<lparr>ap_context := v\<rparr>)
      else if f = ''--namespace'' \<or> f = ''-n'' then daemon_flags rest (a\<lparr>ap_namespace := v\<rparr>)
      else if f = ''--svc'' then daemon_flags rest (a\<lparr>ap_services := ap_services a @ [v]\<rparr>)
      else if f = ''--disable-svc'' then daemon_flags rest (a\<lparr>ap_disabled := ap_disabled a @ [v]\<rparr>)
      else if f = ''--no-config'' then daemon_flags (v # rest) (a\<lparr>ap_no_config := True\<rparr>)
      else if f = ''--delegate'' then daemon_flags (v # rest) (a\<lparr>ap_delegate := True\<rparr>)
      else if f = ''--primary-socket'' then daemon_flags rest (a\<lparr>ap_primary_socket := v\<rparr>)
      else daemon_flags (v # rest) a)"

text \<open>\<^verbatim>\<open>runProxy\<close>, which hands a delegate to \<^verbatim>\<open>runDelegateProxy\<close>: no manager, only the files and the
  registration.\<close>

definition run_daemon :: "daemon_world \<Rightarrow> app \<Rightarrow> config \<Rightarrow> daemon_state \<Rightarrow> daemon_exit option \<times> daemon_state" where
  "run_daemon w a cfg d = (if ap_delegate a then (None, announce w a cfg d) else run_proxy w a cfg d)"

definition cmd_daemon ::
    "codecs \<Rightarrow> daemon_world \<Rightarrow> string list \<Rightarrow> app \<Rightarrow> daemon_state \<Rightarrow> cli_cfg_err + daemon_exit option \<times> daemon_state" where
  "cmd_daemon cd w args a0 d =
     (let a = daemon_flags args a0
      in case ap_cfg a of
           Some cfg \<Rightarrow> Inr (run_daemon w a cfg d)
         | None \<Rightarrow>
             sbind (load_app_config (ds_os d) cd a) (\<lambda>a1.
               case ap_cfg a1 of None \<Rightarrow> Inr (None, d) | Some cfg \<Rightarrow> Inr (run_daemon w a1 cfg d)))"

text \<open>The end of a delegate: it releases, on the primary \<open>s\<close>, what it had handed over, and then cleans
  up.\<close>

definition delegate_exit ::
    "'s supervisor_ops \<Rightarrow> daemon_world \<Rightarrow> app \<Rightarrow> config \<Rightarrow> daemon_state \<Rightarrow> 's server \<Rightarrow> daemon_state \<times> 's server" where
  "delegate_exit ops w a cfg d s =
     (d\<lparr>ds_os := remove_file (pid_file (ds_os d) (dw_sha256 w) cfg) (ds_os d),
        ds_instances := snd (deregister (dw_lock w) (dw_pid w) (ds_instances d))\<rparr>,
      release_on_stop ops (os_cwd (ds_os d)) cfg (file_exists (ds_os d) (ap_primary_socket a)) (ap_primary_socket a) s)"

text \<open>\<^verbatim>\<open>autoStartSOCKS\<close> and \<^verbatim>\<open>autoStartHTTPProxy\<close>: the address, the credentials and the options of the
  client they make; \<open>fallback\<close> is the default address.\<close>

definition auto_start ::
    "os_env \<Rightarrow> (string \<Rightarrow> string) \<Rightarrow> app \<Rightarrow> string \<Rightarrow> proxy_server_config \<Rightarrow> proxy_flags \<times> client_option list" where
  "auto_start env sha256 a fallback px =
     (let f = \<lparr>pf_listen = (if px_listen px = [] then fallback else px_listen px), pf_domain = [],
               pf_username = px_username px, pf_password = px_password px\<rparr>
      in (f, connect_options env sha256 a px f))"

subsection \<open>Stopping\<close>

datatype signal = Term int | Kill int

text \<open>\<^verbatim>\<open>cmdStopLegacy\<close> looks ten times, every half second, whether the process answers; \<open>alive\<close> is the
  answer to each look.  The result counts the looks.\<close>

fun looks :: "nat \<Rightarrow> (nat \<Rightarrow> bool) \<Rightarrow> nat \<Rightarrow> nat" where
  "looks 0 alive i = i"
| "looks (Suc k) alive i = (if alive i then looks k alive (Suc i) else Suc i)"

definition stop_signals :: "int \<Rightarrow> (nat \<Rightarrow> bool) \<Rightarrow> signal list" where
  "stop_signals pid alive = [Term (- pid)] @ (if alive (looks 10 alive 0) then [Kill (- pid)] else [])"

definition cmd_stop_legacy ::
    "(int \<Rightarrow> bool) \<Rightarrow> (string \<Rightarrow> string) \<Rightarrow> app \<Rightarrow> (nat \<Rightarrow> bool) \<Rightarrow> os_env \<Rightarrow> signal list \<times> os_env" where
  "cmd_stop_legacy responds sha256 a alive env =
     (case is_running responds sha256 a env of
        (None, env1) \<Rightarrow> ([], env1)
      | (Some pid, env1) \<Rightarrow>
          (stop_signals pid alive,
           remove_file (case ap_cfg a of None \<Rightarrow> ''.kubeport.pid'' | Some cfg \<Rightarrow> pid_file env1 sha256 cfg) env1))"

text \<open>How the stop call went; a daemon that shuts down may drop the connection.\<close>

datatype stop_answer = StopDone | StopUnavailable | StopRefused

definition cmd_stop ::
    "(int \<Rightarrow> bool) \<Rightarrow> (string \<Rightarrow> string) \<Rightarrow> app \<Rightarrow> stop_answer \<Rightarrow> (nat \<Rightarrow> bool) \<Rightarrow> os_env \<Rightarrow> signal list \<times> os_env" where
  "cmd_stop responds sha256 a ans alive env =
     (case dial_target_of env sha256 a of
        NotRunning \<Rightarrow> cmd_stop_legacy responds sha256 a alive env
      | KeyRequired \<Rightarrow> cmd_stop_legacy responds sha256 a alive env
      | _ \<Rightarrow> (case ans of StopRefused \<Rightarrow> cmd_stop_legacy responds sha256 a alive env | _ \<Rightarrow> ([], env)))"

text \<open>\<^verbatim>\<open>waitForExit\<close>: polls every 200 milliseconds for ten seconds; each poll says whether the process
  answers and whether the socket is there.  The result is whether the daemon is seen to be gone.\<close>

definition wait_for_exit :: "(bool \<times> bool) list \<Rightarrow> bool" where
  "wait_for_exit polls = list_ex (\<lambda>(running, socket). \<not> running \<and> \<not> socket) (take 50 polls)"

text \<open>\<^verbatim>\<open>cmdRestart\<close> starts whether or not the wait saw the daemon go.\<close>

definition cmd_restart ::
    "(int \<Rightarrow> bool) \<Rightarrow> (string \<Rightarrow> string) \<Rightarrow> app \<Rightarrow> stop_answer \<Rightarrow> (nat \<Rightarrow> bool) \<Rightarrow> (int \<Rightarrow> bool)
       \<Rightarrow> status_msg list option \<Rightarrow> entry option \<Rightarrow> os_env \<Rightarrow> signal list \<times> start_action \<times> os_env" where
  "cmd_restart responds sha256 a ans alive responds_later st existing env =
     (case cmd_stop responds sha256 a ans alive env of
        (sigs, env1) \<Rightarrow>
          (case is_running responds_later sha256 a env1 of
             (running, env2) \<Rightarrow> (sigs, cmd_start a running st existing, env2)))"

subsection \<open>Asking for a reload\<close>

datatype reload_end = ReloadNoKey | ReloadNotRunning | ReloadError rpc_err | Reloaded int int

definition cmd_reload :: "dial_target \<Rightarrow> rpc_err + response \<Rightarrow> reload_end" where
  "cmd_reload tgt ans =
     (case tgt of
        KeyRequired \<Rightarrow> ReloadNoKey
      | NotRunning \<Rightarrow> ReloadNotRunning
      | _ \<Rightarrow> (case ans of
                Inl e \<Rightarrow> ReloadError e
              | Inr (ReloadResponse added removed) \<Rightarrow> Reloaded added removed
              | Inr _ \<Rightarrow> Reloaded 0 0))"

end
