(* ===== verification/Output.thy ===== *)
theory Output
  imports Daemons
begin

text \<open>
  What the commands print (\<^verbatim>\<open>cmd_status.go\<close>, \<^verbatim>\<open>cmd_watch.go\<close>, \<^verbatim>\<open>cmd_instances.go\<close>, \<^verbatim>\<open>cmd_mappings.go\<close> and
  \<^verbatim>\<open>cmd_misc.go\<close> of \<^verbatim>\<open>internal/cli\<close>).  Text is bytes, so that a character outside ASCII is its UTF-8
  encoding.  Documents that are encoded as JSON are records.  The current time is an input, as are the
  texts of times, which depend on the time zone.
\<close>

subsection \<open>Text\<close>

definition line_feed :: char where "line_feed = CHR 0x0A"
definition escape :: char where "escape = CHR 0x1B"

definition color :: "string \<Rightarrow> string" where
  "color code = escape # CHR ''['' # ''0'' @ code @ ''m''"

definition color_red :: string where "color_red = color '';31''"
definition color_green :: string where "color_green = color '';32''"
definition color_yellow :: string where "color_yellow = color '';33''"
definition color_cyan :: string where "color_cyan = color '';36''"
definition color_reset :: string where "color_reset = color []"

definition glyph :: "char \<Rightarrow> char \<Rightarrow> string" where
  "glyph b c = [CHR 0xE2, b, c]"

definition repeat_text :: "nat \<Rightarrow> string \<Rightarrow> string" where
  "repeat_text n s = concat (replicate n s)"

text \<open>\<^verbatim>\<open>time.Duration.String\<close>.\<close>

definition frac_text :: "nat \<Rightarrow> int \<Rightarrow> string" where
  "frac_text prec v =
     (let ds = itoa (v mod 10 ^ prec);
          t = trim_right_char (CHR ''0'') (replicate (prec - length ds) (CHR ''0'') @ ds)
      in if t = [] then [] else CHR ''.'' # t)"

definition duration_text :: "int \<Rightarrow> string" where
  "duration_text d =
     (let u = \<bar>d\<bar>;
          s = u div sec;
          m = s div 60;
          seconds = itoa (s mod 60) @ frac_text 9 u @ ''s'';
          minutes = (if m div 60 = 0 then itoa m else itoa (m div 60) @ ''h'' @ itoa (m mod 60)) @ ''m''
      in if u = 0 then ''0s''
         else (if d < 0 then ''-'' else []) @
           (if u < microsec then itoa u @ ''ns''
            else if u < millisec then itoa (u div microsec) @ frac_text 3 u @ [CHR 0xC2, CHR 0xB5] @ ''s''
            else if u < sec then itoa (u div millisec) @ frac_text 6 u @ ''ms''
            else (if m = 0 then [] else minutes) @ seconds))"

text \<open>\<^verbatim>\<open>Round(time.Second)\<close> of a positive duration.\<close>

definition round_second :: "int \<Rightarrow> int" where
  "round_second d =
     (let r = d mod sec
      in if r + r < sec then d - r else if d + (sec - r) < 2 ^ 63 then d + (sec - r) else 2 ^ 63 - 1)"

text \<open>\<^verbatim>\<open>%.1f\<close>: the exact value rounded to one decimal, ties to even.\<close>

definition fixed1 :: "f64 \<Rightarrow> string" where
  "fixed1 x =
     (case x of
        Fin r \<Rightarrow> (let n = round_even (\<bar>r\<bar> * 10)
                   in (if r < 0 then ''-'' else []) @ itoa (n div 10) @ ''.'' @ itoa (n mod 10))
      | PInf \<Rightarrow> ''+Inf'' | NInf \<Rightarrow> ''-Inf'' | NaN \<Rightarrow> ''NaN'')"

definition f_over :: "f64 \<Rightarrow> rat \<Rightarrow> f64" where
  "f_over x k = f_scale x (1 / k)"

definition format_bandwidth :: "int \<Rightarrow> string" where
  "format_bandwidth bytes_per_sec =
     (let bits = f_scale (fround (of_int bytes_per_sec)) 8
      in if f_leq (Fin 1000000000) bits then fixed1 (f_over bits 1000000000) @ '' Gbps''
         else if f_leq (Fin 1000000) bits then fixed1 (f_over bits 1000000) @ '' Mbps''
         else if f_leq (Fin 1000) bits then fixed1 (f_over bits 1000) @ '' Kbps''
         else itoa (f_to_int bits) @ '' bps'')"

definition format_bytes :: "int \<Rightarrow> string" where
  "format_bytes b =
     (if 1024 * (1024 * 1024) \<le> b then fixed1 (f_over (fround (of_int b)) (2 ^ 30)) @ '' GB''
      else if 1024 * 1024 \<le> b then fixed1 (f_over (fround (of_int b)) (2 ^ 20)) @ '' MB''
      else if 1024 \<le> b then fixed1 (f_over (fround (of_int b)) (2 ^ 10)) @ '' KB''
      else itoa b @ '' B'')"

subsection \<open>The width of a line\<close>

text \<open>The characters of the parameters of an escape sequence.\<close>

definition parameter_char :: "char \<Rightarrow> bool" where
  "parameter_char c = (is_digit c \<or> c = CHR '';'')"

text \<open>Removal of what \<^verbatim>\<open>\x1b\[[0-9;]*m\<close> matches.\<close>

function strip_ansi :: "string \<Rightarrow> string" where
  "strip_ansi [] = []"
| "strip_ansi (c # s) =
     (if c = escape \<and> s \<noteq> [] \<and> hd s = CHR ''[''
          \<and> (case dropWhile parameter_char (tl s) of [] \<Rightarrow> False | d # _ \<Rightarrow> d = CHR ''m'')
      then strip_ansi (tl (dropWhile parameter_char (tl s)))
      else c # strip_ansi s)"
  by pat_completeness auto
termination
proof (relation "measure length", goal_cases)
  case (2 c s)
  have "length (dropWhile parameter_char (tl s)) \<le> length (tl s)" by (rule length_dropWhile_le)
  then show ?case by (cases s) (auto simp: le_imp_less_Suc)
qed simp_all

text \<open>\<^verbatim>\<open>utf8.RuneCountInString\<close>: a byte that does not start a valid encoding counts as one.\<close>

definition in_range :: "nat \<Rightarrow> nat \<Rightarrow> char \<Rightarrow> bool" where
  "in_range a b c = (a \<le> char_val c \<and> char_val c \<le> b)"

definition rune_tail :: "char \<Rightarrow> (char \<Rightarrow> bool) list" where
  "rune_tail c =
     (let cont = in_range 0x80 0xBF
      in if in_range 0xC2 0xDF c then [cont]
         else if in_range 0xE0 0xE0 c then [in_range 0xA0 0xBF, cont]
         else if in_range 0xED 0xED c then [in_range 0x80 0x9F, cont]
         else if in_range 0xE1 0xEF c then [cont, cont]
         else if in_range 0xF0 0xF0 c then [in_range 0x90 0xBF, cont, cont]
         else if in_range 0xF1 0xF3 c then [cont, cont, cont]
         else if in_range 0xF4 0xF4 c then [in_range 0x80 0x8F, cont, cont]
         else [])"

fun matches :: "(char \<Rightarrow> bool) list \<Rightarrow> string \<Rightarrow> bool" where
  "matches [] s = True"
| "matches (p # ps) [] = False"
| "matches (p # ps) (c # s) = (p c \<and> matches ps s)"

function rune_count :: "string \<Rightarrow> nat" where
  "rune_count [] = 0"
| "rune_count (c # s) =
     Suc (rune_count (if matches (rune_tail c) s then drop (length (rune_tail c)) s else s))"
  by pat_completeness auto
termination
  by (relation "measure length") auto

declare strip_ansi.simps(2) [simp del] rune_count.simps(2) [simp del]

definition visible_len :: "string \<Rightarrow> nat" where
  "visible_len s = rune_count (strip_ansi s)"

subsection \<open>Boxes\<close>

definition box_vertical :: string where "box_vertical = glyph (CHR 0x94) (CHR 0x82)"

definition box_width :: "string list \<Rightarrow> nat" where
  "box_width ls = foldl (\<lambda>w l. if w < visible_len l then visible_len l else w) 0 ls"

definition box_rule :: "char \<Rightarrow> char \<Rightarrow> nat \<Rightarrow> string" where
  "box_rule left right width =
     color_cyan @ glyph (CHR 0x94) left @ repeat_text (width + 2) (glyph (CHR 0x94) (CHR 0x80))
       @ glyph (CHR 0x94) right @ color_reset"

definition box_line :: "nat \<Rightarrow> string \<Rightarrow> string" where
  "box_line width l =
     color_cyan @ box_vertical @ color_reset @ '' '' @ l @ replicate (width - visible_len l) (CHR '' '')
       @ '' '' @ color_cyan @ box_vertical @ color_reset"

definition box_content :: "string \<Rightarrow> string list" where
  "box_content content = split_char line_feed (trim_right_char line_feed content)"

definition box_lines :: "string \<Rightarrow> string list" where
  "box_lines content =
     (let ls = box_content content; w = box_width ls
      in [box_rule (CHR 0x8C) (CHR 0x90) w] @ map (box_line w) ls @ [box_rule (CHR 0x94) (CHR 0x98) w])"

definition draw_box :: "string \<Rightarrow> string" where
  "draw_box content = concat (map (\<lambda>l. l @ [line_feed]) (box_lines content))"

text \<open>\<^verbatim>\<open>writeRaw\<close>.\<close>

definition raw_text :: "bool \<Rightarrow> string \<Rightarrow> string" where
  "raw_text raw s = (if raw then concat (map (\<lambda>c. if c = line_feed then [CHR 0x0D, line_feed] else [c]) s) else s)"

subsection \<open>The status of a forward\<close>

definition state_look :: "proto_state \<Rightarrow> string \<times> string \<times> string" where
  "state_look st =
     (case st of
        ProtoRunning \<Rightarrow> (color_green, ''running'', glyph (CHR 0x97) (CHR 0x8F))
      | ProtoStarting \<Rightarrow> (color_yellow, ''starting'', glyph (CHR 0x97) (CHR 0x8C))
      | ProtoWaiting \<Rightarrow> (color_yellow, ''waiting'', glyph (CHR 0x97) (CHR 0x8C))
      | ProtoFailed \<Rightarrow> (color_red, ''failed'', glyph (CHR 0x9C) (CHR 0x97))
      | ProtoStopped \<Rightarrow> (color_red, ''stopped'', glyph (CHR 0x97) (CHR 0x8B))
      | ProtoExternal \<Rightarrow> (color_cyan, ''external'', glyph (CHR 0xA4) (CHR 0xB5))
      | ProtoUnspecified \<Rightarrow> (color_yellow, ''unknown'', ''?''))"

text \<open>\<^verbatim>\<open>Duration.Seconds\<close> and the division of a byte count by it.\<close>

definition f_seconds :: "int \<Rightarrow> f64" where
  "f_seconds d =
     (case fround (of_int (d mod sec) / of_int sec) of
        Fin b \<Rightarrow> fround (of_int (d div sec) + b) | y \<Rightarrow> y)"

definition bytes_rate :: "int \<Rightarrow> f64 \<Rightarrow> int" where
  "bytes_rate n s =
     (case (fround (of_int n), s) of
        (Fin a, Fin b) \<Rightarrow> f_to_int (fround (a / b))
      | _ \<Rightarrow> - (2 ^ 63))"

definition traffic_text :: "int \<Rightarrow> status_msg \<Rightarrow> string" where
  "traffic_text now fw =
     (if 0 < sm_bytes_in fw \<or> 0 < sm_bytes_out fw
      then '' (in: '' @ format_bytes (sm_bytes_in fw) @ '', out: '' @ format_bytes (sm_bytes_out fw) @
        (let elapsed = f_seconds (now - sm_last_start fw)
         in if sm_state fw = ProtoRunning \<and> f_less (Fin 0) elapsed
            then '', '' @ format_bytes (bytes_rate (wrap64 (sm_conn_bytes_in fw + sm_conn_bytes_out fw)) elapsed) @ ''/s''
            else []) @ '')''
      else [])"

definition network_text :: "status_msg \<Rightarrow> string" where
  "network_text fw =
     (if 0 < sm_latency_ms fw \<or> 0 < sm_bandwidth fw
      then '' [net:'' @
        (if 0 < sm_latency_ms fw
         then '' '' @ itoa (sm_latency_ms fw) @ ''ms'' @
           (if 0 < sm_jitter_ms fw then ''+/-'' @ itoa (sm_jitter_ms fw) @ ''ms'' else [])
         else []) @
        (if 0 < sm_bandwidth fw then '' '' @ format_bandwidth (sm_bandwidth fw) else []) @ '']''
      else [])"

definition chaos_text :: "status_msg \<Rightarrow> string" where
  "chaos_text fw =
     (if sm_chaos_enabled fw
      then '' [chaos: err='' @ fixed1 (f_scale (sm_chaos_error_rate fw) 100) @ ''%'' @
        (if f_less (Fin 0) (sm_chaos_spike_probability fw)
         then '' spike='' @ fixed1 (f_scale (sm_chaos_spike_probability fw) 100) @ ''%/'' @
           itoa (sm_chaos_spike_ms fw) @ ''ms''
         else []) @
        (if 0 < sm_errors_injected fw \<or> 0 < sm_spikes_injected fw
         then '' (errs:'' @ itoa (sm_errors_injected fw) @ '' spikes:'' @ itoa (sm_spikes_injected fw) @ '')''
         else []) @ '']''
      else [])"

definition owner_text :: "status_msg \<Rightarrow> string" where
  "owner_text fw =
     (if sm_source_config fw \<noteq> [] then '' (from: '' @ path_base (sm_source_config fw) @ '')'' else []) @
     (if sm_state fw = ProtoExternal
      then (if 0 < sm_external_pid fw then '' [managed by PID '' @ itoa (sm_external_pid fw) @ '']'' else []) @
        (if sm_external_instance fw \<noteq> [] then '' [via '' @ sm_external_instance fw @ '']'' else [])
      else [])"

definition retry_text :: "int \<Rightarrow> status_msg \<Rightarrow> string" where
  "retry_text now fw =
     (case sm_next_retry fw of
        None \<Rightarrow> []
      | Some t \<Rightarrow>
          line_feed # ''         '' @
          (if 0 < t - now then ''Reconnecting in '' @ duration_text (round_second (t - now)) else ''Reconnecting now''))"

definition write_forward_status :: "int \<Rightarrow> status_msg \<Rightarrow> string" where
  "write_forward_status now fw =
     (case state_look (sm_state fw) of
        (col, text, mark) \<Rightarrow>
          ''  '' @ col @ mark @ color_reset @ '' '' @ si_name (sm_service fw) @ '':'' @
          (if 0 < sm_actual_port fw then '' localhost:'' @ itoa (sm_actual_port fw) @ '' ->'' else []) @
          '' :'' @ itoa (si_remote_port (sm_service fw)) @ '' ['' @ col @ text @ color_reset @ '']'' @
          (if 0 < sm_restarts fw then '' (restarts: '' @ itoa (sm_restarts fw) @ '')'' else []) @
          traffic_text now fw @ network_text fw @ chaos_text fw @
          (if sm_lazy fw then (if sm_tunnel_open fw then '' [lazy: tunnel open]'' else '' [lazy: no traffic yet]'') else []) @
          (if sm_connection_mode fw = ''isolated'' then '' [isolated]'' else []) @
          owner_text fw @
          (if sm_error fw \<noteq> [] then line_feed # ''         '' @ color_red @ ''ERROR: '' @ sm_error fw @ color_reset else []) @
          retry_text now fw)"

subsection \<open>The status command\<close>

record proxy_status =
  ps_enabled :: bool
  ps_listen :: string

definition proxy_status_of :: "string \<Rightarrow> proxy_server_config \<Rightarrow> proxy_status option" where
  "proxy_status_of fallback px =
     (if proxy_is_enabled px \<or> px_listen px \<noteq> []
      then Some \<lparr>ps_enabled = proxy_is_enabled px, ps_listen = (if px_listen px = [] then fallback else px_listen px)\<rparr>
      else None)"

definition proxy_status_from_config :: "app \<Rightarrow> proxy_status option \<times> proxy_status option" where
  "proxy_status_from_config a =
     (case ap_cfg a of
        None \<Rightarrow> (None, None)
      | Some cfg \<Rightarrow>
          (proxy_status_of ''127.0.0.1:1080'' (cfg_socks cfg), proxy_status_of ''127.0.0.1:3128'' (cfg_http_proxy cfg)))"

definition proxy_line :: "string \<Rightarrow> proxy_status \<Rightarrow> string" where
  "proxy_line label p =
     ''  '' @ label @ '' '' @ ps_listen p @ '' ['' @
       (if ps_enabled p then color_green @ ''auto'' else color_yellow @ ''manual'') @ color_reset @ '']''"

definition proxy_lines :: "proxy_status option \<times> proxy_status option \<Rightarrow> string list" where
  "proxy_lines ps =
     (case ps of (socks, http) \<Rightarrow>
        (case socks of None \<Rightarrow> [] | Some p \<Rightarrow> [proxy_line ''SOCKS5:    '' p]) @
        (case http of None \<Rightarrow> [] | Some p \<Rightarrow> [proxy_line ''HTTP proxy:'' p]))"

record forward_output =
  fo_name :: string
  fo_state :: string
  fo_local_port :: int
  fo_remote_port :: int
  fo_target :: string
  fo_namespace :: string
  fo_parent_name :: string
  fo_port_name :: string
  fo_restarts :: int
  fo_error :: string
  fo_next_retry :: string
  fo_bytes_in :: int
  fo_bytes_out :: int
  fo_latency_ms :: int
  fo_jitter_ms :: int
  fo_bandwidth :: int
  fo_chaos_enabled :: bool
  fo_chaos_error_rate :: f64
  fo_errors_injected :: int
  fo_spikes_injected :: int
  fo_lazy :: bool
  fo_tunnel_open :: bool
  fo_connection_mode :: string
  fo_source_config :: string
  fo_external_instance :: string
  fo_external_pid :: int

definition state_label :: "proto_state \<Rightarrow> string" where
  "state_label st =
     (case st of
        ProtoUnspecified \<Rightarrow> ''unspecified'' | ProtoStarting \<Rightarrow> ''starting'' | ProtoRunning \<Rightarrow> ''running''
      | ProtoFailed \<Rightarrow> ''failed'' | ProtoStopped \<Rightarrow> ''stopped'' | ProtoWaiting \<Rightarrow> ''waiting''
      | ProtoExternal \<Rightarrow> ''external'')"

definition forward_from_proto :: "(int \<Rightarrow> string) \<Rightarrow> status_msg \<Rightarrow> forward_output" where
  "forward_from_proto stamp fw =
     (let s = sm_service fw
      in \<lparr>fo_name = si_name s, fo_state = state_label (sm_state fw), fo_local_port = sm_actual_port fw,
          fo_remote_port = si_remote_port s, fo_target = or_string (si_service s) (si_pod s),
          fo_namespace = si_namespace s, fo_parent_name = si_parent_name s, fo_port_name = si_port_name s,
          fo_restarts = sm_restarts fw, fo_error = sm_error fw,
          fo_next_retry = (case sm_next_retry fw of None \<Rightarrow> [] | Some t \<Rightarrow> stamp t),
          fo_bytes_in = sm_bytes_in fw, fo_bytes_out = sm_bytes_out fw, fo_latency_ms = sm_latency_ms fw,
          fo_jitter_ms = sm_jitter_ms fw, fo_bandwidth = sm_bandwidth fw,
          fo_chaos_enabled = sm_chaos_enabled fw, fo_chaos_error_rate = sm_chaos_error_rate fw,
          fo_errors_injected = sm_errors_injected fw, fo_spikes_injected = sm_spikes_injected fw,
          fo_lazy = sm_lazy fw, fo_tunnel_open = sm_tunnel_open fw, fo_connection_mode = sm_connection_mode fw,
          fo_source_config = sm_source_config fw, fo_external_instance = sm_external_instance fw,
          fo_external_pid = sm_external_pid fw\<rparr>)"

record status_output =
  so_running :: bool
  so_cli_version :: string
  so_daemon_version :: string
  so_context :: string
  so_namespace :: string
  so_config :: string
  so_socks :: "proxy_status option"
  so_http :: "proxy_status option"
  so_forwards :: "forward_output list"

definition not_running_output :: "bool \<Rightarrow> status_output" where
  "not_running_output running =
     \<lparr>so_running = running, so_cli_version = [], so_daemon_version = [], so_context = [], so_namespace = [],
      so_config = [], so_socks = None, so_http = None, so_forwards = []\<rparr>"

text \<open>What the status command prints: a JSON document, or lines.\<close>

datatype printed = Document status_output | Lines "string list"

definition version_lines :: "string \<Rightarrow> string \<Rightarrow> string list" where
  "version_lines cli daemon =
     (if cli \<noteq> [] \<or> daemon \<noteq> []
      then [[], ''CLI version:    '' @ cli, ''Daemon version: '' @ daemon] @
        (if cli \<noteq> [] \<and> daemon \<noteq> [] \<and> cli \<noteq> daemon
         then [color_yellow @ ''Warning: CLI and daemon versions differ '' @ glyph (CHR 0x80) (CHR 0x94) @
                 '' consider restarting the daemon'' @ color_reset]
         else [])
      else [])"

text \<open>\<open>order\<close> is \<^verbatim>\<open>slices.SortFunc\<close> by name, which leaves open the order of equal names.\<close>

definition sorted_forwards :: "(status_msg list \<Rightarrow> status_msg list) \<Rightarrow> app \<Rightarrow> status_msg list \<Rightarrow> status_msg list" where
  "sorted_forwards order a fws = (if ap_sort a then order fws else fws)"

definition heading :: "string list" where
  "heading = [color_cyan @ ''Proxy Status'' @ color_reset]"

text \<open>The lines between the heading and the forwards, which the status command and the watch share.\<close>

definition running_lines :: "app \<Rightarrow> string \<Rightarrow> string \<Rightarrow> string \<Rightarrow> string \<Rightarrow> string list" where
  "running_lines a cli daemon ctx nsp =
     heading @ [[], ''Status: '' @ color_green @ ''Running'' @ color_reset @ '' (gRPC)''] @ version_lines cli daemon @
     [[], ''Context:   '' @ ctx, ''Namespace: '' @ nsp] @
     (if ap_config_file a \<noteq> [] then [''Config:    '' @ ap_config_file a] else []) @
     (let ps = proxy_lines (proxy_status_from_config a) in if ps = [] then [] else [[], ''Proxies:''] @ ps)"

definition forward_lines :: "int \<Rightarrow> status_msg list \<Rightarrow> string list" where
  "forward_lines now fws = (if fws = [] then [] else [[], ''Forwards:''] @ map (write_forward_status now) fws)"

definition legacy_services :: "(service_config list \<Rightarrow> service_config list) \<Rightarrow> app \<Rightarrow> service_config list" where
  "legacy_services order a =
     (case ap_cfg a of None \<Rightarrow> [] | Some cfg \<Rightarrow> if ap_sort a then order (cfg_services cfg) else cfg_services cfg)"

definition print_port_status :: "(int \<Rightarrow> bool) \<Rightarrow> service_config \<Rightarrow> string" where
  "print_port_status is_open svc =
     (if svc_local_port svc = 0
      then ''  '' @ color_yellow @ ''~'' @ color_reset @ '' '' @ svc_name svc @ '': dynamic port (check logs)''
      else if is_open (svc_local_port svc)
      then ''  '' @ color_green @ glyph (CHR 0x97) (CHR 0x8F) @ color_reset @ '' '' @ svc_name svc @ '': localhost:'' @
             itoa (svc_local_port svc)
      else ''  '' @ color_red @ glyph (CHR 0x97) (CHR 0x8B) @ color_reset @ '' '' @ svc_name svc @ '': localhost:'' @
             itoa (svc_local_port svc) @ '' (not connected)'')"

definition legacy_forward :: "(int \<Rightarrow> bool) \<Rightarrow> bool \<Rightarrow> service_config \<Rightarrow> forward_output" where
  "legacy_forward is_open running svc =
     \<lparr>fo_name = svc_name svc,
      fo_state = (if running \<and> is_open (svc_local_port svc) then ''running'' else if running then ''unknown'' else ''stopped''),
      fo_local_port = svc_local_port svc, fo_remote_port = svc_remote_port svc,
      fo_target = or_string (svc_service svc) (svc_pod svc), fo_namespace = svc_namespace svc,
      fo_parent_name = [], fo_port_name = [], fo_restarts = 0, fo_error = [], fo_next_retry = [], fo_bytes_in = 0,
      fo_bytes_out = 0, fo_latency_ms = 0, fo_jitter_ms = 0, fo_bandwidth = 0, fo_chaos_enabled = False,
      fo_chaos_error_rate = Fin 0, fo_errors_injected = 0, fo_spikes_injected = 0, fo_lazy = False,
      fo_tunnel_open = False, fo_connection_mode = [], fo_source_config = [], fo_external_instance = [],
      fo_external_pid = 0\<rparr>"

text \<open>\<^verbatim>\<open>cmdStatusLegacy\<close>; \<open>running\<close> is the result of \<^verbatim>\<open>isRunning\<close>.\<close>

definition cmd_status_legacy ::
    "(service_config list \<Rightarrow> service_config list) \<Rightarrow> (int \<Rightarrow> bool) \<Rightarrow> app \<Rightarrow> int option \<Rightarrow> printed" where
  "cmd_status_legacy order is_open a running =
     (let svcs = legacy_services order a; ps = proxy_status_from_config a
      in if ap_json a then
           Document
             (case ap_cfg a of
                None \<Rightarrow> not_running_output (running \<noteq> None)
              | Some cfg \<Rightarrow>
                  (not_running_output (running \<noteq> None))
                    \<lparr>so_context := cfg_context cfg, so_namespace := cfg_namespace cfg, so_config := ap_config_file a,
                     so_socks := fst ps, so_http := snd ps,
                     so_forwards := map (legacy_forward is_open (running \<noteq> None)) svcs\<rparr>)
         else
           Lines (heading @
             [[], (case running of
                     Some pid \<Rightarrow> ''Status: '' @ color_green @ ''Running'' @ color_reset @ '' (PID: '' @ itoa pid @ '')''
                   | None \<Rightarrow> ''Status: '' @ color_red @ ''Stopped'' @ color_reset)] @
             (case ap_cfg a of
                None \<Rightarrow> []
              | Some cfg \<Rightarrow>
                  [[], ''Context:   '' @ cfg_context cfg, ''Namespace: '' @ cfg_namespace cfg,
                   ''Config:    '' @ ap_config_file a] @
                  (if proxy_lines ps = [] then [] else [[], ''Proxies:''] @ proxy_lines ps) @
                  [[], ''Port Status:''] @ map (print_port_status is_open) svcs) @
             [[], if running \<noteq> None then ''Use logs to view logs'' else ''Use start to start the proxy'']))"

text \<open>\<^verbatim>\<open>cmdStatusGRPC\<close>; \<open>ans\<close> is the status call's result, \<open>legacy\<close> what is printed when it fails.\<close>

definition cmd_status_grpc ::
    "(status_msg list \<Rightarrow> status_msg list) \<Rightarrow> (int \<Rightarrow> string) \<Rightarrow> int \<Rightarrow> string \<Rightarrow> app \<Rightarrow> rpc_err + response \<Rightarrow> printed \<Rightarrow> printed" where
  "cmd_status_grpc order stamp now cli_version a ans legacy =
     (case ans of
        Inr (StatusResponse ctx nsp fws0 daemon_version) \<Rightarrow>
          (let fws = sorted_forwards order a fws0
           in if ap_json a then
                Document \<lparr>so_running = True, so_cli_version = cli_version, so_daemon_version = daemon_version,
                  so_context = ctx, so_namespace = nsp, so_config = ap_config_file a,
                  so_socks = fst (proxy_status_from_config a), so_http = snd (proxy_status_from_config a),
                  so_forwards = map (forward_from_proto stamp) fws\<rparr>
              else Lines (running_lines a cli_version daemon_version ctx nsp @ forward_lines now fws @
                     [[], ''Use logs to view logs'']))
      | _ \<Rightarrow> if ap_json a then Document (not_running_output False) else legacy)"

subsection \<open>Watching\<close>

definition join_lines :: "string list \<Rightarrow> string" where
  "join_lines ls = join [line_feed] ls"

definition watch_interval :: "app \<Rightarrow> int" where
  "watch_interval a = (if ap_interval a \<le> 0 then 2 * sec else ap_interval a)"

text \<open>What a rendering finds: an error text of the dial, no daemon, an error text of the status call, or
  the status.\<close>

datatype watch_seen =
    WatchDialFailed string | WatchStopped | WatchFailed string | WatchStatus string string "status_msg list" string

definition watch_header :: "app \<Rightarrow> string \<Rightarrow> string list" where
  "watch_header a clock = [''Every '' @ duration_text (watch_interval a) @ '': kubeport status    '' @ clock, []]"

definition watch_lines ::
    "(status_msg list \<Rightarrow> status_msg list) \<Rightarrow> int \<Rightarrow> string \<Rightarrow> string \<Rightarrow> app \<Rightarrow> watch_seen \<Rightarrow> string list" where
  "watch_lines order now clock cli_version a seen =
     (case seen of
        WatchDialFailed t \<Rightarrow> [''Error connecting to daemon: '' @ t]
      | WatchStopped \<Rightarrow> watch_header a clock @ [''Status: '' @ color_red @ ''Stopped'' @ color_reset]
      | WatchFailed t \<Rightarrow> watch_header a clock @ [''Status: '' @ color_red @ ''Error'' @ color_reset @ '': '' @ t]
      | WatchStatus ctx nsp fws daemon_version \<Rightarrow>
          watch_header a clock @ running_lines a cli_version daemon_version ctx nsp @
          forward_lines now (sorted_forwards order a fws) @ [[], ''Press 'q' to exit''])"

definition render_watch ::
    "(status_msg list \<Rightarrow> status_msg list) \<Rightarrow> int \<Rightarrow> string \<Rightarrow> string \<Rightarrow> bool \<Rightarrow> app \<Rightarrow> watch_seen \<Rightarrow> string" where
  "render_watch order now clock cli_version raw a seen =
     raw_text raw (escape # ''[2J'' @ escape # ''[H'' @
       draw_box (join_lines (watch_lines order now clock cli_version a seen)))"

text \<open>The keys that end the watch: \<^verbatim>\<open>q\<close>, \<^verbatim>\<open>Q\<close> and control-C.\<close>

definition quits :: "char \<Rightarrow> bool" where
  "quits c = (c = CHR ''q'' \<or> c = CHR ''Q'' \<or> c = CHR 0x03)"

subsection \<open>Instances\<close>

record instance_json =
  ij_pid :: int
  ij_config_file :: string
  ij_pid_file :: string
  ij_log_file :: string
  ij_endpoint :: string
  ij_auth_enabled :: bool
  ij_key_id :: string
  ij_version :: string
  ij_uptime :: string
  ij_started_at :: string
  ij_delegate :: bool
  ij_primary_socket :: string

definition entry_to_json :: "(int \<Rightarrow> string) \<Rightarrow> int \<Rightarrow> entry \<Rightarrow> instance_json" where
  "entry_to_json stamp now e =
     \<lparr>ij_pid = en_pid e, ij_config_file = en_config_file e, ij_pid_file = en_pid_file e, ij_log_file = en_log_file e,
      ij_endpoint = entry_endpoint e, ij_auth_enabled = en_auth_enabled e, ij_key_id = en_key_id e,
      ij_version = en_version e, ij_uptime = format_uptime (now - en_started_at e),
      ij_started_at = stamp (en_started_at e), ij_delegate = en_delegate e, ij_primary_socket = en_primary_socket e\<rparr>"

definition role_of :: "entry \<Rightarrow> string" where
  "role_of e = (if en_delegate e then ''delegate'' else ''primary'')"

definition instance_row :: "int \<Rightarrow> entry \<Rightarrow> string list" where
  "instance_row now e =
     [itoa (en_pid e), format_uptime (now - en_started_at e), en_version e, role_of e, entry_endpoint e,
      entry_auth_label e, entry_config_label e]"

definition instance_details :: "entry \<Rightarrow> string list" where
  "instance_details e =
     [color_cyan @ ''PID '' @ itoa (en_pid e) @ color_reset @ '' ['' @ role_of e @ '']'',
      ''  Config:   '' @ (if en_config_file e \<noteq> [] then en_config_file e else ''(in-memory / CLI flags)'')] @
     (if en_delegate e \<and> en_primary_socket e \<noteq> [] then [''  Primary:  '' @ en_primary_socket e] else []) @
     (if en_pid_file e \<noteq> [] then [''  PID file: '' @ en_pid_file e] else []) @
     (if en_log_file e \<noteq> [] then [''  Log file: '' @ en_log_file e] else [])"

text \<open>The instances command: the documents of \<^verbatim>\<open>--json\<close>, nothing to show, or the rows of the table (whose
  columns the library aligns) with the details below.\<close>

datatype instances_output =
    RegistryFailed registry_err
  | InstanceDocuments "instance_json list"
  | NoInstances
  | InstanceTable "string list list" "string list"

definition cmd_instances ::
    "(int \<Rightarrow> string) \<Rightarrow> int \<Rightarrow> app \<Rightarrow> registry_err + entry list \<Rightarrow> instances_output" where
  "cmd_instances stamp now a listed =
     (case listed of
        Inl e \<Rightarrow> RegistryFailed e
      | Inr es \<Rightarrow>
          if ap_json a then InstanceDocuments (map (entry_to_json stamp now) es)
          else if es = [] then NoInstances
          else InstanceTable
                 ([''PID'', ''UPTIME'', ''VERSION'', ''ROLE'', ''ENDPOINT'', ''API KEY'', ''CONFIG''] # map (instance_row now) es)
                 (concat (map instance_details es)))"

text \<open>\<^verbatim>\<open>%-8d\<close> and \<^verbatim>\<open>%-40s\<close> pad to a number of characters.\<close>

definition pad_right :: "nat \<Rightarrow> string \<Rightarrow> string" where
  "pad_right n s = s @ replicate (n - rune_count s) (CHR '' '')"

definition instance_brief :: "entry \<Rightarrow> string" where
  "instance_brief e =
     ''  PID '' @ pad_right 8 (itoa (en_pid e)) @ ''  endpoint: '' @ pad_right 40 (entry_endpoint e) @ ''  config: '' @
     entry_config_label e @
     (if en_auth_enabled e then '' [auth: '' @ (if en_key_id e = [] then ''yes'' else en_key_id e) @ '']'' else [])"

subsection \<open>Mappings\<close>

fun mappings_flags :: "string list \<Rightarrow> bool \<times> string \<Rightarrow> string + bool \<times> string" where
  "mappings_flags [] r = Inr r"
| "mappings_flags (arg # args) (yaml, domain) =
     (if arg = ''--yaml'' then mappings_flags args (True, domain)
      else if arg = ''--cluster-domain'' then
        (case args of [] \<Rightarrow> Inr (yaml, domain) | v # rest \<Rightarrow> mappings_flags rest (yaml, v))
      else if arg \<noteq> [] \<and> hd arg = CHR ''-'' then Inl arg
      else mappings_flags args (yaml, domain))"

text \<open>A heading for each run of mappings of one service, set off by an empty line.\<close>

fun mapping_lines :: "string \<Rightarrow> address_mapping list \<Rightarrow> string list" where
  "mapping_lines current [] = []"
| "mapping_lines current (m # ms) =
     (if am_service m \<noteq> current
      then (if current \<noteq> [] then [[]] else []) @ [color_cyan @ ''# '' @ am_service m @ color_reset]
      else []) @
     [''  '' @ am_internal m @ '' '' @ glyph (CHR 0x86) (CHR 0x92) @ '' '' @ am_local m] @
     mapping_lines (am_service m) ms"

datatype mappings_output =
    MappingsUnknownFlag string | MappingsNoKey | MappingsNotRunning | MappingsFailed rpc_err
  | MappingsJSON "(string, string) gomap" | MappingsYAML "(string, string) gomap" | MappingsText "string list"

definition cmd_mappings ::
    "app \<Rightarrow> dial_target \<Rightarrow> (string \<Rightarrow> rpc_err + response) \<Rightarrow> string list \<Rightarrow> mappings_output" where
  "cmd_mappings a tgt ask args =
     (case mappings_flags args (False, []) of
        Inl f \<Rightarrow> MappingsUnknownFlag f
      | Inr (yaml, domain) \<Rightarrow>
          (case tgt of
             KeyRequired \<Rightarrow> MappingsNoKey
           | NotRunning \<Rightarrow> MappingsNotRunning
           | _ \<Rightarrow> (case ask domain of
                     Inl e \<Rightarrow> MappingsFailed e
                   | Inr (MappingsResponse addrs ms _ _) \<Rightarrow>
                       if ap_json a then MappingsJSON addrs
                       else if yaml then MappingsYAML addrs
                       else if ms = [] then MappingsText [''No active mappings (no running forwards)'']
                       else MappingsText (mapping_lines [] ms)
                   | Inr _ \<Rightarrow> MappingsText [])))"

subsection \<open>Version and logs\<close>

fun take_runes :: "nat \<Rightarrow> string \<Rightarrow> string" where
  "take_runes 0 s = []"
| "take_runes (Suc n) [] = []"
| "take_runes (Suc n) (c # s) =
     (let k = (if matches (rune_tail c) s then length (rune_tail c) else 0)
      in c # take k s @ take_runes n (drop k s))"

text \<open>\<open>built\<close> is the text of the time of the build, empty when it is not known.\<close>

definition version_line :: "string \<Rightarrow> string \<Rightarrow> string \<Rightarrow> string" where
  "version_line raw commit built =
     ''kubeport '' @ (if raw \<noteq> [] then raw else ''dev'') @
     (if commit \<noteq> []
      then '' (commit: '' @ take_runes 7 commit @ (if built \<noteq> [] then '', built: '' @ built else []) @ '')''
      else [])"

definition shown_log :: "os_env \<Rightarrow> (string \<Rightarrow> string) \<Rightarrow> app \<Rightarrow> string" where
  "shown_log env sha256 a = (case ap_cfg a of None \<Rightarrow> ''.kubeport.log'' | Some cfg \<Rightarrow> log_file env sha256 cfg)"

text \<open>The command that follows the log, if the file is there.\<close>

definition cmd_logs :: "os_env \<Rightarrow> (string \<Rightarrow> string) \<Rightarrow> app \<Rightarrow> string list option" where
  "cmd_logs env sha256 a =
     (let f = shown_log env sha256 a in if file_exists env f then Some [''tail'', ''-f'', f] else None)"

definition tail_log :: "os_env \<Rightarrow> (string \<Rightarrow> string) \<Rightarrow> app \<Rightarrow> int \<Rightarrow> string list" where
  "tail_log env sha256 a n = [''tail'', ''-n'', itoa n, shown_log env sha256 a]"

subsection \<open>A box is a rectangle\<close>

lemma char_facts:
  "\<not> parameter_char (CHR '' '')" "\<not> parameter_char (CHR ''m'')" "CHR '' '' \<noteq> escape" "CHR ''['' \<noteq> CHR '' ''"
  by (simp_all add: parameter_char_def is_digit_def char_val_def escape_def)

text \<open>No escape sequence contains a space, so that stripping splits there.\<close>

lemma strip_ansi_plain: "c \<noteq> escape \<Longrightarrow> strip_ansi (c # s) = c # strip_ansi s"
  by (simp add: strip_ansi.simps(2))

lemma strip_ansi_blank [simp]: "strip_ansi (CHR '' '' # s) = CHR '' '' # strip_ansi s"
  by (rule strip_ansi_plain) (rule char_facts)

lemma strip_ansi_space: "strip_ansi (a @ CHR '' '' # b) = strip_ansi a @ CHR '' '' # strip_ansi b"
proof (induction a rule: strip_ansi.induct)
  case 1
  show ?case by simp
next
  case (2 c s)
  let ?hit = "\<lambda>s. c = escape \<and> s \<noteq> [] \<and> hd s = CHR ''[''
     \<and> (case dropWhile parameter_char (tl s) of [] \<Rightarrow> False | d # _ \<Rightarrow> d = CHR ''m'')"
  have drop: "dropWhile parameter_char (t @ CHR '' '' # b) = dropWhile parameter_char t @ CHR '' '' # b" for t
    by (induction t) (simp_all add: char_facts(1))
  have same: "?hit (s @ CHR '' '' # b) = ?hit s"
  proof (cases s)
    case (Cons d t)
    then show ?thesis by (cases "dropWhile parameter_char t") (simp_all add: drop del: dropWhile_eq_Nil_conv)
  qed simp
  show ?case
  proof (cases "?hit s")
    case True
    then have "dropWhile parameter_char (tl (s @ CHR '' '' # b)) = dropWhile parameter_char (tl s) @ CHR '' '' # b"
      by (cases s) (auto simp: drop)
    moreover have "dropWhile parameter_char (tl s) \<noteq> []" using True by (cases "dropWhile parameter_char (tl s)") simp_all
    moreover have "strip_ansi (c # s @ CHR '' '' # b) = strip_ansi (tl (dropWhile parameter_char (tl (s @ CHR '' '' # b))))"
      using same True by (subst strip_ansi.simps(2)) (rule if_P, blast)
    moreover have "strip_ansi (c # s) = strip_ansi (tl (dropWhile parameter_char (tl s)))"
      by (subst strip_ansi.simps(2)) (rule if_P [OF True])
    ultimately show ?thesis using 2(1) [OF True] by simp
  next
    case False
    have "strip_ansi (c # s @ CHR '' '' # b) = c # strip_ansi (s @ CHR '' '' # b)"
      using same False by (subst strip_ansi.simps(2)) (rule if_not_P, blast)
    moreover have "strip_ansi (c # s) = c # strip_ansi s" by (subst strip_ansi.simps(2)) (rule if_not_P [OF False])
    ultimately show ?thesis using 2(2) [OF False] by simp
  qed
qed

lemma strip_ansi_spaces: "strip_ansi (a @ replicate n (CHR '' '') @ CHR '' '' # b) = strip_ansi a @ replicate n (CHR '' '') @ CHR '' '' # strip_ansi b"
proof (induction n arbitrary: a)
  case (Suc n)
  have "strip_ansi (replicate n (CHR '' '') @ CHR '' '' # b) = replicate n (CHR '' '') @ CHR '' '' # strip_ansi b"
    using Suc [of "[]"] by simp
  then show ?case using strip_ansi_space [of a "replicate n (CHR '' '') @ CHR '' '' # b"] by simp
qed (simp add: strip_ansi_space)

lemma strip_ansi_color: "list_all parameter_char code \<Longrightarrow> strip_ansi (color code @ x) = strip_ansi x"
proof -
  assume "list_all parameter_char code"
  then have "dropWhile parameter_char (CHR ''0'' # code @ CHR ''m'' # x) = CHR ''m'' # x"
    by (induction code) (simp_all add: parameter_char_def is_digit_def char_val_def char_facts(2))
  then show ?thesis by (simp add: color_def strip_ansi.simps(2))
qed

lemma strip_ansi_colors:
  "strip_ansi (color_cyan @ x) = strip_ansi x" "strip_ansi (color_reset @ x) = strip_ansi x" "strip_ansi color_reset = []"
  using strip_ansi_color [of "'';36''" x] strip_ansi_color [of "[]" x] strip_ansi_color [of "[]" "[]"]
  by (simp_all add: color_cyan_def color_reset_def parameter_char_def is_digit_def char_val_def)

text \<open>Counting characters splits at an ASCII character.\<close>

lemma matches_append: "list_all (\<lambda>p. \<not> p c) ps \<Longrightarrow> matches ps (a @ c # b) = matches ps a"
  by (induction ps a rule: matches.induct) auto

lemma matches_length: "matches ps s \<Longrightarrow> length ps \<le> length s"
  by (induction ps s rule: matches.induct) auto

lemma rune_tail_ascii: "char_val c < 128 \<Longrightarrow> list_all (\<lambda>p. \<not> p c) (rune_tail d)" "char_val c < 128 \<Longrightarrow> rune_tail c = []"
  by (auto simp: rune_tail_def in_range_def Let_def)

lemma rune_count_ascii:
  assumes "char_val c < 128"
  shows "rune_count (a @ c # b) = rune_count a + Suc (rune_count b)"
proof (induction a rule: rune_count.induct)
  case 1
  show ?case using rune_tail_ascii(2) [OF assms] by (simp add: rune_count.simps(2))
next
  case (2 d s)
  have m: "matches (rune_tail d) (s @ c # b) = matches (rune_tail d) s"
    by (rule matches_append [OF rune_tail_ascii(1) [OF assms]])
  show ?case using 2 m matches_length [of "rune_tail d" s] by (cases "matches (rune_tail d) s") (simp_all add: rune_count.simps(2) m)
qed

lemma rune_count_spaces: "rune_count (a @ replicate n (CHR '' '') @ CHR '' '' # b) = rune_count a + n + Suc (rune_count b)"
proof (induction n arbitrary: a)
  case (Suc n)
  have "rune_count (a @ CHR '' '' # (replicate n (CHR '' '') @ CHR '' '' # b)) = rune_count a + Suc (rune_count (replicate n (CHR '' '') @ CHR '' '' # b))"
    by (rule rune_count_ascii) (simp add: char_val_def)
  then show ?case using Suc [of "[]"] by simp
qed (simp add: rune_count_ascii char_val_def)

text \<open>A drawing character.\<close>

lemma glyph_visible:
  assumes "in_range 0x80 0xBF b" "in_range 0x80 0xBF c"
  shows "rune_count (glyph b c @ x) = Suc (rune_count x)" "strip_ansi (glyph b c @ x) = glyph b c @ strip_ansi x"
proof -
  have "rune_tail (CHR 0xE2) = [in_range 0x80 0xBF, in_range 0x80 0xBF]"
    by (simp add: rune_tail_def in_range_def char_val_def Let_def)
  with assms show "rune_count (glyph b c @ x) = Suc (rune_count x)" by (simp add: glyph_def rune_count.simps(2))
  have "b \<noteq> escape" "c \<noteq> escape" "CHR 0xE2 \<noteq> escape" using assms by (auto simp: in_range_def escape_def char_val_def)
  then show "strip_ansi (glyph b c @ x) = glyph b c @ strip_ansi x" by (simp add: glyph_def strip_ansi_plain)
qed

lemma glyphs_visible:
  assumes "in_range 0x80 0xBF b" "in_range 0x80 0xBF c"
  shows "rune_count (repeat_text n (glyph b c) @ x) = n + rune_count x"
    "strip_ansi (repeat_text n (glyph b c) @ x) = repeat_text n (glyph b c) @ strip_ansi x"
  using glyph_visible [OF assms] by (induction n) (simp_all add: repeat_text_def)

lemma box_chars:
  "in_range 0x80 0xBF (CHR 0x94)" "in_range 0x80 0xBF (CHR 0x80)" "in_range 0x80 0xBF (CHR 0x82)" "in_range 0x80 0xBF (CHR 0x8C)"
  "in_range 0x80 0xBF (CHR 0x90)" "in_range 0x80 0xBF (CHR 0x98)"
  by (simp_all add: in_range_def char_val_def)

lemma box_rule_width:
  assumes "in_range 0x80 0xBF l" "in_range 0x80 0xBF r"
  shows "visible_len (box_rule l r w) = w + 4"
  using assms box_chars
  by (simp add: visible_len_def box_rule_def strip_ansi_colors glyph_visible glyphs_visible glyph_visible(1) [where x = "[]", simplified] glyph_visible(2) [where x = "[]", simplified])

lemma box_line_width: "visible_len l \<le> w \<Longrightarrow> visible_len (box_line w l) = w + 4"
proof -
  assume "visible_len l \<le> w"
  have "strip_ansi (box_line w l) = box_vertical @ CHR '' '' # strip_ansi l @ replicate (w - visible_len l) (CHR '' '') @ CHR '' '' # box_vertical"
    using strip_ansi_spaces [of l "w - visible_len l"] strip_ansi_space [of "[]"] box_chars
    by (simp add: box_line_def strip_ansi_colors box_vertical_def glyph_visible glyph_visible(2) [where x = "[]", simplified])
  moreover have "rune_count (box_vertical @ x) = Suc (rune_count x)" for x
    unfolding box_vertical_def by (rule glyph_visible(1) [OF box_chars(1,3)])
  moreover have "rune_count (CHR '' '' # x) = Suc (rune_count x)" for x
    using rune_count_ascii [of "CHR '' ''" "[]" x] by (simp add: char_val_def)
  ultimately show ?thesis
    using \<open>visible_len l \<le> w\<close> rune_count_spaces [of "strip_ansi l" "w - visible_len l" box_vertical]
    by (simp add: visible_len_def rune_count.simps(1) \<open>\<And>x. rune_count (box_vertical @ x) = _\<close> [where x = "[]", simplified])
qed

lemma box_width_max: "l \<in> set ls \<Longrightarrow> visible_len l \<le> box_width ls"
proof -
  have "w \<le> foldl (\<lambda>w l. if w < visible_len l then visible_len l else w) w ls
      \<and> (\<forall>l \<in> set ls. visible_len l \<le> foldl (\<lambda>w l. if w < visible_len l then visible_len l else w) w ls)" for w
  proof (induction ls arbitrary: w)
    case (Cons a ls)
    show ?case using Cons [of "if w < visible_len a then visible_len a else w"] by (auto split: if_splits)
  qed simp
  then show "l \<in> set ls \<Longrightarrow> visible_len l \<le> box_width ls" by (simp add: box_width_def)
qed

text \<open>The box around the watched status is a rectangle.  Whatever the content, its colours, its
  characters and its bytes that are no UTF-8 included, each line that is printed shows the same number
  of characters, four more than the widest line of the content, and there are two lines more.\<close>

theorem box_rectangular:
  "list_all (\<lambda>l. visible_len l = box_width (box_content content) + 4) (box_lines content)
   \<and> length (box_lines content) = length (box_content content) + 2"
  using box_rule_width box_line_width [OF box_width_max] box_chars
  by (auto simp: box_lines_def Let_def list_all_iff)

subsection \<open>The status that is shown\<close>

text \<open>C31: the status document is the manager's.  In every state the manager of a daemon can reach,
  \<^verbatim>\<open>kubeport status --json\<close> shows its forwards, in their order and under their names, followed by the
  services of other instances, each with the state and the port that the manager reports.\<close>

theorem status_shows_manager:
  assumes "reachable cfg (sv_mgr v)" "ap_json a" "\<not> ap_sort a"
  shows "\<exists>ss r d. status is_open (sv_mgr v) = Some ss
    \<and> serve (manager_ops is_open ord ord1) re StatusRequest v = Some (r, v)
    \<and> cmd_status_grpc order stamp now cli_version a r legacy = Document d
    \<and> map fo_name (so_forwards d) = mg_order (sv_mgr v) @ map (\<lambda>x. svc_name (ef_service (snd x))) (mg_external (sv_mgr v))
    \<and> map fo_state (so_forwards d) = map (\<lambda>s. state_label (convert_state (fs_state s))) ss
    \<and> map fo_local_port (so_forwards d) = map (\<lambda>s. wrap32 (fs_actual_port s)) ss"
proof -
  let ?m = "sv_mgr v"
  have w: "manager_wf ?m" using assms(1) by (rule reachable_wf)
  have n: "svc_name (fw_svc (the (forward_at ?m n))) = n" if "n \<in> set (mg_order ?m)" for n
    using order_forward [OF w that] by (auto simp: forward_at_def)
  define ss where "ss = map (\<lambda>n. status_of is_open ?m (the (forward_at ?m n))) (mg_order ?m)
      @ map (\<lambda>(_, ef). external_status ef) (mg_external ?m)"
  have st: "status is_open ?m = Some ss" by (simp add: status_def in_order_total [OF w] ss_def)
  have "map (\<lambda>n. svc_name (fw_svc (the (forward_at ?m n)))) (mg_order ?m) = mg_order ?m"
    using n by (intro map_idI)
  then have names: "map (\<lambda>s. svc_name (fs_service s)) ss =
      mg_order ?m @ map (\<lambda>x. svc_name (ef_service (snd x))) (mg_external ?m)"
    by (simp add: ss_def status_of_def external_status_def Let_def comp_def case_prod_unfold)
  let ?fws = "map (forward_from_proto stamp) (map (convert_forward_status (re_err_text re)) ss)"
  have "map fo_name ?fws = map (\<lambda>s. svc_name (fs_service s)) ss"
    "map fo_state ?fws = map (\<lambda>s. state_label (convert_state (fs_state s))) ss"
    "map fo_local_port ?fws = map (\<lambda>s. wrap32 (fs_actual_port s)) ss"
    by (simp_all add: forward_from_proto_def convert_forward_status_def Let_def)
  then show ?thesis
    using st names assms(2,3)
    by (simp add: manager_ops_sel cmd_status_grpc_def sorted_forwards_def)
qed

theorem status_shows_manager_witness:
  "\<exists>r d. serve (manager_ops (\<lambda>_. True) (\<lambda>_ ks. ks) (\<lambda>ks. ks)) example_env StatusRequest example_server = Some (r, example_server)
     \<and> cmd_status_grpc (\<lambda>x. x) (\<lambda>_. []) 0 [] (new_app\<lparr>ap_json := True\<rparr>) r (Lines []) = Document d
     \<and> map fo_name (so_forwards d) = [''a'']"
proof -
  have a: "ap_json (new_app\<lparr>ap_json := True\<rparr>)" "\<not> ap_sort (new_app\<lparr>ap_json := True\<rparr>)" by (simp_all add: new_app_def)
  have "mg_order (sv_mgr example_server) = [''a'']" "mg_external (sv_mgr example_server) = []" by code_simp+
  with status_shows_manager [OF example_server_reachable a, of "\<lambda>_. True" "\<lambda>_ ks. ks" "\<lambda>ks. ks" example_env "\<lambda>x. x" "\<lambda>_. []" 0 "[]" "Lines []"]
  show ?thesis by auto
qed

end
