(* ===== verification/PathFacts.thy ===== *)
theory PathFacts
  imports Paths
begin

text \<open>
  Facts about \<^verbatim>\<open>filepath.Clean\<close>: cleaning twice is cleaning once, a cleaned path names what the path
  named, and the elements of a directory keep their names.
\<close>

definition clean_elems :: "string \<Rightarrow> string list" where
  "clean_elems p = foldl (clean_step (is_abs p)) [] (split_char slash p)"

lemma clean_path_elems:
  "clean_path p =
     (if is_abs p then slash # join [slash] (rev (clean_elems p))
      else if clean_elems p = [] then ''.'' else join [slash] (rev (clean_elems p)))"
proof (cases "is_abs p")
  case False
  have no_empty: "[] \<notin> set (foldl (clean_step False) [] ws)" for ws
  proof -
    have "[] \<notin> set st \<Longrightarrow> [] \<notin> set (foldl (clean_step False) st ws)" for st
    proof (induction ws arbitrary: st)
      case (Cons w ws)
      then have "[] \<notin> set (clean_step False st w)" by (cases st) auto
      then show ?case using Cons.IH by simp
    qed simp
    then show ?thesis by simp
  qed
  have "join [slash] xs = [] \<longleftrightarrow> xs = []" if "[] \<notin> set xs" for xs
    using that by (induction "[slash]" xs rule: join.induct) auto
  from this [of "rev (clean_elems p)"] False no_empty [of "split_char slash p"] show ?thesis
    by (simp add: clean_path_def clean_elems_def Let_def)
qed (simp add: clean_path_def clean_elems_def Let_def)

text \<open>What the stack of kept elements looks like: real names on top, and below them, in a relative
  path, the parents that are left.\<close>

fun kept :: "bool \<Rightarrow> string list \<Rightarrow> bool" where
  "kept rooted [] = True"
| "kept rooted (w # st) =
     (w \<noteq> [] \<and> w \<noteq> ''.'' \<and> slash \<notin> set w \<and> kept rooted st \<and> (w = ''..'' \<longrightarrow> \<not> rooted \<and> (st = [] \<or> hd st = ''..'')))"

lemma kept_step: "kept r st \<Longrightarrow> slash \<notin> set w \<Longrightarrow> kept r (clean_step r st w)"
  by (cases st) auto

lemma kept_clean: "kept r st \<Longrightarrow> \<forall>w \<in> set ws. slash \<notin> set w \<Longrightarrow> kept r (foldl (clean_step r) st ws)"
  by (induction ws arbitrary: st) (simp_all add: kept_step del: clean_step.simps)

lemma kept_elems: "kept (is_abs p) (clean_elems p)"
  unfolding clean_elems_def by (rule kept_clean) (auto dest: split_char_words)

lemma kept_words: "kept r st \<Longrightarrow> w \<in> set st \<Longrightarrow> slash \<notin> set w \<and> w \<noteq> []"
  by (induction st) auto

text \<open>To go through the cleaned elements is to go through the elements.\<close>

lemma clean_compose:
  assumes "r \<Longrightarrow> r' \<and> st' = []" "kept r st"
  shows "foldl (clean_step r') st' (rev (clean_step r st w)) =
     clean_step r' (foldl (clean_step r') st' (rev st)) w"
proof (cases "w = ''..''")
  case True
  show ?thesis
  proof (cases st)
    case Nil
    with True assms(1) show ?thesis by auto
  next
    case (Cons t ts)
    show ?thesis
    proof (cases "t = ''..''")
      case True
      then have "clean_step r st w = w # st" using \<open>w = ''..''\<close> Cons by simp
      then show ?thesis by (simp del: clean_step.simps)
    next
      case False
      then have "clean_step r st w = ts" "clean_step r' X t = t # X" "clean_step r' (t # X) w = X" for X
        using \<open>w = ''..''\<close> Cons assms(2) by auto
      then show ?thesis using Cons by (simp del: clean_step.simps)
    qed
  qed
next
  case False
  then have "clean_step r st w = st \<and> clean_step r' X w = X \<or> clean_step r st w = w # st" for X by simp
  from this [of "foldl (clean_step r') st' (rev st)"] show ?thesis by (auto simp del: clean_step.simps)
qed

lemma clean_twice_elems:
  assumes "r \<Longrightarrow> r' \<and> st' = []" "\<forall>w \<in> set ws. slash \<notin> set w"
  shows "foldl (clean_step r') st' (rev (foldl (clean_step r) [] ws)) = foldl (clean_step r') st' ws"
  using assms(2)
proof (induction ws rule: rev_induct)
  case (snoc w ws)
  then have "kept r (foldl (clean_step r) [] ws)" by (intro kept_clean) auto
  with snoc show ?case using clean_compose [OF assms(1)] by (simp del: clean_step.simps)
qed simp


lemma split_char_sep: "split_char c (a @ c # b) = split_char c a @ split_char c b"
  by (induction a) (auto split: list.split)

lemma split_clean:
  assumes "is_abs p \<Longrightarrow> r' \<and> st' = []"
  shows "foldl (clean_step r') st' (split_char slash (clean_path p)) = foldl (clean_step r') st' (split_char slash p)"
proof -
  have words: "\<forall>w \<in> set (split_char slash p). slash \<notin> set w" by (auto dest: split_char_words)
  have same: "foldl (clean_step r') st' (rev (clean_elems p)) = foldl (clean_step r') st' (split_char slash p)"
    unfolding clean_elems_def by (rule clean_twice_elems [OF assms words])
  have body: "foldl (clean_step r') st' (split_char slash (join [slash] (rev (clean_elems p))))
      = foldl (clean_step r') st' (rev (clean_elems p))"
  proof (cases "clean_elems p = []")
    case False
    then show ?thesis
      using kept_words [OF kept_elems] by (subst split_join) auto
  qed simp
  have dot: "foldl (clean_step r') st' (split_char slash ''.'') = st'" by (simp add: slash_def)
  show ?thesis
  proof (cases "is_abs p")
    case True
    then show ?thesis using body same by (simp add: clean_path_elems)
  next
    case False
    show ?thesis
    proof (cases "clean_elems p = []")
      case True
      then have "clean_path p = ''.''" using False by (simp add: clean_path_elems)
      then show ?thesis using same dot True by simp
    next
      case elems: False
      then have "clean_path p = join [slash] (rev (clean_elems p))" using False by (simp add: clean_path_elems)
      then show ?thesis using body same by simp
    qed
  qed
qed

lemma is_abs_clean_path: "is_abs (clean_path p) = is_abs p"
proof (cases "is_abs p")
  case True
  then show ?thesis by (simp add: is_abs_clean)
next
  case False
  have "xs \<noteq> [] \<Longrightarrow> hd xs \<noteq> [] \<Longrightarrow> hd (join [slash] xs) = hd (hd xs)" for xs
    by (induction "[slash]" xs rule: join.induct) auto
  moreover have "slash \<notin> set (hd (rev (clean_elems p))) \<and> hd (rev (clean_elems p)) \<noteq> []" if "clean_elems p \<noteq> []"
    using that kept_words [OF kept_elems, of _ p] by (simp add: hd_rev)
  ultimately have "hd (join [slash] (rev (clean_elems p))) \<noteq> slash" if "clean_elems p \<noteq> []"
    using that by (metis hd_in_set rev_is_Nil_conv)
  with False show ?thesis by (auto simp: is_abs_def clean_path_elems slash_def)
qed

lemma clean_path_idem [simp]: "clean_path (clean_path p) = clean_path p"
proof -
  have "clean_elems (clean_path p) = clean_elems p"
    unfolding clean_elems_def is_abs_clean_path by (rule split_clean) simp
  moreover have "clean_elems q = clean_elems p \<Longrightarrow> is_abs q = is_abs p \<Longrightarrow> clean_path q = clean_path p" for q
    by (simp add: clean_path_elems)
  ultimately show ?thesis using is_abs_clean_path by blast
qed

lemma clean_path_not_Nil [simp]: "clean_path p \<noteq> []"
  by (simp add: clean_path_def Let_def)

text \<open>A path and its cleaned form are the same file.\<close>

lemma path_abs_clean:
  assumes "is_abs cwd"
  shows "path_abs cwd (clean_path p) = path_abs cwd p"
proof (cases "is_abs p")
  case True
  then show ?thesis by (simp add: path_abs_def is_abs_clean_path)
next
  case False
  have under: "clean_elems (cwd @ slash # q) = foldl (clean_step True) (clean_elems cwd) (split_char slash q)" for q
    using assms by (simp add: clean_elems_def is_abs_def split_char_sep)
  have "is_abs (cwd @ slash # q)" for q using assms by (simp add: is_abs_def)
  then have cong: "clean_path (cwd @ slash # q) = clean_path (cwd @ slash # q')"
    if "clean_elems (cwd @ slash # q) = clean_elems (cwd @ slash # q')" for q q'
    using that by (simp add: clean_path_elems)
  have "clean_elems (cwd @ slash # clean_path p) = clean_elems (cwd @ slash # p)"
    unfolding under by (rule split_clean) (use False in simp)
  then have "clean_path (cwd @ slash # clean_path p) = clean_path (cwd @ slash # p)" by (rule cong)
  moreover have "cwd \<noteq> []" using assms by (simp add: is_abs_def)
  moreover have "clean_path (cwd @ [slash]) = clean_path cwd"
    using under [of "[]"] assms by (simp add: clean_path_elems is_abs_def)
  ultimately show ?thesis
    using False by (cases "p = []") (simp_all add: path_abs_def is_abs_clean_path path_join_def)
qed

text \<open>A file in a directory keeps its name.\<close>

lemma clean_elems_file:
  assumes "d \<noteq> []" "slash \<notin> set n" "n \<notin> {[], ''.'', ''..''}"
  shows "clean_elems (d @ slash # n) = n # clean_elems d"
  using assms by (simp add: clean_elems_def is_abs_def split_char_sep split_char_free)

lemma clean_path_file:
  assumes "d \<noteq> []" "slash \<notin> set n" "n \<notin> {[], ''.'', ''..''}"
  shows "\<exists>pre. clean_path (d @ slash # n) = pre @ n"
proof -
  have "\<exists>pre. join [slash] (ws @ [n]) = pre @ n" for ws
    by (induction ws) (auto simp: join_Cons)
  then obtain pre where "join [slash] (rev (clean_elems d) @ [n]) = pre @ n" by blast
  then have "join [slash] (rev (clean_elems (d @ slash # n))) = pre @ n" by (simp add: clean_elems_file [OF assms])
  then show ?thesis
    by (cases "is_abs (d @ slash # n)") (auto simp: clean_path_elems clean_elems_file [OF assms])
qed

lemma path_abs_file:
  assumes "is_abs cwd" "d \<noteq> []" "slash \<notin> set n" "n \<notin> {[], ''.'', ''..''}"
  shows "\<exists>pre. path_abs cwd (d @ slash # n) = pre @ n"
proof (cases "is_abs (d @ slash # n)")
  case True
  then show ?thesis using clean_path_file [OF assms(2-)] by (simp add: path_abs_def)
next
  case False
  have "path_abs cwd (d @ slash # n) = clean_path ((cwd @ slash # d) @ slash # n)"
    using False assms(1) by (auto simp: path_abs_def path_join_def is_abs_def)
  then show ?thesis using clean_path_file [of "cwd @ slash # d" n] assms by simp
qed

end
