(* ===== verification/Launch.thy ===== *)
theory Launch
  imports Daemons PathFacts
begin

text \<open>
  Launching the background process (\<^verbatim>\<open>launchDaemon\<close>, \<^verbatim>\<open>cmdStartDelegate\<close> and
  \<^verbatim>\<open>offloadServicesToInstance\<close> of \<^verbatim>\<open>internal/cli/cmd_start.go\<close>): the log file, the process, its PID
  file, and what the other commands then find.
\<close>

subsection \<open>The process\<close>

datatype spawn_end = NoExecutable | LogFileFailed string | ExecFailed string | PidFileFailed int | Spawned int

text \<open>What the system answers: the path of the running program, and the PID of a process that could
  be started with a list of arguments.\<close>

record process_env =
  pe_executable :: "string option"
  pe_exec :: "string \<Rightarrow> string list \<Rightarrow> int option"

text \<open>The log file is created or emptied.  When the PID file cannot be written the command fails, but
  the process it has started stays.\<close>

definition spawn_daemon ::
    "process_env \<Rightarrow> (string \<Rightarrow> string) \<Rightarrow> config \<Rightarrow> string list \<Rightarrow> os_env \<Rightarrow> spawn_end \<times> os_env" where
  "spawn_daemon pe sha256 cfg args env =
     (case pe_executable pe of
        None \<Rightarrow> (NoExecutable, env)
      | Some exe \<Rightarrow>
          (let logf = log_file env sha256 cfg
           in if \<not> os_writable env logf then (LogFileFailed logf, env)
              else (let env1 = write_file env logf []
                    in case pe_exec pe exe args of
                         None \<Rightarrow> (ExecFailed exe, env1)
                       | Some pid \<Rightarrow>
                           (let pidf = pid_file env1 sha256 cfg
                            in case put_file env1 pidf (itoa pid) of
                                 (False, env2) \<Rightarrow> (PidFileFailed pid, env2)
                               | (True, env2) \<Rightarrow> (Spawned pid, env2)))))"

datatype launched = NotSpawned spawn_end | LaunchedDaemon int launch_end "wait_end option"

text \<open>\<^verbatim>\<open>launchDaemon\<close>: \<open>polls\<close> are the polls after the start, \<open>running_after\<close> the last look at the process,
  and \<open>waits\<close> the polls of \<^verbatim>\<open>waitForReady\<close>.\<close>

definition launch_daemon ::
    "process_env \<Rightarrow> (string \<Rightarrow> string) \<Rightarrow> app \<Rightarrow> config \<Rightarrow> (bool \<times> bool) list \<Rightarrow> bool \<Rightarrow> (nat \<Rightarrow> poll) \<Rightarrow> os_env
       \<Rightarrow> launched \<times> os_env" where
  "launch_daemon pe sha256 a cfg polls running_after waits env =
     (case spawn_daemon pe sha256 cfg (launch_args a) env of
        (Spawned pid, env1) \<Rightarrow>
          (let r = launch_result polls running_after
           in (LaunchedDaemon pid r (if r \<noteq> LaunchFailed \<and> ap_wait a then Some (wait_for_ready a waits) else None), env1))
      | (e, env1) \<Rightarrow> (NotSpawned e, env1))"

subsection \<open>Offloading\<close>

datatype offload_end =
    NothingToOffload
  | OffloadNeedsKey
  | CannotConnect "entry option"
  | Offloaded "entry option" nat nat

text \<open>\<open>existing\<close> is the instance the registry lists for the configuration file.  It is named in the
  messages; the instance that is dialled is always that of the flags and the configuration.\<close>

definition cmd_offload ::
    "'s supervisor_ops \<Rightarrow> rpc_env \<Rightarrow> (string \<Rightarrow> string) \<Rightarrow> app \<Rightarrow> entry option \<Rightarrow> os_env \<Rightarrow> 's server \<Rightarrow> offload_end \<times> 's server" where
  "cmd_offload ops re sha256 a existing env s =
     (case ap_cfg a of
        None \<Rightarrow> (NothingToOffload, s)
      | Some cfg \<Rightarrow>
          if cfg_services cfg = [] then (NothingToOffload, s)
          else (let target = (if cfg_file_path cfg \<noteq> [] then existing else None)
                in case dial_target_of env sha256 a of
                     KeyRequired \<Rightarrow> (OffloadNeedsKey, s)
                   | NotRunning \<Rightarrow> (CannotConnect target, s)
                   | _ \<Rightarrow> (case offload_services ops re cfg s of
                            ((good, bad), s1) \<Rightarrow> (Offloaded target good bad, s1))))"

subsection \<open>The delegate\<close>

datatype delegated = DelegateNotSpawned spawn_end | NoPrimary int | HandedOff int nat nat

text \<open>The delegate's process, and then the hand-off of the services without a conflict, under the
  absolute path of the configuration file.  The primary is dialled as a Unix socket, even when the
  address is that of a TCP listener.\<close>

definition run_delegation ::
    "'s supervisor_ops \<Rightarrow> rpc_env \<Rightarrow> process_env \<Rightarrow> (string \<Rightarrow> string) \<Rightarrow> app \<Rightarrow> config \<Rightarrow> string \<Rightarrow> service_config list
       \<Rightarrow> os_env \<Rightarrow> 's server \<Rightarrow> delegated \<times> os_env \<times> 's server" where
  "run_delegation ops re pe sha256 a cfg primary clean env s =
     (case spawn_daemon pe sha256 cfg (delegate_args primary a) env of
        (Spawned pid, env1) \<Rightarrow>
          if file_exists env1 primary
          then (case hand_off ops re (path_abs (os_cwd env) (ap_config_file a)) clean s of
                  ((good, bad), s1) \<Rightarrow> (HandedOff pid good bad, env1, s1))
          else (NoPrimary pid, env1, s)
      | (e, env1) \<Rightarrow> (DelegateNotSpawned e, env1, s))"

subsection \<open>What is found afterwards\<close>

text \<open>A path that does not end like the names of configuration files is none of them, so that writing
  or removing it does not move the central directory.\<close>

lemma last_joined:
  assumes "is_abs cwd" "slash \<notin> set n" "n \<notin> {[], ''.'', ''..''}"
  shows "last (path_abs cwd (path_join [d, n])) = last n"
proof -
  have ends: "last (path_abs cwd (clean_path (d @ slash # n))) = last n" if "d \<noteq> []" for d
    using path_abs_file [OF assms(1) that assms(2,3)] path_abs_clean [OF assms(1)] assms(3)
    by (metis insertCI last_appendR)
  show ?thesis
  proof (cases "d = []")
    case True
    have "path_abs cwd (clean_path (cwd @ slash # n)) = clean_path (cwd @ slash # n)"
      using assms(1) by (simp add: path_abs_clean) (simp add: path_abs_def is_abs_def)
    moreover have "path_abs cwd (path_join [d, n]) = path_abs cwd n"
      using True assms(1,3) by (simp add: path_join_def path_abs_clean)
    moreover have "path_abs cwd n = clean_path (cwd @ slash # n)"
      using assms by (cases n) (auto simp: path_abs_def path_join_def is_abs_def)
    ultimately show ?thesis using ends [of cwd] assms(1) by (auto simp: is_abs_def)
  next
    case False
    then show ?thesis using ends assms(3) by (simp add: path_join_def)
  qed
qed

definition same_but :: "string \<Rightarrow> os_env \<Rightarrow> os_env \<Rightarrow> bool" where
  "same_but q env env1 = (os_home env1 = os_home env \<and> os_cwd env1 = os_cwd env \<and> os_tmp env1 = os_tmp env
     \<and> os_path_max env1 = os_path_max env \<and> (\<forall>p. p \<noteq> q \<longrightarrow> gget (os_files env1) p = gget (os_files env) p))"

lemma same_but_write: "same_but (path_abs (os_cwd env) q) env (write_file env q data)"
  by (simp add: same_but_def write_file_def)

lemma same_but_remove: "same_but (path_abs (os_cwd env) q) env (remove_file q env)"
  by (simp add: same_but_def remove_file_def)

text \<open>The files whose presence decides which of the two central directories is used.\<close>

definition central_configs :: "os_env \<Rightarrow> string list" where
  "central_configs env =
     (case os_home env of
        None \<Rightarrow> []
      | Some home \<Rightarrow>
          [path_abs (os_cwd env) (path_join [d, n]).
             d \<leftarrow> [path_join [home, ''.config'', ''kubeport''], path_join [home, ''.kubeport'']], n \<leftarrow> config_names])"

lemma central_dir_same:
  assumes "same_but q env env1" "q \<notin> set (central_configs env)"
  shows "central_dir env1 c = central_dir env c"
proof (cases "os_home env")
  case None
  then show ?thesis using assms(1) by (simp add: central_dir_def same_but_def)
next
  case (Some home)
  have keep: "file_exists env1 (path_join [d, n]) = file_exists env (path_join [d, n])"
    if "n \<in> set config_names" "d = path_join [home, ''.config'', ''kubeport''] \<or> d = path_join [home, ''.kubeport'']" for d n
  proof -
    have "path_abs (os_cwd env) (path_join [d, n]) \<noteq> q" using that assms(2) Some by (auto simp: central_configs_def)
    then show ?thesis using assms(1) by (simp add: file_exists_def read_file_def same_but_def)
  qed
  have "list_ex (\<lambda>n. file_exists env1 (path_join [d, n])) config_names
      = list_ex (\<lambda>n. file_exists env (path_join [d, n])) config_names"
    if "d = path_join [home, ''.config'', ''kubeport''] \<or> d = path_join [home, ''.kubeport'']" for d
    using keep [OF _ that] by (auto simp: list_ex_iff)
  with assms(1) Some show ?thesis by (simp add: central_dir_def same_but_def Let_def)
qed

lemma not_central:
  assumes "is_abs (os_cwd env)" "last q \<noteq> CHR ''l''"
  shows "q \<notin> set (central_configs env)"
proof -
  have "path_abs (os_cwd env) (path_join [d, n]) \<noteq> q" if "n \<in> set config_names" for d n
  proof -
    have "last n = CHR ''l''" "slash \<notin> set n" "n \<notin> {[], ''.'', ''..''}"
      using that by (auto simp: config_names_def slash_def)
    then show ?thesis using last_joined [OF assms(1), of n d] assms(2) by metis
  qed
  then show ?thesis by (auto simp: central_configs_def split: option.splits)
qed

lemma instance_id_same: "os_cwd env1 = os_cwd env \<Longrightarrow> instance_id env1 sha256 cfg = instance_id env sha256 cfg"
  by (simp add: instance_id_def)

lemma runtime_name:
  assumes "is_abs (os_cwd env)" "is_abs cwd" "slash \<notin> set ext" "ext \<noteq> []" "last ext \<noteq> CHR ''.''"
  shows "last (path_abs cwd (path_join [d, instance_id env sha256 cfg @ ext])) = last ext"
proof -
  have "slash \<notin> set (instance_id env sha256 cfg)"
    using instance_id_safe [of env sha256 cfg]
    by (auto simp: list_all_iff slash_def safe_char_def is_alnum_def is_digit_def is_lower_def is_upper_def char_val_def)
  moreover have "last (instance_id env sha256 cfg @ ext) \<noteq> CHR ''.''" using assms by simp
  then have "instance_id env sha256 cfg @ ext \<notin> {[], ''.'', ''..''}" using assms(4) by (auto simp: append_eq_Cons_conv)
  ultimately show ?thesis using last_joined [OF assms(2), of "instance_id env sha256 cfg @ ext"] assms by simp
qed

lemma pid_file_last: "is_abs (os_cwd env) \<Longrightarrow> last (path_abs (os_cwd env) (pid_file env sha256 cfg)) = CHR ''d''"
  by (simp add: pid_file_def runtime_name slash_def)

lemma pid_file_same:
  "same_but q env env1 \<Longrightarrow> q \<notin> set (central_configs env) \<Longrightarrow> pid_file env1 sha256 cfg = pid_file env sha256 cfg"
  by (simp add: pid_file_def central_dir_same [of q env env1] instance_id_same [of env1 env] same_but_def)

lemma trim_itoa: "trim_space (itoa n) = itoa n"
proof (rule trim_space_no_space)
  fix c
  assume "c \<in> set (itoa n)"
  then have "is_digit c \<or> c = CHR ''-''"
    using nat_digits_all by (auto simp: itoa_def list_all_iff split: if_splits)
  then show "\<not> is_space c" using digit_not_space by (auto simp: is_space_def char_val_def)
qed



text \<open>The registry entry does not choose the instance that \<^verbatim>\<open>--offload\<close> talks to.\<close>

lemma offload_ignores_registry:
  "snd (cmd_offload ops re sha256 a existing env s) = snd (cmd_offload ops re sha256 a None env s)"
  by (auto simp: cmd_offload_def Let_def split: option.split dial_target.split prod.split)

text \<open>A primary that listens on TCP is never handed anything: its address is dialled as a socket file.\<close>

lemma tcp_primary_not_reached:
  assumes "spawn_daemon pe sha256 cfg (delegate_args addr a) env = (Spawned pid, env1)" "\<not> file_exists env1 addr"
  shows "run_delegation ops re pe sha256 a cfg addr clean env s = (NoPrimary pid, env1, s)"
  using assms by (simp add: run_delegation_def)

end
