(* ===== verification/Serving.thy ===== *)
theory Serving
  imports Launch
begin

text \<open>
  How the daemon's RPC server begins and ends (\<^verbatim>\<open>internal/daemon/server.go\<close>): the Unix socket, the TCP
  listener with its self-signed certificate, and the shutdown.  The certificate is what the clients of
  the same configuration pin (\<^verbatim>\<open>resolveCertFile\<close> of \<^verbatim>\<open>internal/cli/cli.go\<close>, \<^verbatim>\<open>discoverTarget\<close> of
  \<^verbatim>\<open>pkg/proxy/discover.go\<close>).
\<close>

subsection \<open>The certificate\<close>

record cert_template =
  ct_serial :: int
  ct_common_name :: string
  ct_not_before :: int
  ct_not_after :: int
  ct_ips :: "string list"
  ct_dns :: "string list"

definition daemon_template :: "int \<Rightarrow> int \<Rightarrow> cert_template" where
  "daemon_template serial now =
     \<lparr>ct_serial = serial, ct_common_name = ''kubeport-daemon'',
      ct_not_before = now - minute, ct_not_after = now + 10 * 365 * 24 * hour,
      ct_ips = [''127.0.0.1'', ''::1''], ct_dns = [''localhost'']\<rparr>"

text \<open>Go's \<^verbatim>\<open>crypto\<close> packages: generating a key and a serial number, the PEM texts of a certificate that is
  signed with its own key and of the key, and reading a pair of PEM texts back.\<close>

record ('key, 'cert) crypto =
  cy_key :: "'key option"
  cy_serial :: "int option"
  cy_create :: "cert_template \<Rightarrow> 'key \<Rightarrow> string option"
  cy_marshal :: "'key \<Rightarrow> string option"
  cy_pair :: "string \<Rightarrow> string \<Rightarrow> 'cert option"

datatype cert_err =
    KeyFailed | SerialFailed | CreateFailed | MarshalFailed | CertFileFailed string | KeyFileFailed string | BadPair

definition tls_cert_file_path :: "string \<Rightarrow> string" where
  "tls_cert_file_path dir = path_join [dir, ''.kubeport-tls.crt'']"

definition tls_key_file_path :: "string \<Rightarrow> string" where
  "tls_key_file_path dir = path_join [dir, ''.kubeport-tls.key'']"

definition load_pair :: "('key, 'cert) crypto \<Rightarrow> string \<Rightarrow> os_env \<Rightarrow> 'cert option" where
  "load_pair cy dir env =
     (case (read_file env (tls_cert_file_path dir), read_file env (tls_key_file_path dir)) of
        (Some c, Some k) \<Rightarrow> cy_pair cy c k
      | _ \<Rightarrow> None)"

definition generate_pair :: "('key, 'cert) crypto \<Rightarrow> int \<Rightarrow> cert_err + string \<times> string" where
  "generate_pair cy now =
     (case cy_key cy of
        None \<Rightarrow> Inl KeyFailed
      | Some key \<Rightarrow>
          (case cy_serial cy of
             None \<Rightarrow> Inl SerialFailed
           | Some serial \<Rightarrow>
               (case cy_create cy (daemon_template serial now) key of
                  None \<Rightarrow> Inl CreateFailed
                | Some c \<Rightarrow> (case cy_marshal cy key of None \<Rightarrow> Inl MarshalFailed | Some k \<Rightarrow> Inr (c, k)))))"

definition load_or_generate_cert ::
    "('key, 'cert) crypto \<Rightarrow> int \<Rightarrow> string \<Rightarrow> os_env \<Rightarrow> (cert_err + 'cert) \<times> os_env" where
  "load_or_generate_cert cy now dir env =
     (case load_pair cy dir env of
        Some cert \<Rightarrow> (Inr cert, env)
      | None \<Rightarrow>
          (case generate_pair cy now of
             Inl e \<Rightarrow> (Inl e, env)
           | Inr (c, k) \<Rightarrow>
               (let cf = tls_cert_file_path dir; kf = tls_key_file_path dir
                in case put_file env cf c of
                     (False, env1) \<Rightarrow> (Inl (CertFileFailed cf), env1)
                   | (True, env1) \<Rightarrow>
                       (case put_file env1 kf k of
                          (False, env2) \<Rightarrow> (Inl (KeyFileFailed kf), env2)
                        | (True, env2) \<Rightarrow>
                            ((case cy_pair cy c k of None \<Rightarrow> Inl BadPair | Some cert \<Rightarrow> Inr cert), env2)))))"

subsection \<open>Listening\<close>

text \<open>What the network answers: the error of binding an address, and whether the mode of the socket
  file can be set.\<close>

record bind_env =
  be_bind :: "string \<Rightarrow> string option"
  be_chmod :: bool
  be_removable :: bool

datatype 'cert serving =
    StaleSocket socket_err
  | BindFailed string string
  | ChmodFailed string
  | CertFailed cert_err
  | ServingUnix string
  | ServingTCP string 'cert string

text \<open>\<^verbatim>\<open>startUnix\<close>: the socket file before and after.  To close the listener removes its file.\<close>

definition start_unix :: "bind_env \<Rightarrow> string \<Rightarrow> socket_state \<Rightarrow> 'cert serving \<times> socket_state" where
  "start_unix be path f =
     (case clean_stale_socket (be_removable be) path f of
        (Some e, f1) \<Rightarrow> (StaleSocket e, f1)
      | (None, f1) \<Rightarrow>
          (case be_bind be path of
             Some t \<Rightarrow> (BindFailed path t, f1)
           | None \<Rightarrow> if be_chmod be then (ServingUnix path, LiveSocket) else (ChmodFailed path, NoSocket)))"

text \<open>The directory of the certificate: that of the configuration file, or the working directory.\<close>

definition cert_dir :: "config \<Rightarrow> string" where
  "cert_dir cfg = (if cfg_file_path cfg \<noteq> [] then path_dir (cfg_file_path cfg) else ''.'')"

definition start_tcp ::
    "bind_env \<Rightarrow> ('key, 'cert) crypto \<Rightarrow> int \<Rightarrow> config \<Rightarrow> string \<Rightarrow> os_env \<Rightarrow> 'cert serving \<times> os_env" where
  "start_tcp be cy now cfg addr env =
     (case be_bind be addr of
        Some t \<Rightarrow> (BindFailed addr t, env)
      | None \<Rightarrow>
          (case load_or_generate_cert cy now (cert_dir cfg) env of
             (Inl e, env1) \<Rightarrow> (CertFailed e, env1)
           | (Inr cert, env1) \<Rightarrow> (ServingTCP addr cert (cfg_api_key cfg), env1)))"

text \<open>\<^verbatim>\<open>Start\<close> of a server for a configuration.\<close>

definition start_server ::
    "bind_env \<Rightarrow> ('key, 'cert) crypto \<Rightarrow> (string \<Rightarrow> string) \<Rightarrow> int \<Rightarrow> config \<Rightarrow> socket_state \<Rightarrow> os_env
       \<Rightarrow> 'cert serving \<times> socket_state \<times> os_env" where
  "start_server be cy sha256 now cfg f env =
     (let lc = listen_address env sha256 cfg
      in case lc_mode lc of
           ListenTCP \<Rightarrow> (case start_tcp be cy now cfg (lc_address lc) env of (r, env1) \<Rightarrow> (r, f, env1))
         | ListenUnix \<Rightarrow> (case start_unix be (lc_address lc) f of (r, f1) \<Rightarrow> (r, f1, env)))"

text \<open>\<^verbatim>\<open>Shutdown\<close>: nothing if the server never served.  The result is whether the calls that were
  running could end (\<open>drained\<close> is the time that takes), and the socket file.\<close>

definition shutdown_server :: "'cert serving option \<Rightarrow> int \<Rightarrow> socket_state \<Rightarrow> bool \<times> socket_state" where
  "shutdown_server served drained f =
     (case served of
        Some (ServingUnix _) \<Rightarrow> (drained < 5 * sec, NoSocket)
      | Some (ServingTCP _ _ _) \<Rightarrow> (drained < 5 * sec, f)
      | _ \<Rightarrow> (True, f))"

subsection \<open>The certificate that is pinned\<close>

lemma cert_and_key_differ:
  assumes "is_abs cwd"
  shows "path_abs cwd (tls_cert_file_path d) \<noteq> path_abs cwd (tls_key_file_path d)"
proof -
  have "last (path_abs cwd (tls_cert_file_path d)) = CHR ''t''" "last (path_abs cwd (tls_key_file_path d)) = CHR ''y''"
    using assms by (simp_all add: tls_cert_file_path_def tls_key_file_path_def last_joined slash_def)
  then show ?thesis by auto
qed

lemma stored_pair:
  assumes "load_or_generate_cert cy now d env = (Inr cert, env1)" "is_abs (os_cwd env)"
    and "length (tls_cert_file_path d) < os_path_max env" "length (tls_key_file_path d) < os_path_max env"
  shows "\<exists>c k. read_file env1 (tls_cert_file_path d) = Some c \<and> read_file env1 (tls_key_file_path d) = Some k
    \<and> cy_pair cy c k = Some cert \<and> os_cwd env1 = os_cwd env \<and> os_path_max env1 = os_path_max env"
proof (cases "load_pair cy d env")
  case (Some x)
  then show ?thesis using assms(1)
    by (auto simp: load_or_generate_cert_def load_pair_def split: option.splits)
next
  case None
  with assms(1) obtain c k where ck: "cy_pair cy c k = Some cert"
    and env1: "env1 = write_file (write_file env (tls_cert_file_path d) c) (tls_key_file_path d) k"
    by (auto simp: load_or_generate_cert_def Let_def dest!: put_file_done
        split: sum.splits prod.splits bool.splits option.splits)
  show ?thesis
    using ck assms(3,4) cert_and_key_differ [OF assms(2), of d] by (auto simp: env1 read_file_def write_file_def)
qed

text \<open>The two ways in which the clients write the path name one file.\<close>

lemma cert_path_same:
  assumes "is_abs cwd" "ap_cfg a = Some cfg" "cfg_file_path cfg \<noteq> []"
  shows "path_abs cwd (resolve_cert_file a) = path_abs cwd (tls_cert_file_path (path_dir (cfg_file_path cfg)))"
proof -
  let ?d = "path_dir (cfg_file_path cfg)"
  have d: "?d \<noteq> []" by (simp add: path_dir_def)
  have "resolve_cert_file a = ?d @ slash # ''.kubeport-tls.crt''"
    using assms(2,3) by (simp add: resolve_cert_file_def slash_def)
  moreover have "tls_cert_file_path ?d = clean_path (?d @ slash # ''.kubeport-tls.crt'')"
    using d by (simp add: tls_cert_file_path_def path_join_def)
  ultimately show ?thesis using path_abs_clean [OF assms(1)] by simp
qed

text \<open>C23: the command line and the client library pin the certificate the daemon presents.  When a
  daemon of a configuration file serves on TCP, with a certificate that it found or generated, then
  the command line run with that configuration and a client of the library that discovers the
  configuration trust exactly the text of that certificate; and a daemon that is started later
  presents the same certificate again and generates none.  The connections of the proxies and to
  other instances pin nothing (lemma \<open>proxy_pins_nothing\<close>).\<close>

theorem presented_certificate_pinned:
  assumes "start_tcp be cy now cfg addr env = (ServingTCP addr cert key, env1)"
    and "\<And>c k x. cy_pair cy c k = Some x \<Longrightarrow> is_pem c"
    and "is_abs (os_cwd env)" "ap_cfg a = Some cfg" "cfg_file_path cfg \<noteq> []"
    and "\<forall>f \<in> {tls_cert_file_path (cert_dir cfg), tls_key_file_path (cert_dir cfg), resolve_cert_file a}.
           length f < os_path_max env"
    and "cy_pair cy1 = cy_pair cy" "be_bind be1 addr1 = None"
  shows "\<exists>pem k. cy_pair cy pem k = Some cert
    \<and> tls_roots_of env1 is_pem (resolve_cert_file a) = PinnedRoot pem
    \<and> tls_roots_of env1 is_pem (path_join [path_dir (cfg_file_path cfg), ''.kubeport-tls.crt'']) = PinnedRoot pem
    \<and> start_tcp be1 cy1 now1 cfg addr1 env1 = (ServingTCP addr1 cert (cfg_api_key cfg), env1)"
proof -
  let ?d = "path_dir (cfg_file_path cfg)"
  have d: "cert_dir cfg = ?d" using assms(5) by (simp add: cert_dir_def)
  have "load_or_generate_cert cy now ?d env = (Inr cert, env1)"
    using assms(1) by (auto simp: start_tcp_def d split: option.splits prod.splits sum.splits)
  from stored_pair [OF this assms(3)] assms(6) d
  obtain pem k where r: "read_file env1 (tls_cert_file_path ?d) = Some pem" "read_file env1 (tls_key_file_path ?d) = Some k"
    and ok: "cy_pair cy pem k = Some cert" "os_cwd env1 = os_cwd env" "os_path_max env1 = os_path_max env" by auto
  have pem: "is_pem pem" using assms(2) ok(1) .
  have lib: "tls_roots_of env1 is_pem (tls_cert_file_path ?d) = PinnedRoot pem"
    using r(1) pem by (simp add: tls_roots_of_def tls_cert_file_path_def path_join_def path_dir_def)
  have "read_file env1 (resolve_cert_file a) = Some pem"
    using r(1) assms(6) cert_path_same [OF assms(3-5)] ok(2,3) by (simp add: read_file_def split: if_splits)
  moreover have "resolve_cert_file a \<noteq> []" using assms(4,5) by (simp add: resolve_cert_file_def)
  ultimately have cli: "tls_roots_of env1 is_pem (resolve_cert_file a) = PinnedRoot pem"
    using pem by (simp add: tls_roots_of_def)
  have "start_tcp be1 cy1 now1 cfg addr1 env1 = (ServingTCP addr1 cert (cfg_api_key cfg), env1)"
    using r ok(1) assms(7,8) by (simp add: start_tcp_def d load_or_generate_cert_def load_pair_def)
  then show ?thesis using lib cli ok(1) by (auto simp: tls_cert_file_path_def)
qed

text \<open>The generated certificate is good for ten years but only for the names of the own machine.\<close>

lemma generated_names:
  "ct_dns (daemon_template serial now) @ ct_ips (daemon_template serial now) = [''localhost'', ''127.0.0.1'', ''::1'']"
  by (simp add: daemon_template_def)

definition demo_crypto :: "(nat, string) crypto" where
  "demo_crypto = \<lparr>cy_key = Some 7, cy_serial = Some 1, cy_create = (\<lambda>_ _. Some ''CERT''),
     cy_marshal = (\<lambda>_. Some ''KEY''), cy_pair = (\<lambda>c k. if c = ''CERT'' \<and> k = ''KEY'' then Some ''pair'' else None)\<rparr>"

definition open_binding :: bind_env where
  "open_binding = \<lparr>be_bind = (\<lambda>_. None), be_chmod = True, be_removable = True\<rparr>"

theorem presented_certificate_pinned_witness:
  "\<exists>env1. start_tcp open_binding demo_crypto 0 demo_loaded ''127.0.0.1:9000'' demo_env
       = (ServingTCP ''127.0.0.1:9000'' ''pair'' [], env1)
     \<and> tls_roots_of env1 (\<lambda>t. t = ''CERT'') (resolve_cert_file (demo_app\<lparr>ap_cfg := Some demo_loaded\<rparr>)) = PinnedRoot ''CERT''"
proof -
  obtain env1 where s: "start_tcp open_binding demo_crypto 0 demo_loaded ''127.0.0.1:9000'' demo_env
      = (ServingTCP ''127.0.0.1:9000'' ''pair'' [], env1)"
  proof -
    have "load_pair demo_crypto (cert_dir demo_loaded) demo_env = None" by code_simp
    moreover have "put_file demo_env g u = (True, write_file demo_env g u)"
      "put_file (write_file demo_env f t) g u = (True, write_file (write_file demo_env f t) g u)" for f t g u
      by (simp_all add: put_file_def write_file_def demo_env_def)
    moreover have "cfg_api_key demo_loaded = []" by code_simp
    ultimately show thesis
      using that by (simp add: start_tcp_def open_binding_def load_or_generate_cert_def generate_pair_def Let_def)
        (simp add: demo_crypto_def)
  qed
  have side: "is_abs (os_cwd demo_env)" "cfg_file_path demo_loaded \<noteq> []" by code_simp+
  have lens: "\<forall>f \<in> {tls_cert_file_path (cert_dir demo_loaded), tls_key_file_path (cert_dir demo_loaded),
      resolve_cert_file (demo_app\<lparr>ap_cfg := Some demo_loaded\<rparr>)}. length f < os_path_max demo_env"
    by code_simp
  have pem: "cy_pair demo_crypto c k = Some x \<Longrightarrow> c = ''CERT''" for c k x
    by (simp add: demo_crypto_def split: if_splits)
  have "be_bind open_binding ''127.0.0.1:9000'' = None" by (simp add: open_binding_def)
  from presented_certificate_pinned [OF s, of "\<lambda>t. t = ''CERT''", OF pem side(1) _ side(2) lens refl this]
  show ?thesis using s pem by fastforce
qed

subsection \<open>The address of the daemon\<close>

lemma joined_abs: "is_abs p \<Longrightarrow> is_abs (path_join (p # ps))"
proof -
  assume a: "is_abs p"
  then have "p \<noteq> []" by (simp add: is_abs_def)
  then have "path_join (p # ps) = clean_path (join [slash] (p # filter (\<lambda>p. p \<noteq> []) ps))" by (simp add: path_join_def)
  moreover have "is_abs (join [slash] (p # qs))" for qs using a by (cases qs) (simp_all add: is_abs_def)
  ultimately show ?thesis by (simp add: is_abs_clean_path)
qed

text \<open>The central directory and the names of the runtime files depend on the absolute path of the
  configuration file, not on the directory a command runs in.\<close>

lemma central_dir_cwd:
  assumes "\<forall>h \<in> set_option (os_home env). is_abs h" "p \<noteq> []" "q \<noteq> []"
    and "path_abs (os_cwd env) p = path_abs cwd q"
  shows "central_dir (env\<lparr>os_cwd := cwd\<rparr>) q = central_dir env p"
proof (cases "os_home env")
  case (Some h)
  then have h: "is_abs h" using assms(1) by simp
  have "file_exists (env\<lparr>os_cwd := cwd\<rparr>) (path_join [path_join (h # ds), n]) = file_exists env (path_join [path_join (h # ds), n])"
    for ds n
    using joined_abs [OF joined_abs [OF h], of ds "[n]"] by (simp add: file_exists_def read_file_def path_abs_def)
  then show ?thesis using Some assms(2-4) by (simp add: central_dir_def Let_def)
qed (simp add: central_dir_def)

lemma socket_file_cwd:
  assumes "\<forall>h \<in> set_option (os_home env). is_abs h" "cfg_file_path c \<noteq> []" "cfg_file_path c1 \<noteq> []"
    and "path_abs (os_cwd env) (cfg_file_path c) = path_abs cwd (cfg_file_path c1)" "cfg_listen c1 = cfg_listen c"
  shows "socket_file (env\<lparr>os_cwd := cwd\<rparr>) sha256 c1 = socket_file env sha256 c"
  using central_dir_cwd [OF assms(1-4)] assms(2-5)
  by (simp add: socket_file_def instance_id_def Let_def)

text \<open>A daemon that listens on TCP is not found by the command line of its own configuration, unless a host is
  named: the command line looks for the socket file of the configuration.\<close>

lemma tcp_daemon_not_found:
  assumes "start_server be cy sha256 now cfg f env = (ServingTCP addr cert key, f1, env1)"
    and "ap_cfg a = Some cfg" "resolve_host a = []" "\<not> file_exists env1 (socket_file env1 sha256 cfg)"
  shows "f1 = f \<and> dial_target_of env1 sha256 a = NotRunning"
  using assms by (auto simp: start_server_def start_unix_def dial_target_of_def socket_path_def Let_def
      split: prod.splits option.splits if_splits listen_mode.splits)

end
