(* ===== verification/Tunnel.thy ===== *)
theory Tunnel
  imports Streams
begin

text \<open>
  One tunnel to a pod with all its wrappers (\<^verbatim>\<open>internal/proxy/counting.go\<close>): dialling, creating streams,
  and reading and writing through the counting, the chaos and the throttling stream.  The bucket is
  shared by the streams of a tunnel; the chaos configuration is read anew at each write.
\<close>

record 'w wire_tunnel =
  tu_counter :: byte_counter
  tu_network :: parsed_network
  tu_bucket :: "rate_limiter option"
  tu_wire :: 'w

text \<open>\<^verbatim>\<open>countingDialer.Dial\<close>: \<open>dialled\<close> is the connection or the error of the dialer it wraps.\<close>

definition dial_tunnel ::
    "int \<Rightarrow> bool \<Rightarrow> parsed_network \<Rightarrow> 'e + 'w \<Rightarrow> byte_counter \<Rightarrow> 'e + 'w wire_tunnel" where
  "dial_tunnel now skip_reset net dialled c =
     (case dialled of
        Inl e \<Rightarrow> Inl e
      | Inr w \<Rightarrow> Inr
          \<lparr>tu_counter = count_dial skip_reset c, tu_network = net,
           tu_bucket = (if parsed_network_enabled net \<and> 0 < pn_bytes_per_sec net
                        then Some (new_rate_limiter now (pn_bytes_per_sec net)) else None),
           tu_wire = w\<rparr>)"

text \<open>What surrounds one write: the clock, the random draws, the sleeps that run to their end, and the
  chaos configuration at that moment.\<close>

record moment =
  mo_now :: int
  mo_draw :: "int \<Rightarrow> int"
  mo_u1 :: rat
  mo_u2 :: rat
  mo_awake :: "int \<Rightarrow> bool"
  mo_chaos :: "parsed_chaos option"

type_synonym 'w transfer = "int \<Rightarrow> 'w \<Rightarrow> io_result \<times> 'w"

text \<open>The stream below the chaos stream; the flag says that the draw of the jitter panicked.\<close>

definition throttle_layer ::
    "moment \<Rightarrow> parsed_network \<Rightarrow> 'w transfer \<Rightarrow> (bool \<times> rate_limiter option \<times> 'w) transfer" where
  "throttle_layer mo net inner len s =
     (if parsed_network_enabled net
      then (case throttled_write (mo_draw mo) (mo_awake mo) (mo_now mo) net inner len (snd s) of
              None \<Rightarrow> ((0, None), (True, snd s))
            | Some (r, s1) \<Rightarrow> (r, (fst s, s1)))
      else (case inner len (snd (snd s)) of (r, w) \<Rightarrow> (r, (fst s, fst (snd s), w))))"

definition tunnel_write :: "moment \<Rightarrow> 'w transfer \<Rightarrow> int \<Rightarrow> 'w wire_tunnel \<Rightarrow> (io_result \<times> 'w wire_tunnel) option" where
  "tunnel_write mo inner len t =
     (case chaos_write (mo_chaos mo) (mo_u1 mo) (mo_u2 mo) (mo_awake mo)
             (throttle_layer mo (tu_network t) inner) len
             (counter_chaos (tu_counter t), (False, tu_bucket t, tu_wire t)) of
        (r, k, (panicked, b, w)) \<Rightarrow>
          if panicked then None
          else Some (r, t\<lparr>tu_counter := count_write r ((tu_counter t)\<lparr>counter_chaos := k\<rparr>),
                          tu_bucket := b, tu_wire := w\<rparr>))"

definition tunnel_read :: "moment \<Rightarrow> 'w transfer \<Rightarrow> int \<Rightarrow> 'w wire_tunnel \<Rightarrow> io_result \<times> 'w wire_tunnel" where
  "tunnel_read mo inner len t =
     (case (if parsed_network_enabled (tu_network t)
            then throttled_read (mo_awake mo) (mo_now mo) inner len (tu_bucket t, tu_wire t)
            else (case inner len (tu_wire t) of (r, w) \<Rightarrow> (r, tu_bucket t, w))) of
        (r, b, w) \<Rightarrow> (r, t\<lparr>tu_counter := count_read r (tu_counter t), tu_bucket := b, tu_wire := w\<rparr>))"

text \<open>What happens on the streams of a tunnel.\<close>

datatype tunnel_op = WriteOp moment int | ReadOp moment int | failed_create: CreateFails

fun tunnel_run :: "'w transfer \<Rightarrow> 'w transfer \<Rightarrow> tunnel_op list \<Rightarrow> 'w wire_tunnel \<Rightarrow> 'w wire_tunnel option" where
  "tunnel_run put get [] t = Some t"
| "tunnel_run put get (WriteOp mo n # ops) t =
     (case tunnel_write mo put n t of None \<Rightarrow> None | Some (_, t1) \<Rightarrow> tunnel_run put get ops t1)"
| "tunnel_run put get (ReadOp mo n # ops) t = tunnel_run put get ops (snd (tunnel_read mo get n t))"
| "tunnel_run put get (CreateFails # ops) t =
     tunnel_run put get ops (t\<lparr>tu_counter := count_stream_error (tu_counter t)\<rparr>)"

subsection \<open>The accounts\<close>

text \<open>What a stream promises: it says how many bytes it has passed on in its direction, and it passes
  none in the other.\<close>

definition accounts :: "('s \<Rightarrow> int) \<Rightarrow> ('s \<Rightarrow> int) \<Rightarrow> 's transfer \<Rightarrow> bool" where
  "accounts passed other io = (\<forall>n s. 0 \<le> fst (fst (io n s))
     \<and> passed (snd (io n s)) = passed s + fst (fst (io n s)) \<and> other (snd (io n s)) = other s)"

lemma accountsD:
  "accounts passed other io \<Longrightarrow> io n s = (r, s') \<Longrightarrow> 0 \<le> fst r \<and> passed s' = passed s + fst r \<and> other s' = other s"
  unfolding accounts_def by (metis fst_conv snd_conv)

lemma throttled_write_accounts:
  assumes "accounts passed other inner" "throttled_write draw awake now net inner n s = Some (r, b, w)"
  shows "0 \<le> fst r \<and> passed w = passed (snd s) + fst r \<and> other w = other (snd s)"
  using assms(2) by (auto simp: throttled_write_def dest!: accountsD [OF assms(1)]
      split: option.splits if_splits prod.splits)

lemma throttle_layer_accounts:
  assumes "accounts passed other inner"
  shows "accounts (\<lambda>s. passed (snd (snd s))) (\<lambda>s. other (snd (snd s))) (throttle_layer mo net inner)"
  unfolding accounts_def
proof (intro allI)
  fix n and s :: "bool \<times> rate_limiter option \<times> 'a"
  obtain r s' where l: "throttle_layer mo net inner n s = (r, s')" by (cases "throttle_layer mo net inner n s")
  have "0 \<le> fst r \<and> passed (snd (snd s')) = passed (snd (snd s)) + fst r \<and> other (snd (snd s')) = other (snd (snd s))"
  proof (cases "parsed_network_enabled net")
    case True
    then show ?thesis
    proof (cases "throttled_write (mo_draw mo) (mo_awake mo) (mo_now mo) net inner n (snd s)")
      case None
      with True l show ?thesis by (auto simp: throttle_layer_def)
    next
      case (Some x)
      obtain r1 b w where "x = (r1, b, w)" by (cases x)
      with True l Some throttled_write_accounts [OF assms, of _ _ _ _ n "snd s" r1 b w]
      show ?thesis by (auto simp: throttle_layer_def)
    qed
  next
    case False
    with l show ?thesis
      by (auto simp: throttle_layer_def split: prod.splits dest: accountsD [OF assms])
  qed
  with l show "0 \<le> fst (fst (throttle_layer mo net inner n s))
    \<and> passed (snd (snd (snd (throttle_layer mo net inner n s)))) =
        passed (snd (snd s)) + fst (fst (throttle_layer mo net inner n s))
    \<and> other (snd (snd (snd (throttle_layer mo net inner n s)))) = other (snd (snd s))"
    by simp
qed

lemma chaos_write_accounts:
  assumes "accounts passed other inner" "chaos_write cfg u1 u2 awake inner n s = (r, k, w)"
  shows "0 \<le> fst r \<and> passed w = passed (snd s) + fst r \<and> other w = other (snd s)"
  using assms(2) by (auto simp: chaos_write_def Let_def dest!: accountsD [OF assms(1)]
      split: option.splits if_splits prod.splits)

text \<open>What one operation adds to the counters is what went over the wire.\<close>

lemma tunnel_write_accounts:
  assumes "accounts sent received put" "tunnel_write mo put n t = Some (r, t1)"
  shows "0 \<le> fst r \<and> sent (tu_wire t1) = sent (tu_wire t) + fst r \<and> received (tu_wire t1) = received (tu_wire t)
    \<and> (\<exists>k. tu_counter t1 = count_write r ((tu_counter t)\<lparr>counter_chaos := k\<rparr>))"
proof -
  let ?layer = "throttle_layer mo (tu_network t) put"
  obtain r' k p b w where c: "chaos_write (mo_chaos mo) (mo_u1 mo) (mo_u2 mo) (mo_awake mo) ?layer n
      (counter_chaos (tu_counter t), (False, tu_bucket t, tu_wire t)) = (r', k, (p, b, w))"
    by (metis prod_cases5)
  then have t1: "r = r'" "t1 = t\<lparr>tu_counter := count_write r ((tu_counter t)\<lparr>counter_chaos := k\<rparr>), tu_bucket := b, tu_wire := w\<rparr>"
    using assms(2) by (auto simp: tunnel_write_def split: if_splits)
  show ?thesis
    using chaos_write_accounts [OF throttle_layer_accounts [OF assms(1)] c] by (auto simp: t1)
qed

lemma throttled_read_accounts:
  assumes "accounts passed other inner" "throttled_read awake now inner n s = (r, b, w)"
  shows "0 \<le> fst r \<and> passed w = passed (snd s) + fst r \<and> other w = other (snd s)"
  using assms(2) by (auto simp: throttled_read_def dest!: accountsD [OF assms(1)]
      split: option.splits if_splits prod.splits)

lemma tunnel_read_accounts:
  assumes "accounts received sent get" "tunnel_read mo get n t = (r, t1)"
  shows "0 \<le> fst r \<and> received (tu_wire t1) = received (tu_wire t) + fst r \<and> sent (tu_wire t1) = sent (tu_wire t)
    \<and> tu_counter t1 = count_read r (tu_counter t)"
proof (cases "parsed_network_enabled (tu_network t)")
  case True
  obtain r' b w where c: "throttled_read (mo_awake mo) (mo_now mo) get n (tu_bucket t, tu_wire t) = (r', b, w)"
    by (metis prod_cases3)
  then show ?thesis using assms(2) True throttled_read_accounts [OF assms(1) c]
    by (auto simp: tunnel_read_def)
next
  case False
  then show ?thesis using assms(2)
    by (auto simp: tunnel_read_def split: prod.splits dest: accountsD [OF assms(1)])
qed

lemma wrap64_wrap64 [simp]: "wrap64 (wrap64 a) = wrap64 a"
  using wrap64_range by (intro wrap64_id) auto

lemma wrap64_add [simp]: "wrap64 (wrap64 a + b) = wrap64 (a + b)"
proof -
  have "(wrap64 a + b + 2 ^ 63) mod 2 ^ 64 = ((a + 2 ^ 63) mod 2 ^ 64 + b) mod (2 ^ 64 :: int)"
    by (simp add: wrap64_def)
  also have "\<dots> = (a + b + 2 ^ 63) mod 2 ^ 64" by (simp add: mod_add_left_eq add.assoc add.commute [of b])
  finally show ?thesis by (simp only: wrap64_def)
qed

text \<open>Counters as a run of the program leaves them: 64-bit numbers.\<close>

definition in_width :: "byte_counter \<Rightarrow> bool" where
  "in_width c = (\<forall>x \<in> {bytes_out c, bytes_in c, conn_bytes_out c, conn_bytes_in c, stream_errors c}. wrap64 x = x)"

text \<open>Both counters of a direction grow by what went over the wire, and the errors by those that happened.\<close>

definition counted :: "int \<Rightarrow> int \<Rightarrow> int \<Rightarrow> byte_counter \<Rightarrow> byte_counter \<Rightarrow> bool" where
  "counted out inn errs c c1 =
     (bytes_out c1 = wrap64 (bytes_out c + out) \<and> bytes_in c1 = wrap64 (bytes_in c + inn)
      \<and> conn_bytes_out c1 = wrap64 (conn_bytes_out c + out) \<and> conn_bytes_in c1 = wrap64 (conn_bytes_in c + inn)
      \<and> stream_errors c1 = wrap64 (stream_errors c + errs))"

lemma counted_in_width: "counted out inn errs c c1 \<Longrightarrow> in_width c1"
  by (simp add: counted_def in_width_def)

lemma counted_none: "in_width c \<Longrightarrow> counted 0 0 0 c c"
  by (simp add: counted_def in_width_def)

lemma counted_trans:
  "counted o1 i1 e1 c c1 \<Longrightarrow> counted o2 i2 e2 c1 c2 \<Longrightarrow> counted (o1 + o2) (i1 + i2) (e1 + e2) c c2"
  by (simp add: counted_def add.assoc)

lemma counted_write: "in_width c \<Longrightarrow> 0 \<le> fst r \<Longrightarrow> counted (fst r) 0 0 c (count_write r (c\<lparr>counter_chaos := k\<rparr>))"
  by (cases "fst r = 0") (auto simp: counted_def count_write_def in_width_def)

lemma counted_read: "in_width c \<Longrightarrow> 0 \<le> fst r \<Longrightarrow> counted 0 (fst r) 0 c (count_read r c)"
  by (cases "fst r = 0") (auto simp: counted_def count_read_def in_width_def)

lemma counted_error: "in_width c \<Longrightarrow> counted 0 0 1 c (count_stream_error c)"
  by (simp add: counted_def count_stream_error_def in_width_def)

lemma run_counted:
  assumes "accounts sent received put" "accounts received sent get"
  shows "tunnel_run put get ops t = Some t1 \<Longrightarrow> in_width (tu_counter t) \<Longrightarrow>
    counted (sent (tu_wire t1) - sent (tu_wire t)) (received (tu_wire t1) - received (tu_wire t))
      (int (length (filter failed_create ops))) (tu_counter t) (tu_counter t1)"
proof (induction ops arbitrary: t)
  case Nil
  then show ?case using counted_none by simp
next
  case (Cons op ops)
  show ?case
  proof (cases op)
    case (WriteOp mo n)
    with Cons(2) obtain r t2 where w: "tunnel_write mo put n t = Some (r, t2)" "tunnel_run put get ops t2 = Some t1"
      by (auto split: option.splits)
    from tunnel_write_accounts [OF assms(1) w(1)] obtain k where
      k: "0 \<le> fst r" "sent (tu_wire t2) = sent (tu_wire t) + fst r" "received (tu_wire t2) = received (tu_wire t)"
        "tu_counter t2 = count_write r ((tu_counter t)\<lparr>counter_chaos := k\<rparr>)" by blast
    have c: "counted (fst r) 0 0 (tu_counter t) (tu_counter t2)"
      unfolding k(4) by (rule counted_write [OF Cons(3) k(1)])
    from counted_trans [OF c Cons(1) [OF w(2) counted_in_width [OF c]]] k(2,3) WriteOp show ?thesis
      by (simp add: algebra_simps)
  next
    case (ReadOp mo n)
    obtain r t2 where w: "tunnel_read mo get n t = (r, t2)" by (cases "tunnel_read mo get n t")
    note k = tunnel_read_accounts [OF assms(2) w]
    have c: "counted 0 (fst r) 0 (tu_counter t) (tu_counter t2)" using counted_read [OF Cons(3)] k by simp
    have "tunnel_run put get ops t2 = Some t1" using Cons(2) w ReadOp by simp
    from counted_trans [OF c Cons(1) [OF this counted_in_width [OF c]]] k ReadOp show ?thesis
      by (simp add: algebra_simps)
  next
    case CreateFails
    let ?t = "t\<lparr>tu_counter := count_stream_error (tu_counter t)\<rparr>"
    have c: "counted 0 0 1 (tu_counter t) (tu_counter ?t)" using counted_error [OF Cons(3)] by simp
    have "tunnel_run put get ops ?t = Some t1" using Cons(2) CreateFails by simp
    from counted_trans [OF c Cons(1) [OF this counted_in_width [OF c]]] CreateFails show ?thesis
      by (simp add: algebra_simps)
  qed
qed

text \<open>C38: the traffic a forward reports is the traffic of its tunnel.  Whatever is read and written on
  the streams of a tunnel, at whatever latency, bandwidth and chaos, the counters of the connection are the
  bytes that went over its wire since it was dialled, the totals have grown by as much, and the stream
  errors are the streams that could not be created since then; all as 64-bit numbers.\<close>

theorem traffic_counted_exactly:
  assumes "accounts sent received put" "accounts received sent get" "in_width c"
    and "dial_tunnel now False net (Inr w) c = (Inr t :: 'e + 'w wire_tunnel)" "tunnel_run put get ops t = Some t1"
  shows "conn_bytes_out (tu_counter t1) = wrap64 (sent (tu_wire t1) - sent w)
    \<and> conn_bytes_in (tu_counter t1) = wrap64 (received (tu_wire t1) - received w)
    \<and> bytes_out (tu_counter t1) = wrap64 (bytes_out c + (sent (tu_wire t1) - sent w))
    \<and> bytes_in (tu_counter t1) = wrap64 (bytes_in c + (received (tu_wire t1) - received w))
    \<and> stream_errors (tu_counter t1) = wrap64 (int (length (filter failed_create ops)))"
proof -
  have t: "tu_counter t = c\<lparr>stream_errors := 0, conn_bytes_in := 0, conn_bytes_out := 0\<rparr>" "tu_wire t = w"
    using assms(4) by (auto simp: dial_tunnel_def count_dial_def)
  have "in_width (tu_counter t)" using assms(3) by (simp add: t in_width_def)
  from run_counted [OF assms(1,2,5) this] show ?thesis by (simp add: counted_def t)
qed

definition demo_moment :: moment where
  "demo_moment = \<lparr>mo_now = 0, mo_draw = (\<lambda>_. 0), mo_u1 = 1/2, mo_u2 = 1/2, mo_awake = (\<lambda>_. True), mo_chaos = None\<rparr>"

text \<open>A wire that takes at most a thousand bytes at a time and delivers what is asked for.\<close>

definition demo_put :: "(int \<times> int) transfer" where
  "demo_put n s = (let m = (if n < 0 then 0 else if 1000 < n then 1000 else n) in ((m, None), (fst s + m, snd s)))"

definition demo_get :: "(int \<times> int) transfer" where
  "demo_get n s = (let m = (if n < 0 then 0 else n) in ((m, None), (fst s, snd s + m)))"

theorem traffic_counted_exactly_witness:
  "\<exists>t t1. dial_tunnel 0 False \<lparr>pn_latency = 0, pn_jitter = 0, pn_bytes_per_sec = 5000\<rparr> (Inr (0, 0)) zero_counter
        = (Inr t :: string + (int \<times> int) wire_tunnel)
     \<and> tunnel_run demo_put demo_get [WriteOp demo_moment 1500, CreateFails, ReadOp demo_moment 30] t = Some t1
     \<and> conn_bytes_out (tu_counter t1) = 1000 \<and> conn_bytes_in (tu_counter t1) = 30 \<and> stream_errors (tu_counter t1) = 1"
proof -
  have acc: "accounts fst snd demo_put" "accounts snd fst demo_get"
    by (simp_all add: accounts_def demo_put_def demo_get_def Let_def)
  let ?net = "\<lparr>pn_latency = 0, pn_jitter = 0, pn_bytes_per_sec = 5000\<rparr> :: parsed_network"
  let ?ops = "[WriteOp demo_moment 1500, CreateFails, ReadOp demo_moment 30]"
  obtain t where t: "dial_tunnel 0 False ?net (Inr (0, 0)) zero_counter = (Inr t :: string + (int \<times> int) wire_tunnel)"
    by (simp add: dial_tunnel_def)
  have e: "parsed_network_enabled ?net" by (simp add: parsed_network_enabled_def)
  have "\<exists>t1. tunnel_run demo_put demo_get ?ops t = Some t1 \<and> tu_wire t1 = (1000, 30)"
  proof -
    have tt: "tu_network t = ?net" "tu_wire t = (0, 0)" "tu_bucket t = Some (new_rate_limiter 0 5000)"
      using t e by (auto simp: dial_tunnel_def)
    show ?thesis
      by (simp add: tt tunnel_write_def tunnel_read_def chaos_write_def throttle_layer_def throttled_write_def
          write_delay_def throttled_read_def e demo_moment_def demo_put_def demo_get_def split: prod.split)
  qed
  then obtain t1 where t1: "tunnel_run demo_put demo_get ?ops t = Some t1" "tu_wire t1 = (1000, 30)" by blast
  have "in_width zero_counter" by (simp add: in_width_def zero_counter_def)
  from traffic_counted_exactly [OF acc this t t1(1)] t t1 show ?thesis by auto
qed

subsection \<open>Forwarding one connection\<close>

text \<open>\<^verbatim>\<open>spdyForwardConn\<close> of \<^verbatim>\<open>lazy.go\<close>: an error stream and a data stream for a client's connection, by the
  headers they are created with.  \<open>creates\<close> says whether the tunnel can create a stream, and \<open>first\<close> what
  comes first: one direction is at its end, the context is done, or the error stream is (with a message, or
  a failure to read it).  The copying itself is left to the streams.\<close>

datatype stream_type = ErrorStream | DataStream

record stream_headers =
  sh_type :: stream_type
  sh_port :: string
  sh_request :: string

datatype first_event = RemoteDone | LocalDone | ContextEnded | ErrorStreamEnds "string option"

datatype forward_end = NoErrorStream | NoDataStream | ForwardEnded first_event

record forwarded =
  fo_created :: "stream_headers list"
  fo_removed :: "stream_headers list"
  fo_closed :: bool

definition spdy_forward_conn ::
    "(stream_headers \<Rightarrow> bool) \<Rightarrow> first_event \<Rightarrow> int \<Rightarrow> int \<Rightarrow> forward_end \<times> forwarded" where
  "spdy_forward_conn creates first port request =
     (let es = \<lparr>sh_type = ErrorStream, sh_port = itoa port, sh_request = itoa request\<rparr>;
          ds = \<lparr>sh_type = DataStream, sh_port = itoa port, sh_request = itoa request\<rparr>
      in if \<not> creates es then (NoErrorStream, \<lparr>fo_created = [], fo_removed = [], fo_closed = True\<rparr>)
         else if \<not> creates ds then (NoDataStream, \<lparr>fo_created = [es], fo_removed = [es], fo_closed = True\<rparr>)
         else (ForwardEnded first, \<lparr>fo_created = [es, ds], fo_removed = [ds, es], fo_closed = True\<rparr>))"

text \<open>Whatever happens, no stream outlives its connection, and the client's connection is closed.\<close>

lemma no_stream_left:
  "set (fo_removed (snd (spdy_forward_conn creates first port request)))
     = set (fo_created (snd (spdy_forward_conn creates first port request)))"
  "fo_closed (snd (spdy_forward_conn creates first port request))"
  by (auto simp: spdy_forward_conn_def Let_def)

end
