(* ===== verification/Listening.thy ===== *)
theory Listening
  imports Socks HttpProxy Daemons
begin

text \<open>
  The SOCKS5 and the HTTP proxy as servers (\<^verbatim>\<open>pkg/proxy/socks.go\<close>, \<^verbatim>\<open>httpproxy.go\<close>), and the two ways to
  run them: the commands of \<^verbatim>\<open>internal/cli/cmd_socks.go\<close> and the daemon's own start
  (\<^verbatim>\<open>cmd_proxy.go\<close>).
\<close>

subsection \<open>The servers\<close>

text \<open>What \<^verbatim>\<open>Accept\<close> returns, one after the other.\<close>

datatype 'c accepted = ListenerClosed | AcceptFailed string | Accepted 'c

text \<open>\<^verbatim>\<open>Serve\<close>: the outcome of each connection that is handled, and whether the loop has ended.  A failed
  accept is logged and the loop goes on; after the listener was closed the connections that run are
  waited for.\<close>

fun accept_loop :: "('c \<Rightarrow> 'r) \<Rightarrow> 'c accepted list \<Rightarrow> 'r list \<times> bool" where
  "accept_loop handler [] = ([], False)"
| "accept_loop handler (ListenerClosed # rest) = ([], True)"
| "accept_loop handler (AcceptFailed t # rest) = accept_loop handler rest"
| "accept_loop handler (Accepted c # rest) =
     (case accept_loop handler rest of (rs, ended) \<Rightarrow> (handler c # rs, ended))"

text \<open>\<open>listened\<close> is the error or the address of the listener.\<close>

definition new_socks_server :: "string + string \<Rightarrow> proxy_flags \<Rightarrow> string + string \<times> socks_server" where
  "new_socks_server listened f =
     sbind listened (\<lambda>addr. Inr (addr,
       if pf_username f \<noteq> [] \<or> pf_password f \<noteq> []
       then \<lparr>ss_username = pf_username f, ss_password = pf_password f\<rparr>
       else \<lparr>ss_username = [], ss_password = []\<rparr>))"

definition new_http_server :: "string + string \<Rightarrow> proxy_flags \<Rightarrow> string + string \<times> http_server" where
  "new_http_server listened f =
     sbind listened (\<lambda>addr. Inr (addr,
       if pf_username f \<noteq> [] \<or> pf_password f \<noteq> []
       then \<lparr>hs_username = pf_username f, hs_password = pf_password f\<rparr>
       else \<lparr>hs_username = [], hs_password = []\<rparr>))"

definition serve_socks :: "socks_server \<Rightarrow> (string \<Rightarrow> bool) \<Rightarrow> conn accepted list \<Rightarrow> (socks_end \<times> conn) list \<times> bool" where
  "serve_socks srv dial = accept_loop (handle_conn srv dial)"

definition serve_http ::
    "http_server \<Rightarrow> (string \<Rightarrow> bool) \<Rightarrow> (http_request option \<times> exchange list) accepted list \<Rightarrow> http_outcome list \<times> bool" where
  "serve_http srv dial = accept_loop (\<lambda>(first, xs). handle_http_conn srv dial first xs)"

subsection \<open>What the commands print\<close>

definition mappings_lines :: "(string \<times> string) list \<Rightarrow> string list" where
  "mappings_lines addrs =
     (if addrs = [] then []
      else [''Active mappings ('' @ itoa (int (length addrs)) @ ''):''] @
        map (\<lambda>(k, v). ''  '' @ k @ '' '' @ [CHR 0xE2, CHR 0x86, CHR 0x92] @ '' '' @ v) addrs @ [[]])"

text \<open>The lines of \<^verbatim>\<open>cmdSocks\<close> and \<^verbatim>\<open>cmdHTTPProxy\<close>; the user name alone decides whether they call the
  authentication enabled.\<close>

definition socks_banner :: "string \<Rightarrow> proxy_flags \<Rightarrow> string list" where
  "socks_banner addr f =
     [''SOCKS5 proxy listening on '' @ addr] @
     (if pf_username f \<noteq> []
      then [''Authentication: enabled (username/password)'',
            ''Usage: curl --proxy socks5h://'' @ pf_username f @ '':'' @ pf_password f @ ''@'' @ addr @ '' http://my-service:8080/'', []]
      else [''Usage: curl --proxy socks5h://'' @ addr @ '' http://my-service:8080/'', []])"

definition http_banner :: "string \<Rightarrow> proxy_flags \<Rightarrow> string list" where
  "http_banner addr f =
     [''HTTP proxy listening on '' @ addr] @
     (if pf_username f \<noteq> []
      then [''Authentication: enabled (basic auth)'',
            ''Usage: curl --proxy http://'' @ pf_username f @ '':'' @ pf_password f @ ''@'' @ addr @ '' http://my-service:8080/'', []]
      else [''Usage: curl --proxy http://'' @ addr @ '' http://my-service:8080/'', []]) @
     [''Env:   export http_proxy=http://'' @ addr @ '' https_proxy=http://'' @ addr, []]"

subsection \<open>Who is served\<close>

text \<open>The connections that are accepted before the listener is closed.\<close>

fun accepted_conns :: "'c accepted list \<Rightarrow> 'c list" where
  "accepted_conns [] = []"
| "accepted_conns (ListenerClosed # rest) = []"
| "accepted_conns (AcceptFailed t # rest) = accepted_conns rest"
| "accepted_conns (Accepted c # rest) = c # accepted_conns rest"

lemma accept_loop_handles: "fst (accept_loop handler cs) = map handler (accepted_conns cs)"
  by (induction handler cs rule: accept_loop.induct) (auto split: prod.split)

lemma accept_loop_ends: "snd (accept_loop handler cs) = (ListenerClosed \<in> set cs)"
  by (induction handler cs rule: accept_loop.induct) (auto split: prod.split)

text \<open>The command without arguments and the daemon's own start make the same proxy.\<close>

lemma auto_start_agrees:
  assumes "ap_cfg a = Some cfg"
  shows "cmd_socks env sha256 a [] = Inr (auto_start env sha256 a ''127.0.0.1:1080'' (cfg_socks cfg))"
    and "cmd_http_proxy env sha256 a [] = Inr (auto_start env sha256 a ''127.0.0.1:3128'' (cfg_http_proxy cfg))"
  using assms by (auto simp: cmd_socks_def cmd_http_proxy_def auto_start_def proxy_setup_def Let_def result_simps
      apply_config_defaults_def or_string_def)

text \<open>Neither passes the certificate of a daemon that listens on TCP, so its self-signed certificate is
  checked against the roots of the system.\<close>

lemma proxy_pins_nothing:
  "co_tls_cert (foldl (\<lambda>o1 f. apply_option f o1) default_options (connect_options env sha256 a px f)) = []"
  by (auto simp: connect_options_def Let_def default_options_def split: option.split listen_mode.split)

text \<open>C22: a proxy with credentials serves only clients that have them.  Whether it was started by the
  command or by the daemon, and whatever is accepted until its listener is closed, every connection that the
  SOCKS5 server relays has sent exactly the user name and password of its flags, and every connection that
  the HTTP proxy forwards or tunnels has carried them in its first request.\<close>

theorem proxies_serve_authenticated:
  assumes "pf_username f \<noteq> [] \<or> pf_password f \<noteq> []"
    and "new_socks_server listened f = Inr (addr, ss)" "new_http_server listened1 f = Inr (addr1, hs)"
  shows "list_all2 (\<lambda>c r. (\<exists>a. fst r = Relaying a) \<longrightarrow>
        (\<exists>methods rest. cn_in c = [5, word_of_nat (length methods)] @ methods
           @ [1, word_of_nat (length (pf_username f))] @ bytes_of (pf_username f)
           @ [word_of_nat (length (pf_password f))] @ bytes_of (pf_password f) @ rest))
      (accepted_conns cs) (fst (serve_socks ss dial cs))
    \<and> list_all2 (\<lambda>q r. (\<exists>a. r = Tunnel a) \<or> (\<exists>a b c d. r = Forwarded a b c d) \<longrightarrow>
        (\<exists>r0 enc. fst q = Some r0 \<and> header_get ''Proxy-Authorization'' r0 = ''Basic '' @ enc
           \<and> b64_decode enc = Some (pf_username f @ '':'' @ pf_password f)))
      (accepted_conns qs) (fst (serve_http hs dial qs))"
proof -
  have ss: "requires_auth ss" "ss_username ss = pf_username f" "ss_password ss = pf_password f"
    and hs: "http_requires_auth hs" "hs_username hs = pf_username f" "hs_password hs = pf_password f"
    using assms by (auto simp: new_socks_server_def new_http_server_def result_simps requires_auth_def http_requires_auth_def)
  have socks: "\<exists>methods rest. cn_in c = [5, word_of_nat (length methods)] @ methods @ credentials ss @ rest"
    if r: "fst (handle_conn ss dial c) = Relaying a" for a c
  proof -
    obtain c1 where "negotiate ss c = (Inr (), c1)"
      using r by (auto simp: handle_conn_def split: prod.splits sum.splits)
    then show ?thesis unfolding socks_handshake_iff by blast
  qed
  have http: "\<exists>r0. first = Some r0 \<and> check_auth hs r0"
    if "(\<exists>a. handle_http_conn hs dial first xs = Tunnel a) \<or> (\<exists>a b c d. handle_http_conn hs dial first xs = Forwarded a b c d)"
    for first xs
    using that hs(1) by (auto simp: handle_http_conn_def split: option.splits if_splits)
  show ?thesis
  proof (intro conjI)
    show "list_all2 (\<lambda>c r. (\<exists>a. fst r = Relaying a) \<longrightarrow>
          (\<exists>methods rest. cn_in c = [5, word_of_nat (length methods)] @ methods
             @ [1, word_of_nat (length (pf_username f))] @ bytes_of (pf_username f)
             @ [word_of_nat (length (pf_password f))] @ bytes_of (pf_password f) @ rest))
        (accepted_conns cs) (fst (serve_socks ss dial cs))"
      using socks unfolding serve_socks_def accept_loop_handles list_all2_map2 
      by (auto simp: list_all2_same credentials_def ss)
    show "list_all2 (\<lambda>q r. (\<exists>a. r = Tunnel a) \<or> (\<exists>a b c d. r = Forwarded a b c d) \<longrightarrow>
          (\<exists>r0 enc. fst q = Some r0 \<and> header_get ''Proxy-Authorization'' r0 = ''Basic '' @ enc
             \<and> b64_decode enc = Some (pf_username f @ '':'' @ pf_password f)))
        (accepted_conns qs) (fst (serve_http hs dial qs))"
      using http unfolding serve_http_def accept_loop_handles list_all2_map2
      by (auto simp: list_all2_same check_auth_iff hs) blast+
  qed
qed

theorem proxies_serve_authenticated_witness:
  "\<exists>addr ss addr1 hs c. new_socks_server (Inr ''127.0.0.1:1080'') \<lparr>pf_listen = [], pf_domain = [], pf_username = ''u'', pf_password = ''p''\<rparr>
       = Inr (addr, ss)
     \<and> new_http_server (Inr ''127.0.0.1:3128'') \<lparr>pf_listen = [], pf_domain = [], pf_username = ''u'', pf_password = ''p''\<rparr>
       = Inr (addr1, hs)
     \<and> fst (hd (fst (serve_socks ss (\<lambda>_. True) [AcceptFailed [], Accepted c]))) = Relaying ''web:80''
     \<and> (\<exists>methods rest. cn_in c = [5, word_of_nat (length methods)] @ methods @ [1, 1, 117, 1, 112] @ rest)"
proof -
  let ?f = "\<lparr>pf_listen = [], pf_domain = [], pf_username = ''u'', pf_password = ''p''\<rparr>"
  let ?c = "\<lparr>cn_in = [5, 1, 2, 1, 1, 117, 1, 112, 5, 1, 0, 3, 3, 119, 101, 98, 0, 80, 71], cn_out = [], cn_writes = 3\<rparr>"
  let ?s = "\<lparr>ss_username = ''u'', ss_password = ''p''\<rparr>"
  have f: "pf_username ?f \<noteq> [] \<or> pf_password ?f \<noteq> []" by simp
  have s: "new_socks_server (Inr ''127.0.0.1:1080'') ?f = Inr (''127.0.0.1:1080'', ?s)"
    by (simp add: new_socks_server_def)
  have h: "new_http_server (Inr ''127.0.0.1:3128'') ?f = Inr (''127.0.0.1:3128'', \<lparr>hs_username = ''u'', hs_password = ''p''\<rparr>)"
    by (simp add: new_http_server_def)
  have r: "fst (handle_conn ?s (\<lambda>_. True) ?c) = Relaying ''web:80''" by code_simp
  have b: "bytes_of ''u'' = [117]" "bytes_of ''p'' = [112]" by code_simp+
  from proxies_serve_authenticated [OF f s h, where cs = "[AcceptFailed [], Accepted ?c]" and dial = "\<lambda>_. True" and qs = "[]"] r
  have ex: "\<exists>methods rest. cn_in ?c = [5, word_of_nat (length methods)] @ methods @ [1, 1, 117, 1, 112] @ rest"
    by (auto simp: serve_socks_def b)
  have w: "fst (hd (fst (serve_socks ?s (\<lambda>_. True) [AcceptFailed [], Accepted ?c]))) = Relaying ''web:80''"
    using r by (simp add: serve_socks_def)
  from s h w ex show ?thesis by blast
qed

end
