(* ===== verification/Admin.thy ===== *)
theory Admin
  imports Output Update
begin

text \<open>
  The commands that show the configuration, change chaos settings and update the program, with what they
  print (\<^verbatim>\<open>config_cmd.go\<close>, \<^verbatim>\<open>cmd_chaos.go\<close> and \<^verbatim>\<open>cmd_update.go\<close> of \<^verbatim>\<open>internal/cli\<close>).
\<close>

subsection \<open>The configuration\<close>

text \<open>\<^verbatim>\<open>configShow\<close>: the cells of the table, which \<^verbatim>\<open>tabwriter\<close> aligns.\<close>

definition config_row :: "service_config \<Rightarrow> string list" where
  "config_row s =
     [''  '' @ svc_name s, if is_pod s then ''pod'' else ''service'', if is_pod s then svc_pod s else svc_service s,
      if svc_local_port s = 0 then ''dynamic'' else itoa (svc_local_port s), itoa (svc_remote_port s),
      if svc_namespace s = [] then ''-'' else svc_namespace s]"

record config_shown =
  cs_path :: string
  cs_context :: string
  cs_namespace :: string
  cs_format :: format
  cs_services :: "string list list"

definition config_show :: "os_env \<Rightarrow> codecs \<Rightarrow> app \<Rightarrow> config_err + config_shown" where
  "config_show env cd a =
     (case resolve_config_path env a of
        None \<Rightarrow> Inl NoConfigFile
      | Some path \<Rightarrow>
          sbind (wrap_err EditLoad (load_config env cd path)) (\<lambda>cfg.
            Inr \<lparr>cs_path = path, cs_context = or_string (cfg_context cfg) ''(not set)'',
                 cs_namespace = or_string (cfg_namespace cfg) ''(not set)'', cs_format = cfg_format cfg,
                 cs_services = map config_row (cfg_services cfg)\<rparr>))"

definition config_path :: "os_env \<Rightarrow> app \<Rightarrow> config_err + string" where
  "config_path env a = (case resolve_config_path env a of None \<Rightarrow> Inl NoConfigFile | Some path \<Rightarrow> Inr path)"

subsection \<open>Chaos settings\<close>

datatype chaos_end = ChaosNeedsKey | ChaosNotRunning | ChaosFailed rpc_err | ChaosLines "string list"

definition run_update_chaos :: "dial_target \<Rightarrow> rpc_err + response \<Rightarrow> chaos_end" where
  "run_update_chaos tgt ans =
     (case tgt of
        KeyRequired \<Rightarrow> ChaosNeedsKey
      | NotRunning \<Rightarrow> ChaosNotRunning
      | _ \<Rightarrow> (case ans of
                Inl e \<Rightarrow> ChaosFailed e
              | Inr (ChaosResponse updated missing) \<Rightarrow> ChaosLines
                  ((if updated = [] then [] else [color_green @ ''Updated:'' @ color_reset @ '' '' @ join '', '' updated]) @
                   (if missing = [] then [] else [color_yellow @ ''Not found:'' @ color_reset @ '' '' @ join '', '' missing]))
              | Inr _ \<Rightarrow> ChaosLines []))"

subsection \<open>Watching\<close>

text \<open>\<^verbatim>\<open>cmdWatch\<close>: how often the status is rendered before a key or a signal ends it; keys are read only
  when the terminal is in raw mode.\<close>

datatype watch_input = WatchTick | WatchKey char | WatchSignal

datatype watch_end = WatchNeedsKey | WatchNotRunning | Watched nat bool

fun watch_events :: "bool \<Rightarrow> watch_input list \<Rightarrow> nat \<Rightarrow> watch_end" where
  "watch_events raw [] n = Watched n False"
| "watch_events raw (WatchTick # es) n = watch_events raw es (Suc n)"
| "watch_events raw (WatchKey c # es) n = (if raw \<and> quits c then Watched n True else watch_events raw es n)"
| "watch_events raw (WatchSignal # es) n = Watched n True"

definition cmd_watch :: "dial_target \<Rightarrow> bool \<Rightarrow> watch_input list \<Rightarrow> watch_end" where
  "cmd_watch tgt raw es =
     (case tgt of
        KeyRequired \<Rightarrow> WatchNeedsKey
      | NotRunning \<Rightarrow> WatchNotRunning
      | _ \<Rightarrow> watch_events raw es 1)"

subsection \<open>Updating\<close>

text \<open>\<open>current\<close> is the version of the build; its text is empty in a build without one.\<close>

definition current_version_string :: "version \<Rightarrow> string" where
  "current_version_string current = (if ver_raw current = [] then ''dev'' else ver_raw current)"

definition upgrade_hint :: "string \<Rightarrow> string list" where
  "upgrade_hint install_method =
     (if install_method = ''homebrew'' then [''Installed via Homebrew. Run: brew upgrade kubeport'']
      else if install_method = ''package'' then [''Installed via package manager. Use your package manager to upgrade.'']
      else if install_method = ''github'' then [''Run: kubeport update'']
      else [''Self-update is not available for this build.'',
            ''Reinstall from https://github.com/rbaliyan/kubeport/releases''])"

definition cmd_update_check :: "string \<Rightarrow> version \<Rightarrow> update_err + release \<Rightarrow> update_err + string list" where
  "cmd_update_check install_method current latest =
     sbind (check_update latest current) (\<lambda>(r, available). Inr
       (if \<not> available then [''kubeport '' @ current_version_string current @ '' is up to date'']
        else (''Update available: '' @ current_version_string current @ '' '' @ glyph (CHR 0x86) (CHR 0x92) @ '' '' @ rl_version r)
               # upgrade_hint install_method))"

datatype update_end =
    UpdateUnknown string
  | Checked "update_err + string list"
  | NotSelfUpdating "string list"
  | Applied "update_err + release option"

definition cmd_update ::
    "update_world \<Rightarrow> string \<Rightarrow> version \<Rightarrow> string list \<Rightarrow> install \<Rightarrow> update_end \<times> install" where
  "cmd_update u install_method current args i =
     (let sub = (case args of [] \<Rightarrow> [] | s # _ \<Rightarrow> s)
      in if sub = ''check''
         then (Checked (cmd_update_check install_method current (latest_release (uw_fetch u) (uw_decode u) kubeport_repo)), i)
         else if sub = [] \<or> sub = ''apply'' then
           (if install_method \<noteq> ''github'' then (NotSelfUpdating (upgrade_hint install_method), i)
            else (case do_update_apply u current i of (r, i1) \<Rightarrow> (Applied r, i1)))
         else (UpdateUnknown sub, i))"

text \<open>Only a program installed from GitHub replaces itself, and only when it was asked to.\<close>

lemma update_needs_github:
  assumes "cmd_update u install_method current args i = (r, i1)" "in_exec i1 \<noteq> in_exec i"
  shows "install_method = ''github'' \<and> (args = [] \<or> hd args \<in> {[], ''apply''})"
  using assms by (cases args) (auto simp: cmd_update_def Let_def split: if_splits)

end
