(* ===== verification/Edits.thy ===== *)
theory Edits
  imports Commands
begin

text \<open>
  Editing the configuration file (\<^verbatim>\<open>config add\<close> and \<^verbatim>\<open>config remove\<close> of \<^verbatim>\<open>internal/cli/config_cmd.go\<close> over
  \<^verbatim>\<open>LoadForEdit\<close> and \<^verbatim>\<open>Save\<close> of \<^verbatim>\<open>pkg/config/config.go\<close>): what is read back after an edit.
\<close>


text \<open>Migrating the event names of a configuration that was migrated changes nothing, so that a file that is
  loaded, saved and loaded again stays as it is.\<close>

lemma new_event_name_idem: "new_event_name (new_event_name n) = new_event_name n"
proof (cases "map_of legacy_event_names n")
  case (Some m)
  then have "m \<in> set (map snd legacy_event_names)" by (force dest: map_of_SomeD)
  moreover have "list_all (\<lambda>m. map_of legacy_event_names m = None) (map snd legacy_event_names)"
    by (simp add: legacy_event_names_def)
  ultimately have "map_of legacy_event_names m = None" unfolding list_all_iff by blast
  then show ?thesis using Some by (simp add: new_event_name_def)
qed (simp add: new_event_name_def)

lemma refill_same:
  "gwf m \<Longrightarrow> (\<And>k. k \<in> set (gkeys m) \<Longrightarrow> f k = k) \<Longrightarrow> foldl (\<lambda>m (n, cmd). gset (f n) cmd m) [] m = m"
proof (induction m rule: rev_induct)
  case (snoc x m)
  obtain n cmd where x: "x = (n, cmd)" by (cases x)
  have "f n = n" "n \<notin> fst ` set m" using snoc.prems by (auto simp: x)
  with snoc show ?case by (simp add: x gset_absent)
qed simp

lemma refill_keys:
  "gwf m0 \<Longrightarrow> gwf (foldl (\<lambda>m (n, cmd). gset (f n) cmd m) m0 m)
     \<and> fst ` set (foldl (\<lambda>m (n, cmd). gset (f n) cmd m) m0 m) = fst ` set m0 \<union> f ` fst ` set m"
proof (induction m arbitrary: m0)
  case (Cons x m)
  obtain n cmd where "x = (n, cmd)" by (cases x)
  with Cons show ?case by simp
qed simp

lemma migrate_idem: "migrate_hook_event_names (migrate_hook_event_names h) = migrate_hook_event_names h"
proof (cases "hk_shell h = []")
  case True
  then show ?thesis by (simp add: migrate_hook_event_names_def new_event_name_idem comp_def)
next
  case False
  let ?m = "foldl (\<lambda>m (n, cmd). gset (new_event_name n) cmd m) [] (hk_shell h)"
  have k: "gwf ?m" "fst ` set ?m = new_event_name ` fst ` set (hk_shell h)"
    using refill_keys [of "[]" new_event_name "hk_shell h"] by simp_all
  have "foldl (\<lambda>m (n, cmd). gset (new_event_name n) cmd m) [] ?m = ?m"
    by (rule refill_same [OF k(1)]) (use k(2) new_event_name_idem in auto)
  moreover have "?m \<noteq> []" using k(2) False by auto
  ultimately show ?thesis
    using False by (simp add: migrate_hook_event_names_def new_event_name_idem comp_def)
qed

text \<open>What the edits of services promise: they change nothing but the services.\<close>

definition services_only :: "(config \<Rightarrow> 'e + config) \<Rightarrow> bool" where
  "services_only edit = (\<forall>c c1. edit c = Inr c1 \<longrightarrow> c1 = c\<lparr>cfg_services := cfg_services c1\<rparr>)"

definition with_key_id :: "string \<Rightarrow> config \<Rightarrow> config" where
  "with_key_id uuid c = (if cfg_api_key c \<noteq> [] \<and> cfg_key_id c = [] then c\<lparr>cfg_key_id := uuid\<rparr> else c)"

text \<open>That the format carries a configuration: what is written of it is read back, without its path and
  format.  The formats do not carry every configuration (theorems \<open>ports_round_trip\<close> and
  \<open>toml_config_round_trip\<close>: fields set at run time, selectors beside \<^verbatim>\<open>all\<close>, and in TOML a plain selector
  of that name), so this is asked only of the configurations that an edit writes.\<close>

definition codec_carries :: "encoders \<Rightarrow> codecs \<Rightarrow> string \<Rightarrow> config \<Rightarrow> bool" where
  "codec_carries en cd path c =
     (case encode_config en (detect_format path) c of
        None \<Rightarrow> True
      | Some data \<Rightarrow> decode_config cd path data = Inr (c\<lparr>cfg_file_path := [], cfg_format := FormatYAML\<rparr>))"

lemma edit_read_back:
  assumes law: "\<And>c c1. load_for_edit env cd path = Inr c \<Longrightarrow> edit c = Inr c1 \<Longrightarrow>
      codec_carries en cd path (with_key_id uuid c1)"
    and "ap_config_file a = path" "path \<noteq> []" "services_only edit"
    and "edit_config cd en uuid a edit env = (None, env1)"
  shows "\<exists>c c1. load_for_edit env cd path = Inr c \<and> edit c = Inr c1
    \<and> load_for_edit env1 cd path = Inr (with_key_id uuid c1)"
proof -
  obtain c c1 data where c: "load_for_edit env cd path = Inr c" "edit c = Inr c1"
    and s: "save env en uuid c1 = (None, data)" "env1 = snd data"
    using assms(2,3,5) by (auto simp: edit_config_def resolve_config_path_def split: sum.splits option.splits prod.splits)
  obtain raw content where t: "read_file env path = Some content"
    and cc: "c = raw\<lparr>cfg_file_path := path, cfg_format := detect_format path,
      cfg_hooks := map migrate_hook_event_names (cfg_hooks raw)\<rparr>"
    using c(1) by (auto simp: load_for_edit_def load_raw_def result_simps split: option.splits sum.splits)
  have "c1 = c\<lparr>cfg_services := cfg_services c1\<rparr>"
    using assms(4) c(2) unfolding services_only_def by blast
  then obtain ss where ss: "c1 = c\<lparr>cfg_services := ss\<rparr>" by blast
  define k where "k = with_key_id uuid c1"
  have f: "cfg_file_path c1 = path" "cfg_format c1 = detect_format path"
    "cfg_file_path k = path" "cfg_format k = detect_format path"
    "map migrate_hook_event_names (cfg_hooks k) = cfg_hooks k"
    by (simp_all add: k_def with_key_id_def ss cc migrate_idem comp_def)
  obtain written where w: "encode_config en (detect_format path) k = Some written" "env1 = write_file env path written"
    using s assms(3) f(1,2) unfolding k_def
    by (auto simp: save_def save_to_def with_key_id_def Let_def dest!: put_file_done
        split: option.splits if_splits prod.splits bool.splits)
  have "length path < os_path_max env" using t by (simp add: read_file_def split: if_splits)
  then have r: "read_file env1 path = Some written" by (simp add: w(2) read_file_def write_file_def)
  have "decode_config cd path written = Inr (k\<lparr>cfg_file_path := [], cfg_format := FormatYAML\<rparr>)"
    using law [OF c] w(1) by (simp add: codec_carries_def k_def)
  moreover have "k\<lparr>cfg_file_path := path, cfg_format := detect_format path, cfg_hooks := cfg_hooks k\<rparr> = k"
    using f(3,4) by (cases k) simp
  ultimately have "load_for_edit env1 cd path = Inr k"
    using r f(5) by (simp add: load_for_edit_def load_raw_def result_simps)
  with c k_def show ?thesis by blast
qed

lemma add_services_only: "services_only (\<lambda>c. wrap_err EditRefused (add_service s c))"
  by (auto simp: services_only_def wrap_err_def add_service_def split: if_splits sum.splits)

lemma remove_services_only: "services_only (\<lambda>c. wrap_err EditRefused (remove_service n c))"
  by (auto simp: services_only_def wrap_err_def remove_service_def split: option.splits sum.splits)

text \<open>An edit that fails leaves the file alone, unless it is the write that fails after it has emptied the
  file: then a beginning of the new text is in it.\<close>

definition file_cut :: "encoders \<Rightarrow> string \<Rightarrow> config \<Rightarrow> os_env \<Rightarrow> config_err \<Rightarrow> os_env \<Rightarrow> bool" where
  "file_cut en path c env e env1 \<longleftrightarrow> e = SaveFailed (WriteFailed path)
     \<and> (\<exists>n data. os_cut env path = Some n \<and> encode_config en (detect_format path) c = Some data
         \<and> env1 = write_file env path (take n data))"

lemma failed_edit:
  assumes "edit_config cd en uuid a edit env = (Some e, env1)" "ap_config_file a = path" "path \<noteq> []" "services_only edit"
  shows "env1 = env \<or> (\<exists>c c1. load_for_edit env cd path = Inr c \<and> edit c = Inr c1
    \<and> file_cut en path (with_key_id uuid c1) env e env1)"
proof (cases "\<exists>c c1. load_for_edit env cd path = Inr c \<and> edit c = Inr c1")
  case False
  then show ?thesis using assms(1-3)
    by (auto simp: edit_config_def resolve_config_path_def split: sum.splits)
next
  case True
  then obtain c c1 where c: "load_for_edit env cd path = Inr c" "edit c = Inr c1" by blast
  have "cfg_file_path c = path" "cfg_format c = detect_format path"
    using c(1) by (auto simp: load_for_edit_def load_raw_def result_simps split: option.splits sum.splits)
  moreover have "c1 = c\<lparr>cfg_services := cfg_services c1\<rparr>" using assms(4) c(2) unfolding services_only_def by blast
  then obtain ss where "c1 = c\<lparr>cfg_services := ss\<rparr>" by blast
  ultimately have p: "cfg_file_path c1 = path" "cfg_format c1 = detect_format path" by simp_all
  have "env1 = env \<or> file_cut en path (with_key_id uuid c1) env e env1"
    using assms(1-3) c p
    by (auto simp: edit_config_def resolve_config_path_def save_def save_to_def Let_def with_key_id_def put_file_def
        file_cut_def split: option.splits prod.splits if_splits bool.splits)
  with c show ?thesis by blast
qed

text \<open>C28: an edit of the configuration file is what its command says, and can be undone.  When
  \<^verbatim>\<open>config add\<close> has succeeded, the file reads as before with the one service of the arguments at its end;
  when \<^verbatim>\<open>config remove\<close> of that name then succeeds, it reads as before, but for the key identifier that
  saving gives to a configuration with a key.  Of the codec it is asked that it carries the two
  configurations that are written.  A removal, and likewise an addition, that fails leaves the file
  alone, unless the write failed after the file was opened; then the file is cut off in the middle of
  the new text.\<close>

theorem config_add_undone:
  assumes "ap_config_file a = path" "path \<noteq> []" "config_add_loop args zero_service = Inr s"
    and "load_for_edit env cd path = Inr c"
    and "c1 = with_key_id uuid (c\<lparr>cfg_services := cfg_services c @ [s]\<rparr>)" "c2 = with_key_id uuid1 (with_key_id uuid c)"
    and "codec_carries en cd path c1" "codec_carries en cd path c2"
    and "config_add cd en uuid a args env = (added, env1)"
    and "config_remove cd en uuid1 a [svc_name s] env1 = (removed, env2)"
  shows "case added of
      Some e \<Rightarrow> env1 = env \<or> file_cut en path c1 env e env1
    | None \<Rightarrow> load_for_edit env1 cd path = Inr c1
        \<and> (case removed of
             Some e \<Rightarrow> env2 = env1 \<or> file_cut en path c2 env1 e env2
           | None \<Rightarrow> load_for_edit env2 cd path = Inr c2)"
proof -
  let ?add = "\<lambda>c. wrap_err EditRefused (add_service s c)" and ?rem = "\<lambda>c. wrap_err EditRefused (remove_service (svc_name s) c)"
  have c1: "d1 = c\<lparr>cfg_services := cfg_services c @ [s]\<rparr>" "svc_name s \<notin> set (map svc_name (cfg_services c))"
    if "?add c = Inr d1" for d1
    using that by (auto simp: wrap_err_def add_service_alt simp del: set_map split: if_splits)
  show ?thesis
  proof (cases "check_config_add s")
    case (Inl e)
    then show ?thesis using assms(3,9) by (auto simp: config_add_def result_simps)
  next
    case (Inr u)
    then have add: "edit_config cd en uuid a ?add env = (added, env1)"
      using assms(3,9) by (simp add: config_add_def result_simps)
    have rem: "edit_config cd en uuid1 a ?rem env1 = (removed, env2)"
      using assms(10) by (simp add: config_remove_def)
    show ?thesis
    proof (cases added)
      case (Some e)
      from failed_edit [OF add [unfolded Some] assms(1,2) add_services_only] show ?thesis
        using assms(4,5) c1 Some by auto
    next
      case None
      have "\<exists>d d1. load_for_edit env cd path = Inr d \<and> ?add d = Inr d1 \<and> load_for_edit env1 cd path = Inr (with_key_id uuid d1)"
        by (rule edit_read_back [OF _ assms(1,2) add_services_only add [unfolded None]]) (use assms(4,5,7) c1 in auto)
      then obtain d1 where d1: "?add c = Inr d1" "load_for_edit env1 cd path = Inr (with_key_id uuid d1)" using assms(4) by auto
      then have l1: "load_for_edit env1 cd path = Inr c1" using c1(1) assms(5) by simp
      have "remove_service (svc_name s) c1 = Inr (with_key_id uuid c)"
        using remove_first_append [OF c1(2) [OF d1(1)], of s] by (simp add: assms(5) with_key_id_def remove_service_def)
      then have r: "?rem c1 = Inr (with_key_id uuid c)" by (simp add: wrap_err_def)
      show ?thesis
      proof (cases removed)
        case (Some e)
        from failed_edit [OF rem [unfolded Some] assms(1,2) remove_services_only] show ?thesis
          using l1 r assms(6) None Some by auto
      next
        case none: None
        have "\<exists>d d1. load_for_edit env1 cd path = Inr d \<and> ?rem d = Inr d1 \<and> load_for_edit env2 cd path = Inr (with_key_id uuid1 d1)"
          by (rule edit_read_back [OF _ assms(1,2) remove_services_only rem [unfolded none]]) (use l1 r assms(6,8) in auto)
        then show ?thesis using l1 r assms(6) None none by auto
      qed
    qed
  qed
qed

text \<open>A failed write of an edit loses the rest of the configuration; the registry's file, which is written
  aside and renamed, cannot be lost like that.\<close>

lemma failed_write_empties:
  assumes "os_writable env path" "os_cut env path = Some 0" "encode_config en fmt c = Some data"
    and "os_writable env (path_dir path)" "cfg_api_key c = []" "length path < os_path_max env"
  shows "fst (save_to env en uuid path fmt c) = Some (WriteFailed path)
    \<and> read_file (snd (snd (save_to env en uuid path fmt c))) path = Some []"
  using assms by (simp add: save_to_def put_file_def) (simp add: read_file_def write_file_def)

text \<open>A codec that carries the names, services and ports of services and nothing else.\<close>

definition line_of :: "service_config \<Rightarrow> string" where
  "line_of s = svc_name s @ '','' @ svc_service s @ '','' @ itoa (svc_remote_port s) @ '';''"

definition service_of_line :: "string \<Rightarrow> service_config" where
  "service_of_line l =
     (case split_char (CHR '','') l of
        [n, t, p] \<Rightarrow> zero_service\<lparr>svc_name := n, svc_service := t, svc_remote_port := (case atoi p of Some i \<Rightarrow> i | None \<Rightarrow> 0)\<rparr>
      | _ \<Rightarrow> zero_service)"

definition line_encoders :: encoders where
  "line_encoders = \<lparr>enc_yaml = (\<lambda>c. Some (concat (map line_of (cfg_services c)))), enc_toml = (\<lambda>_. None)\<rparr>"

definition line_codecs :: codecs where
  "line_codecs = \<lparr>dec_yaml = (\<lambda>d. Some (zero_config\<lparr>cfg_services :=
       map service_of_line (filter (\<lambda>l. l \<noteq> []) (split_char (CHR '';'') d))\<rparr>)), dec_toml = (\<lambda>_. None)\<rparr>"

definition edit_args :: "string list" where
  "edit_args = [''--name'', ''db'', ''--service'', ''pg'', ''--remote-port'', ''5432'']"

definition edit_added :: service_config where
  "edit_added = zero_service\<lparr>svc_name := ''db'', svc_service := ''pg'', svc_remote_port := 5432\<rparr>"

definition edit_before :: config where
  "edit_before = zero_config\<lparr>cfg_file_path := ''kubeport.yaml'',
     cfg_services := [zero_service\<lparr>svc_name := ''web'', svc_service := ''w'', svc_remote_port := 80\<rparr>]\<rparr>"

theorem config_add_undone_witness:
  "\<exists>env1 env2. config_add line_codecs line_encoders [] demo_app edit_args (write_file demo_env ''kubeport.yaml'' ''web,w,80;'') = (None, env1)
     \<and> config_remove line_codecs line_encoders [] demo_app [''db''] env1 = (None, env2)
     \<and> load_for_edit env1 line_codecs ''kubeport.yaml'' = Inr (edit_before\<lparr>cfg_services := cfg_services edit_before @ [edit_added]\<rparr>)
     \<and> load_for_edit env2 line_codecs ''kubeport.yaml'' = Inr edit_before"
proof -
  let ?p = "''kubeport.yaml''" and ?env = "write_file demo_env ''kubeport.yaml'' ''web,w,80;''"
  have a: "ap_config_file demo_app = ?p" by (simp add: demo_app_def)
  have s: "config_add_loop edit_args zero_service = Inr edit_added" by code_simp
  have n: "svc_name edit_added = ''db''" by (simp add: edit_added_def)
  have k: "with_key_id [] edit_before = edit_before"
    "with_key_id [] (edit_before\<lparr>cfg_services := ss\<rparr>) = edit_before\<lparr>cfg_services := ss\<rparr>" for ss
    by (simp_all add: with_key_id_def edit_before_def zero_config_def)
  have l: "load_for_edit ?env line_codecs ?p = Inr edit_before" by code_simp
  have carries: "codec_carries line_encoders line_codecs ?p (edit_before\<lparr>cfg_services := cfg_services edit_before @ [edit_added]\<rparr>)"
    "codec_carries line_encoders line_codecs ?p edit_before" by code_simp+
  obtain added env1 where add: "config_add line_codecs line_encoders [] demo_app edit_args ?env = (added, env1)" by fastforce
  obtain removed env2 where rem: "config_remove line_codecs line_encoders [] demo_app [svc_name edit_added] env1 = (removed, env2)"
    by fastforce
  have "fst (config_add line_codecs line_encoders [] demo_app edit_args ?env) = None" by code_simp
  then have none: "added = None" using add by simp
  have "fst (config_remove line_codecs line_encoders [] demo_app [''db'']
      (snd (config_add line_codecs line_encoders [] demo_app edit_args ?env))) = None" by code_simp
  then have none2: "removed = None" using add rem n by simp
  from config_add_undone [OF a _ s l refl refl _ _ add rem] carries k none none2
  have "load_for_edit env1 line_codecs ?p = Inr (edit_before\<lparr>cfg_services := cfg_services edit_before @ [edit_added]\<rparr>)
    \<and> load_for_edit env2 line_codecs ?p = Inr edit_before" by simp
  then show ?thesis using add rem n none none2 by auto
qed

end
