(* ===== verification/Spec2Isabelle.thy ===== *)
theory Spec2Isabelle
  imports RunnerFacts External Socks HttpProxy Update Output Serving Tunnel Listening Admin Edits
begin

text \<open>
  This library is a model of kubeport and its correctness.  kubeport keeps port-forwards into Kubernetes
  clusters alive: a configuration file names services and pods with local ports, a daemon in the background
  runs a forward for each of them and restarts it when it breaks, and a command line, a client library and
  two proxies talk to the daemon.

  \<^bold>\<open>The parts and how they work together.\<close>  A command (\<^verbatim>\<open>internal/cli\<close>) parses its flags, loads the
  configuration (\<^verbatim>\<open>pkg/config\<close>) and either edits it, starts the daemon, or dials the daemon that runs.  The
  daemon registers itself in a file all instances share (\<^verbatim>\<open>internal/registry\<close>), looks there for services that
  other instances already forward (\<^verbatim>\<open>internal/proxy/external.go\<close>), and gives the configuration to its manager
  (\<^verbatim>\<open>internal/proxy/manager.go\<close>).  The manager registers a forward per service, and for each a loop runs
  attempts: an attempt resolves the pod, opens a tunnel and watches it.  Hooks (\<^verbatim>\<open>internal/hook\<close>) are fired at
  each change, and one kind of them can veto.  Clients reach the manager by RPC (\<^verbatim>\<open>internal/daemon\<close>) behind an
  authentication of its own (\<^verbatim>\<open>pkg/grpcauth\<close>).  The client library (\<^verbatim>\<open>pkg/proxy\<close>) finds the daemon, fetches
  the table from cluster addresses to local ports, and serves it to programs, to a SOCKS5 proxy and to an HTTP
  proxy.  The program updates itself (\<^verbatim>\<open>internal/update\<close>).

  \<^bold>\<open>Theories and code.\<close>
  \<^item> \<open>Prelude\<close>, \<open>Strings\<close>, \<open>Numbers\<close>, \<open>Floats\<close>, \<open>Paths\<close>, \<open>PathFacts\<close>: what the program uses of Go
    itself.  A Go map is a list of pairs without duplicates (the locale \<open>finite_store\<close> states its laws), a Go
    string is its bytes, \<^verbatim>\<open>int\<close> is \<^typ>\<open>int\<close> with \<open>wrap64\<close> written where a result can leave the range,
    \<^verbatim>\<open>float64\<close> is a rational with the rounding to 53 bits, a path is cleaned and joined as by
    \<^verbatim>\<open>path/filepath\<close>.
  \<^item> \<open>Config\<close>, \<open>Validate\<close>, \<open>Merge\<close>, \<open>Files\<close>: \<^verbatim>\<open>pkg/config\<close>.  The structs are records, every error return is a
    constructor, the file system is the record \<open>os_env\<close>, the YAML and TOML decoders are parameters.  Loading
    follows the chain of \<^verbatim>\<open>extends\<close> with a termination proof instead of fuel.  A file is written as
    \<^verbatim>\<open>os.WriteFile\<close> does it: it is emptied when it is opened, and \<open>put_file\<close> leaves what was written of the data
    when the write fails.
  \<^item> \<open>Hook\<close>, \<open>Dispatcher\<close>: \<^verbatim>\<open>internal/hook\<close>.  What a hook starts or sends is an effect, what comes back is an
    input.
  \<^item> \<open>Ports\<close>, \<open>Manager\<close>, \<open>ManagerInv\<close>, \<open>ManagerView\<close>, \<open>ManagerOps\<close>: the manager.  A pointer to a forward is an
    address into a store, so that two names of one forward are one object, as in the code.  The locale
    \<open>manager_invariant\<close> proves once, for any property that survives the primitive updates, that it survives
    every operation; \<open>mgr_step\<close> and \<open>reachable\<close> are the states that operations can reach.
  \<^item> \<open>Streams\<close>, \<open>Tunnel\<close>: the wrappers of a tunnel's streams (\<^verbatim>\<open>counting.go\<close>, \<^verbatim>\<open>throttle.go\<close>, \<^verbatim>\<open>chaos.go\<close>,
    \<^verbatim>\<open>transport_cache.go\<close>), singly and put together, and the streams of one connection of \<^verbatim>\<open>lazy.go\<close>.  The token
    bucket computes in \<^verbatim>\<open>float64\<close> with the rounding of every operation, and its waits are \<^verbatim>\<open>int64\<close> nanoseconds.
  \<^item> \<open>Supervise\<close>, \<open>Runners\<close>, \<open>Loop\<close>, \<open>LoopFacts\<close>, \<open>RunnerFacts\<close>: the three ways to run a forward and the loop
    that restarts it (\<^verbatim>\<open>manager.go\<close>, \<^verbatim>\<open>lazy.go\<close>, \<^verbatim>\<open>isolated.go\<close>, \<^verbatim>\<open>pod_watcher.go\<close>).  A \<^verbatim>\<open>select\<close> is a list of the
    events it receives, in their order (the locale \<open>select_loop\<close>); what the loop needs of a way to run is the
    locale \<open>attempt_runner\<close>, which all three are shown to satisfy.
  \<^item> \<open>Registry\<close>, \<open>External\<close>: the instances file with its lock, as steps of several processes (the locale
    \<open>shared_table\<close>), and the detection of services that others run.
  \<^item> \<open>Convert\<close>, \<open>Server\<close>, \<open>Serving\<close>: messages, handlers, authentication, listening and the certificate
    (\<^verbatim>\<open>internal/daemon\<close>, \<^verbatim>\<open>pkg/grpcauth\<close>).  The interface \<^verbatim>\<open>Supervisor\<close> is a record of operations; its contract is
    the locale \<open>supervisor_contract\<close>, interpreted on the manager and on the delegate's empty supervisor.
  \<^item> \<open>Client\<close>, \<open>Socks\<close>, \<open>HttpProxy\<close>, \<open>Listening\<close>: \<^verbatim>\<open>pkg/proxy\<close>.  A refresh and a close of a client are the steps
    between which the code holds no lock, and the steps of all clients of a process interleave
    (\<open>sdk_step\<close>); the code does not keep the calls on one client apart, so what is shown of the shared table
    is for the runs in which they do not overlap, and \<open>late_swap_leaks\<close> is a run in which they do.
  \<^item> \<open>Cli\<close>, \<open>Commands\<close>, \<open>Edits\<close>, \<open>Lifecycle\<close>, \<open>Daemons\<close>, \<open>Launch\<close>, \<open>Output\<close>, \<open>Admin\<close>: \<^verbatim>\<open>internal/cli\<close>.
  \<^item> \<open>Update\<close>: \<^verbatim>\<open>internal/update\<close>.

  \<^bold>\<open>What is shown.\<close>  Each component has the behaviour of its operations on every branch, and the properties that
  span them: the manager's invariant in every reachable state, and that a reload reaches the configuration it is
  given; validation, which file of an \<^verbatim>\<open>extends\<close> chain each setting comes from, and exactly when what is written
  is read back; the exact
  conditions of the SOCKS5 and HTTP authentication on bytes; the bounds of waits, restarts and bandwidth, and the
  exactness of the traffic counters; the registry as a map in spite of other processes; which daemon starts what
  when several run, that services handed over are returned, and that a launched daemon is found, stopped and
  gone; that commands, proxies and library find the daemon where it listens and pin the certificate it presents;
  and that only verified downloads are installed.  Several theorems state precisely where the code falls short of
  its intention, for instance that a removed service reconnects as long as its loop runs.  What a property
  assumes is said in the text above it.

  \<^bold>\<open>Bounds and termination.\<close>  Loops over input are structural recursions on the input; other recursions have
  termination proofs.  Loops that run for ever in the code take the finite list of the events that have
  happened, and their result says whether they have ended; a theorem about a loop holds for every such list.
  Polls with a deadline are bounded by the number of polls that fit before it (25, 50 and the like, each next to
  its definition).  No definition runs out of fuel.

  \<^bold>\<open>What is not modelled.\<close>  The generated RPC code, gRPC, TLS and the cryptography, the Kubernetes client and its
  SPDY streams, the YAML, TOML and JSON codecs, the HTTP client and server of the standard library, gzip and tar,
  terminals and processes: they are parameters, with what the code relies on as hypotheses.  Logging, help texts,
  the alignment of table columns and the copying of bytes between two sockets are left out, as is \<^verbatim>\<open>main.go\<close>, which only
  calls the command line.  Goroutines are modelled where their order matters, as explicit sequences of steps or
  events; the memory model below that is not.  Floating-point operations round one by one, the fused
  multiply-add that Go may use on some processors is not modelled; case mapping and white space are those of
  ASCII.
\<close>

section \<open>From the daemon to its clients\<close>

text \<open>C10: every client finds the daemon where it listens.  When a daemon serves a configuration on its
  Unix socket, then from any directory, and under any way to write the path of the same file, the command
  line dials that socket, the proxies connect to it, a client library that discovers the file chooses it, and
  the registry lists it.\<close>

theorem clients_find_daemon:
  assumes "start_server be cy sha256 now cfg f env = (ServingUnix addr, f1, env1)"
    and "cfg_file_path cfg \<noteq> []" "cfg_file_path seen \<noteq> []" "cfg_listen seen = cfg_listen cfg"
    and "path_abs (os_cwd env) (cfg_file_path cfg) = path_abs cwd (cfg_file_path seen)"
    and "\<forall>h \<in> set_option (os_home env). is_abs h"
    and "ap_cfg a = Some seen" "resolve_host a = []" "file_exists (env1\<lparr>os_cwd := cwd\<rparr>) addr"
    and "discover (env1\<lparr>os_cwd := cwd\<rparr>) = Some path" "load_config (env1\<lparr>os_cwd := cwd\<rparr>) cd path = Inr seen"
  shows "dial_target_of (env1\<lparr>os_cwd := cwd\<rparr>) sha256 a = DialUnix addr
    \<and> WithSocketPath addr \<in> set (connect_options (env1\<lparr>os_cwd := cwd\<rparr>) sha256 a px flags)
    \<and> discover_target (env1\<lparr>os_cwd := cwd\<rparr>) cd sha256 reg = Inr (UnixEndpoint addr)
    \<and> en_socket (daemon_entry env sha256 hmac vers a0 cfg pid started) = addr"
proof -
  have lc: "lc_mode (listen_address env sha256 cfg) = ListenUnix" "addr = socket_file env sha256 cfg" "env1 = env"
    using assms(1) by (auto simp: start_server_def start_unix_def start_tcp_def listen_address_def Let_def
        split: prod.splits option.splits if_splits sum.splits)
  have sock: "socket_file (env1\<lparr>os_cwd := cwd\<rparr>) sha256 seen = addr"
    using socket_file_cwd [OF assms(6,2,3,5,4)] lc by simp
  have unix: "\<not> has_prefix (cfg_listen cfg) ''tcp://''" using lc(1) by (auto simp: listen_address_def)
  then have there: "listen_address (env1\<lparr>os_cwd := cwd\<rparr>) sha256 seen = \<lparr>lc_mode = ListenUnix, lc_address = addr\<rparr>"
    using assms(4) sock by (simp add: listen_address_def)
  have "dial_target_of (env1\<lparr>os_cwd := cwd\<rparr>) sha256 a = DialUnix addr"
    using assms(7-9) sock by (simp add: dial_target_of_def socket_path_def)
  moreover have "WithSocketPath addr \<in> set (connect_options (env1\<lparr>os_cwd := cwd\<rparr>) sha256 a px flags)"
    using assms(7) there sock by (simp add: connect_options_def)
  moreover have "discover_target (env1\<lparr>os_cwd := cwd\<rparr>) cd sha256 reg = Inr (UnixEndpoint addr)"
    using assms(9-11) there by (simp add: discover_target_def Let_def)
  moreover have "en_socket (daemon_entry env sha256 hmac vers a0 cfg pid started) = addr"
    using lc unix by (simp add: daemon_entry_def Let_def listen_address_def)
  ultimately show ?thesis by blast
qed

definition serving_env :: os_env where
  "serving_env = demo_env\<lparr>os_files := (''/tmp/w-2f772f6b.sock'', []) # os_files demo_env\<rparr>"

lemma serving_loads:
  "load_config serving_env demo_codecs ''/w/kubeport.yaml'' = Inr (demo_loaded\<lparr>cfg_file_path := ''/w/kubeport.yaml''\<rparr>)"
proof -
  have "detect_format ''/w/kubeport.yaml'' = FormatYAML" "read_file serving_env ''/w/kubeport.yaml'' = Some ''x''" by code_simp+
  then have "load_raw serving_env demo_codecs ''/w/kubeport.yaml'' = Inr (demo_loaded\<lparr>cfg_file_path := ''/w/kubeport.yaml''\<rparr>)"
    by (simp add: load_raw_def decode_config_def demo_codecs_def demo_loaded_def zero_config_def)
  moreover have "getenv serving_env v = []" for v by (simp add: getenv_def gget0_def serving_env_def demo_env_def)
  moreover have "cfg_extends demo_loaded = []" by (simp add: demo_loaded_def zero_config_def)
  ultimately show ?thesis
    by (simp add: load_config_def load_with_inheritance.simps override_env_def or_string_def)
qed

theorem clients_find_daemon_witness:
  "let seen = demo_loaded\<lparr>cfg_file_path := ''/w/kubeport.yaml''\<rparr>; a = new_app\<lparr>ap_cfg := Some seen\<rparr>
   in start_server open_binding demo_crypto (\<lambda>s. s) 0 demo_loaded NoSocket serving_env
        = (ServingUnix ''/tmp/w-2f772f6b.sock'', LiveSocket, serving_env)
     \<and> dial_target_of (serving_env\<lparr>os_cwd := ''/w''\<rparr>) (\<lambda>s. s) a = DialUnix ''/tmp/w-2f772f6b.sock''"
proof -
  let ?seen = "demo_loaded\<lparr>cfg_file_path := ''/w/kubeport.yaml''\<rparr>"
  have addr: "listen_address serving_env (\<lambda>s. s) demo_loaded
      = \<lparr>lc_mode = ListenUnix, lc_address = ''/tmp/w-2f772f6b.sock''\<rparr>" by code_simp
  have s: "start_server open_binding demo_crypto (\<lambda>s. s) 0 demo_loaded NoSocket serving_env
      = (ServingUnix ''/tmp/w-2f772f6b.sock'', LiveSocket, serving_env)"
    by (simp add: start_server_def addr start_unix_def clean_stale_socket_def open_binding_def)
  have cwd: "serving_env\<lparr>os_cwd := ''/w''\<rparr> = serving_env" by (simp add: serving_env_def demo_env_def)
  have paths: "cfg_file_path demo_loaded \<noteq> []" "cfg_file_path ?seen \<noteq> []" "cfg_listen ?seen = cfg_listen demo_loaded"
    "path_abs (os_cwd serving_env) (cfg_file_path demo_loaded) = path_abs ''/w'' (cfg_file_path ?seen)"
    "discover serving_env = Some ''/w/kubeport.yaml''" "file_exists serving_env ''/tmp/w-2f772f6b.sock''"
    by code_simp+
  have home: "\<forall>h \<in> set_option (os_home serving_env). is_abs h" by (simp add: serving_env_def demo_env_def)
  have a: "ap_cfg (new_app\<lparr>ap_cfg := Some ?seen\<rparr>) = Some ?seen" "resolve_host (new_app\<lparr>ap_cfg := Some ?seen\<rparr>) = []"
    by code_simp+
  note found = clients_find_daemon [OF s paths(1-4) home a, unfolded cwd, OF paths(6,5) serving_loads]
  show ?thesis unfolding Let_def cwd using s found by blast
qed

end
